(* ===== verification/Prelude.thy ===== *)
theory Prelude
  imports Complex_Main "HOL-Library.Word" "HOL-Library.Char_ord" "HOL-Library.Sublist"
begin

text \<open>
  Shared vocabulary of the development.

  Machine integers are \<open>w word\<close> (\<open>u16\<close>, \<open>u32\<close>, \<open>u64\<close> below).  A Rust
  \<^verbatim>\<open>str\<close> is its UTF-8 byte sequence, an Isabelle \<open>string\<close> (a list of 8-bit
  characters), so \<open>length\<close> is Rust's \<^verbatim>\<open>len()\<close>, and prefix tests, splits at an
  ASCII separator and substring tests are the same on bytes as on characters.  Where the
  source iterates \<^verbatim>\<open>chars()\<close> the model iterates \<open>scalars\<close>, the byte groups of the
  single Unicode scalar values.  A fallible function returns \<open>'e + 'a\<close> with the error
  on the left; a panic is \<open>None\<close> of an \<open>option\<close>.
\<close>

type_synonym u8 = "8 word"
type_synonym u16 = "16 word"
type_synonym u32 = "32 word"
type_synonym u64 = "64 word"

named_theorems str_simps \<open>unfolding of the string operations\<close>

section \<open>Results\<close>

definition is_ok :: "'e + 'a \<Rightarrow> bool" where
  "is_ok r = (case r of Inl _ \<Rightarrow> False | Inr _ \<Rightarrow> True)"

definition ok :: "'e + 'a \<Rightarrow> 'a option" where
  "ok r = (case r of Inl _ \<Rightarrow> None | Inr a \<Rightarrow> Some a)"

definition the_default :: "'a \<Rightarrow> 'a option \<Rightarrow> 'a" where
  "the_default d x = (case x of Some a \<Rightarrow> a | None \<Rightarrow> d)"

lemma the_default_simps [simp]: "the_default d (Some a) = a" "the_default d None = d"
  by (simp_all add: the_default_def)

lemma is_ok_simps [simp]: "is_ok (Inr a)" "\<not> is_ok (Inl e)"
  by (simp_all add: is_ok_def)

lemma ok_simps [simp]: "ok (Inr a) = Some a" "ok (Inl e) = None"
  by (simp_all add: ok_def)

lemma ok_eq_Some_iff [simp]: "ok r = Some a \<longleftrightarrow> r = Inr a"
  by (cases r) auto

lemma ok_eq_None_iff: "ok r = None \<longleftrightarrow> (\<exists>e. r = Inl e)"
  by (cases r) auto

section \<open>Characters\<close>

definition byte :: "char \<Rightarrow> nat" where
  "byte c = of_char c"

definition is_ascii_digit :: "char \<Rightarrow> bool" where
  "is_ascii_digit c \<longleftrightarrow> 48 \<le> byte c \<and> byte c \<le> 57"

definition is_ascii_lower :: "char \<Rightarrow> bool" where
  "is_ascii_lower c \<longleftrightarrow> 97 \<le> byte c \<and> byte c \<le> 122"

definition is_ascii_upper :: "char \<Rightarrow> bool" where
  "is_ascii_upper c \<longleftrightarrow> 65 \<le> byte c \<and> byte c \<le> 90"

definition is_ascii_alnum :: "char \<Rightarrow> bool" where
  "is_ascii_alnum c \<longleftrightarrow> is_ascii_digit c \<or> is_ascii_lower c \<or> is_ascii_upper c"

definition lower_char :: "char \<Rightarrow> char" where
  "lower_char c = (if is_ascii_upper c then char_of (byte c + 32) else c)"

text \<open>\<^verbatim>\<open>to_ascii_lowercase\<close>.  The source's \<^verbatim>\<open>to_lowercase\<close> is only ever used in
  front of tests for ASCII substrings and prefixes none of whose letters is the lower case of
  a non-ASCII letter, so it is modelled by the same function.\<close>

definition to_lower :: "string \<Rightarrow> string" where
  "to_lower = map lower_char"

lemma length_to_lower [simp]: "length (to_lower s) = length s"
  by (simp add: to_lower_def)

section \<open>Unicode scalar values\<close>

definition scalar_width :: "char \<Rightarrow> nat" where
  "scalar_width c =
     (if byte c < 128 then 1 else if byte c < 224 then 2 else if byte c < 240 then 3 else 4)"

lemma scalar_width_pos [simp]: "0 < scalar_width c"
  by (simp add: scalar_width_def)

function scalars :: "string \<Rightarrow> string list" where
  "scalars [] = []"
| "scalars (c # s) = take (scalar_width c) (c # s) # scalars (drop (scalar_width c) (c # s))"
  by pat_completeness auto
termination
  by (relation "measure length") (auto simp: scalar_width_def)

lemma concat_scalars [simp]: "concat (scalars s) = s"
proof (induction s rule: scalars.induct)
  case (2 c s)
  show ?case
    by (simp only: scalars.simps concat.simps 2 append_take_drop_id)
qed simp

lemma scalars_nonempty: "t \<in> set (scalars s) \<Longrightarrow> t \<noteq> []"
proof (induction s rule: scalars.induct)
  case (2 c s)
  have ne: "take (scalar_width c) (c # s) \<noteq> []"
    by (simp add: scalar_width_def)
  from "2.prems" consider "t = take (scalar_width c) (c # s)"
    | "t \<in> set (scalars (drop (scalar_width c) (c # s)))"
    by (simp only: scalars.simps set_simps insert_iff) blast
  then show ?case
  proof cases
    case 1
    with ne show ?thesis by (simp only: not_False_eq_True)
  next
    case 2
    then show ?thesis by (rule "2.IH")
  qed
qed simp

text \<open>A test of one-byte characters.\<close>

definition scalar_is :: "(char \<Rightarrow> bool) \<Rightarrow> string \<Rightarrow> bool" where
  "scalar_is p t = (case t of [c] \<Rightarrow> p c | _ \<Rightarrow> False)"

text \<open>ASCII text has one scalar per byte.\<close>

definition is_ascii :: "string \<Rightarrow> bool" where
  "is_ascii s \<longleftrightarrow> list_all (\<lambda>c. byte c < 128) s"

lemma scalars_ascii: "is_ascii s \<Longrightarrow> scalars s = map (\<lambda>c. [c]) s"
  by (induction s) (auto simp: is_ascii_def scalar_width_def)

section \<open>String operations of the standard library\<close>

definition starts_with :: "string \<Rightarrow> string \<Rightarrow> bool" where
  "starts_with p s \<longleftrightarrow> take (length p) s = p"

definition strip_prefix :: "string \<Rightarrow> string \<Rightarrow> string option" where
  "strip_prefix p s = (if starts_with p s then Some (drop (length p) s) else None)"

lemma starts_with_iff: "starts_with p s \<longleftrightarrow> (\<exists>t. s = p @ t)"
  unfolding starts_with_def by (metis append_eq_conv_conj append_take_drop_id)

lemma strip_prefix_Some_iff: "strip_prefix p s = Some t \<longleftrightarrow> s = p @ t"
  unfolding strip_prefix_def starts_with_def
  by (auto simp: append_eq_conv_conj) (metis append_take_drop_id)

lemma starts_with_append [simp]: "starts_with p (p @ s)"
  by (simp add: starts_with_def)

fun contains :: "string \<Rightarrow> string \<Rightarrow> bool" where
  "contains pat [] = (pat = [])"
| "contains pat (c # s) = (starts_with pat (c # s) \<or> contains pat s)"

lemma contains_iff: "contains pat s \<longleftrightarrow> (\<exists>u v. s = u @ pat @ v)"
proof (induction s)
  case Nil
  show ?case by simp
next
  case (Cons c s)
  show ?case
  proof
    assume "contains pat (c # s)"
    then consider "starts_with pat (c # s)" | "contains pat s" by auto
    then show "\<exists>u v. c # s = u @ pat @ v"
    proof cases
      case 1
      then show ?thesis by (metis append_Nil starts_with_iff)
    next
      case 2
      then show ?thesis by (metis Cons.IH append_Cons)
    qed
  next
    assume "\<exists>u v. c # s = u @ pat @ v"
    then obtain u v where uv: "c # s = u @ pat @ v" by blast
    show "contains pat (c # s)"
    proof (cases u)
      case Nil
      with uv have "starts_with pat (c # s)" by (simp only: append_Nil starts_with_append)
      then show ?thesis by simp
    next
      case (Cons d u')
      with uv have "s = u' @ pat @ v" by simp
      with Cons.IH show ?thesis by auto
    qed
  qed
qed

text \<open>\<^verbatim>\<open>s.split(sep)\<close> for an ASCII separator: always at least one piece.\<close>

fun split_at :: "(char \<Rightarrow> bool) \<Rightarrow> string \<Rightarrow> string list" where
  "split_at p [] = [[]]"
| "split_at p (c # s) =
     (if p c then [] # split_at p s
      else (case split_at p s of [] \<Rightarrow> [[c]] | w # ws \<Rightarrow> (c # w) # ws))"

lemma split_at_nonempty [simp]: "split_at p s \<noteq> []"
  by (induction s) (auto split: list.splits)

lemma split_at_pieces: "w \<in> set (split_at p s) \<Longrightarrow> list_all (\<lambda>c. \<not> p c) w"
proof (induction s arbitrary: w)
  case (Cons c s)
  then show ?case
    by (cases "split_at p s") (auto split: if_splits)
qed simp

lemma split_at_none: "list_all (\<lambda>c. \<not> p c) s \<Longrightarrow> split_at p s = [s]"
  by (induction s) auto

text \<open>\<^verbatim>\<open>char::is_whitespace\<close> on a scalar, and \<^verbatim>\<open>str::trim\<close>.\<close>

definition ws_scalars :: "nat list list" where
  "ws_scalars =
     [[0xC2, 0x85], [0xC2, 0xA0], [0xE1, 0x9A, 0x80], [0xE2, 0x80, 0xA8], [0xE2, 0x80, 0xA9],
      [0xE2, 0x80, 0xAF], [0xE2, 0x81, 0x9F], [0xE3, 0x80, 0x80]]
     @ map (\<lambda>k. [0xE2, 0x80, k]) [0x80..<0x8B]"

definition is_ws :: "string \<Rightarrow> bool" where
  "is_ws t = (case map byte t of
      [b] \<Rightarrow> (9 \<le> b \<and> b \<le> 13) \<or> b = 32
    | bs \<Rightarrow> bs \<in> set ws_scalars)"

definition trim :: "string \<Rightarrow> string" where
  "trim s = concat (rev (dropWhile is_ws (rev (dropWhile is_ws (scalars s)))))"

lemma trim_eq_Nil_iff: "trim s = [] \<longleftrightarrow> list_all is_ws (scalars s)"
proof -
  let ?d = "dropWhile is_ws (rev (dropWhile is_ws (scalars s)))"
  have "t \<noteq> []" if "t \<in> set ?d" for t
    using that by (auto dest!: set_dropWhileD dest: scalars_nonempty)
  then have "trim s = [] \<longleftrightarrow> ?d = []"
    unfolding trim_def concat_eq_Nil_conv set_rev using list.set_sel(1) [of ?d] by auto
  also have "\<dots> \<longleftrightarrow> (\<forall>t\<in>set (dropWhile is_ws (scalars s)). is_ws t)"
    by (simp add: dropWhile_eq_Nil_conv)
  also have "\<dots> \<longleftrightarrow> list_all is_ws (scalars s)"
  proof -
    have "(\<forall>t\<in>set (dropWhile is_ws ts). is_ws t) \<longleftrightarrow> list_all is_ws ts" for ts
      by (induction ts) auto
    then show ?thesis .
  qed
  finally show ?thesis .
qed

lemma length_concat_dropWhile:
  "length (concat (dropWhile p ts)) \<le> length (concat ts)"
  by (induction ts) auto

lemma length_trim: "length (trim s) \<le> length s"
proof -
  let ?a = "dropWhile is_ws (scalars s)"
  have swap: "length (concat (rev us)) = length (concat us)" for us :: "string list"
    by (simp add: length_concat rev_map [symmetric] sum_list_rev)
  have "length (trim s) = length (concat (dropWhile is_ws (rev ?a)))"
    by (simp only: trim_def swap)
  also have "\<dots> \<le> length (concat (rev ?a))"
    by (rule length_concat_dropWhile)
  also have "\<dots> = length (concat ?a)"
    by (simp only: swap)
  also have "\<dots> \<le> length (concat (scalars s))"
    by (rule length_concat_dropWhile)
  finally show ?thesis by simp
qed

section \<open>Numbers in text\<close>

definition hex_digit :: "nat \<Rightarrow> char" where
  "hex_digit n = char_of (if n < 10 then 48 + n else 87 + n)"

definition digit_val :: "char \<Rightarrow> nat option" where
  "digit_val c =
     (if is_ascii_digit c then Some (byte c - 48)
      else if is_ascii_lower c then Some (byte c - 87)
      else if is_ascii_upper c then Some (byte c - 55)
      else None)"

fun digits_val :: "nat \<Rightarrow> nat \<Rightarrow> string \<Rightarrow> nat option" where
  "digits_val r acc [] = Some acc"
| "digits_val r acc (c # s) =
     (case digit_val c of
        Some d \<Rightarrow> if d < r then digits_val r (acc * r + d) s else None
      | None \<Rightarrow> None)"

text \<open>\<^verbatim>\<open>uN::from_str_radix\<close>: an optional \<open>+\<close>, at least one digit, no overflow.\<close>

definition parse_uint :: "nat \<Rightarrow> nat \<Rightarrow> string \<Rightarrow> nat option" where
  "parse_uint radix bits s =
     (let ds = (case s of c # t \<Rightarrow> if c = CHR ''+'' then t else s | [] \<Rightarrow> s)
      in if ds = [] then None
         else (case digits_val radix 0 ds of
                 Some v \<Rightarrow> if v < 2 ^ bits then Some v else None
               | None \<Rightarrow> None))"

lemma parse_uint_bound: "parse_uint r b s = Some v \<Longrightarrow> v < 2 ^ b"
  by (auto simp: parse_uint_def Let_def split: if_splits option.splits)

text \<open>The last \<open>n\<close> base-\<open>r\<close> digits of \<open>v\<close>, most significant first (\<^verbatim>\<open>{:0n x}\<close> of a
  value below \<open>r ^ n\<close>).\<close>

fun radix_digits :: "nat \<Rightarrow> nat \<Rightarrow> nat \<Rightarrow> string" where
  "radix_digits r 0 v = []"
| "radix_digits r (Suc n) v = radix_digits r n (v div r) @ [hex_digit (v mod r)]"

lemma length_radix_digits [simp]: "length (radix_digits r n v) = n"
  by (induction n arbitrary: v) auto

lemma byte_hex_digit: "n < 16 \<Longrightarrow> byte (hex_digit n) = (if n < 10 then 48 + n else 87 + n)"
  by (simp add: byte_def hex_digit_def)

lemma digit_val_hex_digit: "n < 16 \<Longrightarrow> digit_val (hex_digit n) = Some n"
  by (auto simp: digit_val_def is_ascii_digit_def is_ascii_lower_def byte_hex_digit)

lemma digits_val_append:
  "digits_val r acc (s @ t) = Option.bind (digits_val r acc s) (\<lambda>a. digits_val r a t)"
  by (induction s arbitrary: acc) (auto split: option.splits)

lemma digits_val_radix_digits:
  assumes r: "0 < r" "r \<le> 16"
  shows "digits_val r acc (radix_digits r n v) = Some (acc * r ^ n + v mod r ^ n)"
proof (induction n arbitrary: v)
  case 0
  show ?case by simp
next
  case (Suc n)
  have d: "digit_val (hex_digit (v mod r)) = Some (v mod r)"
    using r by (intro digit_val_hex_digit) (metis mod_less_divisor order_less_le_trans)
  have "digits_val r acc (radix_digits r (Suc n) v)
      = Some ((acc * r ^ n + v div r mod r ^ n) * r + v mod r)"
    using r d by (simp add: digits_val_append Suc)
  also have "(acc * r ^ n + v div r mod r ^ n) * r + v mod r = acc * r ^ Suc n + v mod r ^ Suc n"
    by (simp add: mod_mult2_eq algebra_simps)
  finally show ?case .
qed

text \<open>Decimal \<^verbatim>\<open>Display\<close> of an unsigned number.\<close>

fun show_nat :: "nat \<Rightarrow> string" where
  "show_nat n = (if n < 10 then [hex_digit n] else show_nat (n div 10) @ [hex_digit (n mod 10)])"

declare show_nat.simps [simp del]

lemma show_nat_nonempty [simp]: "show_nat n \<noteq> []"
  by (subst show_nat.simps) simp

lemma digits_val_show_nat: "digits_val 10 0 (show_nat n) = Some n"
proof (induction n rule: show_nat.induct)
  case (1 n)
  show ?case
  proof (cases "n < 10")
    case True
    then show ?thesis
      by (subst show_nat.simps) (simp add: digit_val_hex_digit)
  next
    case False
    with 1 have "digits_val 10 0 (show_nat (n div 10)) = Some (n div 10)" by simp
    with False show ?thesis
      by (subst show_nat.simps) (simp add: digits_val_append digit_val_hex_digit)
  qed
qed

lemma show_nat_digits: "list_all is_ascii_digit (show_nat n)"
proof (induction n rule: show_nat.induct)
  case (1 n)
  have dig: "is_ascii_digit (hex_digit k)" if "k < 10" for k
    using that by (simp add: is_ascii_digit_def byte_hex_digit)
  show ?case
    by (subst show_nat.simps) (use 1 in \<open>auto simp: dig\<close>)
qed

lemma parse_show_nat: "n < 2 ^ b \<Longrightarrow> parse_uint 10 b (show_nat n) = Some n"
proof -
  assume n: "n < 2 ^ b"
  obtain c t where ct: "show_nat n = c # t"
    by (metis show_nat_nonempty neq_Nil_conv)
  have "is_ascii_digit c"
    using show_nat_digits [of n] ct by simp
  then have "c \<noteq> CHR ''+''"
    by (auto simp: is_ascii_digit_def byte_def)
  then show ?thesis
    using n digits_val_show_nat [of n] ct by (simp add: parse_uint_def)
qed

section \<open>Bytes and hexadecimal\<close>

definition hex_byte :: "u8 \<Rightarrow> string" where
  "hex_byte b = radix_digits 16 2 (unat b)"

definition hex_encode :: "u8 list \<Rightarrow> string" where
  "hex_encode bs = concat (map hex_byte bs)"

fun hex_decode :: "string \<Rightarrow> u8 list option" where
  "hex_decode [] = Some []"
| "hex_decode [c] = None"
| "hex_decode (a # b # s) =
     (case (digit_val a, digit_val b, hex_decode s) of
        (Some x, Some y, Some bs) \<Rightarrow>
          if x < 16 \<and> y < 16 then Some (word_of_nat (16 * x + y) # bs) else None
      | _ \<Rightarrow> None)"

lemma length_hex_byte [simp]: "length (hex_byte b) = 2"
  by (simp add: hex_byte_def)

lemma length_hex_encode [simp]: "length (hex_encode bs) = 2 * length bs"
  by (induction bs) (auto simp: hex_encode_def)

lemma hex_byte_eq:
  "hex_byte b = [hex_digit (unat b div 16), hex_digit (unat b mod 16)]"
proof -
  have "unat b < 256" using unsigned_less [of b] by simp
  then have "unat b div 16 < 16" by auto
  then show ?thesis by (simp add: hex_byte_def numeral_2_eq_2)
qed

lemma hex_decode_encode: "hex_decode (hex_encode bs) = Some bs"
proof (induction bs)
  case Nil
  show ?case by (simp add: hex_encode_def)
next
  case (Cons b bs)
  have "unat b < 256" using unsigned_less [of b] by simp
  then have "unat b div 16 < 16" by auto
  with Cons show ?case
    by (simp add: hex_encode_def hex_byte_eq digit_val_hex_digit)
qed

lemma hex_decode_length: "hex_decode s = Some bs \<Longrightarrow> length s = 2 * length bs"
  by (induction s arbitrary: bs rule: hex_decode.induct)
    (auto split: option.splits if_splits prod.splits)

text \<open>Little- and big-endian bytes of a 64-bit word and back.\<close>

definition to_le_bytes :: "u64 \<Rightarrow> u8 list" where
  "to_le_bytes w = map (\<lambda>i. ucast (drop_bit (8 * i) w)) [0..<8]"

definition to_be_bytes :: "u64 \<Rightarrow> u8 list" where
  "to_be_bytes w = rev (to_le_bytes w)"

fun le_nat :: "u8 list \<Rightarrow> nat" where
  "le_nat [] = 0"
| "le_nat (b # bs) = unat b + 256 * le_nat bs"

definition from_le_bytes :: "u8 list \<Rightarrow> u64" where
  "from_le_bytes bs = word_of_nat (le_nat bs)"

definition from_be_bytes :: "u8 list \<Rightarrow> u64" where
  "from_be_bytes bs = from_le_bytes (rev bs)"

lemma length_to_le_bytes [simp]: "length (to_le_bytes w) = 8"
  by (simp add: to_le_bytes_def)

lemma length_to_be_bytes [simp]: "length (to_be_bytes w) = 8"
  by (simp add: to_be_bytes_def)

lemma le_nat_bytes:
  "le_nat (map (\<lambda>i. ucast (drop_bit (8 * (k + i)) (w :: u64)) :: u8) [0..<n])
   = unat w div 256 ^ k mod 256 ^ n"
proof (induction n arbitrary: k)
  case 0
  show ?case by simp
next
  case (Suc n)
  have step: "[0..<Suc n] = 0 # map Suc [0..<n]"
    by (simp add: map_Suc_upt upt_conv_Cons del: upt_Suc)
  have b: "unat (ucast (drop_bit (8 * k) w) :: u8) = unat w div 256 ^ k mod 256"
  proof -
    have "unat (ucast (drop_bit (8 * k) w) :: u8) = take_bit 8 (drop_bit (8 * k) (unat w))"
      by (simp add: unsigned_ucast_eq unat_drop_bit_eq)
    then show ?thesis
      by (simp add: take_bit_eq_mod drop_bit_eq_div power_mult)
  qed
  have "le_nat (map (\<lambda>i. ucast (drop_bit (8 * (k + i)) w) :: u8) [0..<Suc n])
      = unat w div 256 ^ k mod 256
        + 256 * le_nat (map (\<lambda>i. ucast (drop_bit (8 * (Suc k + i)) w) :: u8) [0..<n])"
    by (simp only: step list.map le_nat.simps b map_map o_def add_0_right add_Suc_right add_Suc)
  also have "\<dots> = unat w div 256 ^ k mod 256 + 256 * (unat w div 256 ^ k div 256 mod 256 ^ n)"
    by (simp only: Suc) (simp add: div_mult2_eq mult.commute [of 256])
  also have "\<dots> = unat w div 256 ^ k mod 256 ^ Suc n"
    by (simp add: mod_mult2_eq)
  finally show ?case .
qed

lemma from_to_le_bytes [simp]: "from_le_bytes (to_le_bytes w) = w"
proof -
  have "unat w < 256 ^ 8" using unsigned_less [of w] by simp
  then have "le_nat (to_le_bytes w) = unat w"
    using le_nat_bytes [of 0 w 8] by (simp add: to_le_bytes_def)
  then show ?thesis by (simp add: from_le_bytes_def)
qed

lemma from_to_be_bytes [simp]: "from_be_bytes (to_be_bytes w) = w"
  by (simp add: from_be_bytes_def to_be_bytes_def)

text \<open>Incrementing a word that is not the largest.\<close>

lemma unat_succ: "w \<noteq> - 1 \<Longrightarrow> unat (w + 1) = Suc (unat w)"
  by (metis Suc_eq_plus1 add.commute unatSuc add_eq_0_iff)

lemma less_not_max: "(v :: 'a::len word) < w \<Longrightarrow> v \<noteq> - 1"
  by (metis word_n1_ge not_less)

end
