(* ===== verification/Float64.thy ===== *)
theory Float64
  imports Prelude "HOL-Library.Log_Nat"
begin

text \<open>
  Rust's \<^verbatim>\<open>f64\<close>: IEEE 754 binary64 with round-to-nearest-even, executable.  A finite
  value is the exact rational it denotes.  The sign of zero is not kept: the bridge never
  divides by a negative zero and never prints one.  The arithmetic operations compute the exact
  rational result and round it once, as the standard requires.  The main facts are that rounding
  is monotone (\<open>rnd_mono\<close>), exact on representable numbers (\<open>rnd_exact\<close>) and lands on
  representable numbers (\<open>rnd_repr\<close>).
\<close>

datatype f64 = NaN | PInf | NInf | Fin rat

named_theorems f64_defs \<open>definitions of the IEEE operations\<close>

section \<open>Rounding\<close>

definition ilog2 :: "rat \<Rightarrow> int" where
  "ilog2 q = (let (n, d) = quotient_of q; k = bitlen n - bitlen d
              in if 2 powi k \<le> q then k else k - 1)"

definition rne :: "rat \<Rightarrow> int" where
  "rne x = (let f = \<lfloor>x\<rfloor>; r = x - of_int f
            in if r < 1/2 then f else if 1/2 < r then f + 1 else if even f then f else f + 1)"

definition fexp :: "rat \<Rightarrow> int" where
  "fexp q = max (ilog2 q - 52) (- 1074)"

definition rnd_pos :: "rat \<Rightarrow> rat" where
  "rnd_pos q = of_int (rne (q / 2 powi fexp q)) * 2 powi fexp q"

text \<open>The overflow threshold: a rounded magnitude that reaches it is infinite.\<close>

definition f64_limit :: rat where
  "f64_limit = 2 powi 1024"

definition rnd :: "rat \<Rightarrow> f64" where
  "rnd q = (if q = 0 then Fin 0
            else let v = rnd_pos \<bar>q\<bar>
                 in if f64_limit \<le> v then (if 0 < q then PInf else NInf)
                    else Fin (if 0 < q then v else - v))"

definition repr :: "rat \<Rightarrow> bool" where
  "repr q \<longleftrightarrow> (\<exists>m e. q = of_int m * 2 powi e \<and> \<bar>m\<bar> \<le> 2 ^ 53 \<and> - 1074 \<le> e \<and> \<bar>q\<bar> < f64_limit)"

lemma f64_limit_pos [simp]: "0 < f64_limit"
  by (simp add: f64_limit_def)

section \<open>Comparison and arithmetic\<close>

fun fle :: "f64 \<Rightarrow> f64 \<Rightarrow> bool" where
  "fle NaN _ = False"
| "fle _ NaN = False"
| "fle NInf _ = True"
| "fle _ PInf = True"
| "fle PInf _ = False"
| "fle _ NInf = False"
| "fle (Fin a) (Fin b) = (a \<le> b)"

fun feq :: "f64 \<Rightarrow> f64 \<Rightarrow> bool" where
  "feq NaN _ = False"
| "feq a b = (a = b)"

definition flt :: "f64 \<Rightarrow> f64 \<Rightarrow> bool" where
  "flt a b \<longleftrightarrow> fle a b \<and> \<not> feq a b"

definition is_finite :: "f64 \<Rightarrow> bool" where
  "is_finite x = (case x of Fin _ \<Rightarrow> True | _ \<Rightarrow> False)"

fun fneg :: "f64 \<Rightarrow> f64" where
  "fneg NaN = NaN" | "fneg PInf = NInf" | "fneg NInf = PInf" | "fneg (Fin a) = Fin (- a)"

fun fabs :: "f64 \<Rightarrow> f64" where
  "fabs NaN = NaN" | "fabs PInf = PInf" | "fabs NInf = PInf" | "fabs (Fin a) = Fin \<bar>a\<bar>"

fun fadd :: "f64 \<Rightarrow> f64 \<Rightarrow> f64" where
  "fadd NaN _ = NaN"
| "fadd _ NaN = NaN"
| "fadd PInf NInf = NaN"
| "fadd NInf PInf = NaN"
| "fadd PInf _ = PInf"
| "fadd _ PInf = PInf"
| "fadd NInf _ = NInf"
| "fadd _ NInf = NInf"
| "fadd (Fin a) (Fin b) = rnd (a + b)"

definition fsub :: "f64 \<Rightarrow> f64 \<Rightarrow> f64" where
  "fsub a b = fadd a (fneg b)"

definition inf_of :: "rat \<Rightarrow> f64" where
  "inf_of s = (if s = 0 then NaN else if 0 < s then PInf else NInf)"

fun fmul :: "f64 \<Rightarrow> f64 \<Rightarrow> f64" where
  "fmul NaN _ = NaN"
| "fmul _ NaN = NaN"
| "fmul PInf PInf = PInf"
| "fmul PInf NInf = NInf"
| "fmul NInf PInf = NInf"
| "fmul NInf NInf = PInf"
| "fmul PInf (Fin b) = inf_of b"
| "fmul (Fin a) PInf = inf_of a"
| "fmul NInf (Fin b) = inf_of (- b)"
| "fmul (Fin a) NInf = inf_of (- a)"
| "fmul (Fin a) (Fin b) = rnd (a * b)"

fun fdiv :: "f64 \<Rightarrow> f64 \<Rightarrow> f64" where
  "fdiv NaN _ = NaN"
| "fdiv _ NaN = NaN"
| "fdiv (Fin a) PInf = Fin 0"
| "fdiv (Fin a) NInf = Fin 0"
| "fdiv (Fin a) (Fin b) = (if b = 0 then inf_of a else rnd (a / b))"
| "fdiv PInf (Fin b) = (if 0 \<le> b then PInf else NInf)"
| "fdiv NInf (Fin b) = (if 0 \<le> b then NInf else PInf)"
| "fdiv _ _ = NaN"

text \<open>\<^verbatim>\<open>f64::min\<close>, \<^verbatim>\<open>f64::max\<close> (a NaN argument is ignored) and \<^verbatim>\<open>f64::clamp\<close>.\<close>

definition fmin :: "f64 \<Rightarrow> f64 \<Rightarrow> f64" where
  "fmin a b = (if a = NaN then b else if b = NaN then a else if fle a b then a else b)"

definition fmax :: "f64 \<Rightarrow> f64 \<Rightarrow> f64" where
  "fmax a b = (if a = NaN then b else if b = NaN then a else if fle a b then b else a)"

definition fclamp :: "f64 \<Rightarrow> f64 \<Rightarrow> f64 \<Rightarrow> f64" where
  "fclamp x lo hi = (if flt x lo then lo else if flt hi x then hi else x)"

text \<open>Integer conversions: \<^verbatim>\<open>n as f64\<close>, and the saturating \<^verbatim>\<open>x as uN\<close>.\<close>

definition of_n :: "nat \<Rightarrow> f64" where
  "of_n n = rnd (of_nat n)"

definition to_uint :: "nat \<Rightarrow> f64 \<Rightarrow> nat" where
  "to_uint bits x = (case x of
      Fin q \<Rightarrow> if q \<le> 0 then 0 else min (nat \<lfloor>q\<rfloor>) (2 ^ bits - 1)
    | PInf \<Rightarrow> 2 ^ bits - 1
    | _ \<Rightarrow> 0)"

text \<open>Square root, correctly rounded as IEEE requires.\<close>

fun isqrt :: "nat \<Rightarrow> nat" where
  "isqrt n = (if n = 0 then 0
              else let r = 2 * isqrt (n div 4) in if (r + 1) * (r + 1) \<le> n then r + 1 else r)"

declare isqrt.simps [simp del]

definition sqrt_pos :: "rat \<Rightarrow> rat" where
  "sqrt_pos q =
     (let e = ilog2 q div 2 - 52; x = q / 2 powi (2 * e); m = int (isqrt (nat \<lfloor>x\<rfloor>));
          h = (of_int m + 1/2) * (of_int m + 1/2)
      in of_int (if x < h then m else if h < x then m + 1 else if even m then m else m + 1)
         * 2 powi e)"

fun fsqrt :: "f64 \<Rightarrow> f64" where
  "fsqrt NaN = NaN"
| "fsqrt PInf = PInf"
| "fsqrt NInf = NaN"
| "fsqrt (Fin q) = (if q < 0 then NaN else if q = 0 then Fin 0 else Fin (sqrt_pos q))"

text \<open>Powers of two (\<^verbatim>\<open>2_f64.powi(k)\<close>).\<close>

definition fpow2 :: "int \<Rightarrow> f64" where
  "fpow2 k = rnd (2 powi k)"

text \<open>\<^verbatim>\<open>Duration::as_secs_f64\<close> of a duration in nanoseconds.\<close>

definition as_secs_f64 :: "nat \<Rightarrow> f64" where
  "as_secs_f64 d = fadd (of_n (d div 10 ^ 9)) (fdiv (of_n (d mod 10 ^ 9)) (of_n (10 ^ 9)))"

text \<open>\<^verbatim>\<open>Duration::from_secs_f64\<close>, in nanoseconds; it panics on what is no duration.\<close>

definition from_secs_f64 :: "f64 \<Rightarrow> nat option" where
  "from_secs_f64 x = (case x of
      Fin q \<Rightarrow> if q < 0 \<or> 2 ^ 64 \<le> q then None else Some (nat (rne (q * 10 ^ 9)))
    | _ \<Rightarrow> None)"

text \<open>
  \<^verbatim>\<open>str::parse::<f64>\<close>: a sign, then \<open>inf\<close>, \<open>infinity\<close>, \<open>nan\<close> in any case, or a decimal
  number with an optional fraction and exponent, rounded correctly.
\<close>

definition split_sign :: "string \<Rightarrow> bool \<times> string" where
  "split_sign s = (case s of
      c # r \<Rightarrow> if c = CHR ''-'' then (True, r) else if c = CHR ''+'' then (False, r) else (False, s)
    | [] \<Rightarrow> (False, []))"

definition parse_decimal :: "string \<Rightarrow> rat option" where
  "parse_decimal t =
     (let ip = takeWhile is_ascii_digit t;
          r = dropWhile is_ascii_digit t;
          q = (if r \<noteq> [] \<and> hd r = CHR ''.'' then tl r else []);
          fp = takeWhile is_ascii_digit q;
          r2 = (if r \<noteq> [] \<and> hd r = CHR ''.'' then dropWhile is_ascii_digit q else r);
          mant = of_nat (the_default 0 (digits_val 10 0 (ip @ fp)));
          scale = (\<lambda>e. mant * 10 powi (e - int (length fp)))
      in if ip = [] \<and> fp = [] then None
         else if r2 = [] then Some (scale 0)
         else if hd r2 = CHR ''e'' \<or> hd r2 = CHR ''E'' then
           (let (neg, ds) = split_sign (tl r2)
            in if ds = [] \<or> \<not> list_all is_ascii_digit ds then None
               else let e = int (the_default 0 (digits_val 10 0 ds))
                    in Some (scale (if neg then - e else e)))
         else None)"

definition parse_f64 :: "string \<Rightarrow> f64 option" where
  "parse_f64 s =
     (let (neg, t) = split_sign s; l = to_lower t
      in if l = ''inf'' \<or> l = ''infinity'' then Some (if neg then NInf else PInf)
         else if l = ''nan'' then Some NaN
         else map_option (\<lambda>q. rnd (if neg then - q else q)) (parse_decimal t))"

section \<open>The binary exponent\<close>

lemma powi_add2: "(2::rat) powi (a + b) = 2 powi a * 2 powi b"
  by (simp add: power_int_add)

lemma powi_pos2 [simp]: "(0::rat) < 2 powi a"
  by simp


lemma powi_less2 [simp]: "(2::rat) powi a < 2 powi b \<longleftrightarrow> a < b"
  by (meson linorder_not_le one_less_numeral_iff power_int_increasing power_int_strict_increasing
      semiring_norm(76) order_less_imp_le)

lemma powi_le2 [simp]: "(2::rat) powi a \<le> 2 powi b \<longleftrightarrow> a \<le> b"
  using powi_less2 [of b a] by (simp only: linorder_not_less [symmetric])

lemma powi_consts: "(2::rat) powi 52 = of_int (2 ^ 52)" "(2::rat) powi 53 = of_int (2 ^ 53)"
    "(2::rat) powi 104 = of_int (2 ^ 104)" "(2::rat) powi 106 = of_int (2 ^ 106)"
  by (simp_all add: power_int_def)

lemma powi_nat2: "0 \<le> a \<Longrightarrow> (2::rat) powi a = of_int (2 ^ nat a)"
  by (simp add: power_int_def)

lemma powi_diff2: "(2::rat) powi (a - b) = 2 powi a / 2 powi b"
  by (simp add: power_int_diff)

lemma ilog2_bounds:
  assumes q: "0 < q"
  shows "2 powi ilog2 q \<le> q" and "q < 2 powi (ilog2 q + 1)"
proof -
  obtain n d where nd: "quotient_of q = (n, d)" by (cases "quotient_of q")
  have d: "0 < d" and qe: "q = of_int n / of_int d"
    using nd quotient_of_denom_pos quotient_of_div by blast+
  have n: "0 < n"
    using q d by (simp add: qe zero_less_divide_iff)
  let ?a = "bitlen n" and ?b = "bitlen d"
  have a1: "1 \<le> ?a" and b1: "1 \<le> ?b"
    using n d bitlen_eq_zero_iff [of n] bitlen_eq_zero_iff [of d] bitlen_nonneg [of n] bitlen_nonneg [of d]
    by linarith+
  have pn: "(of_int (2 ^ nat (k)) :: rat) = 2 powi k" if "0 \<le> k" for k
    using that by (simp add: power_int_def)
  have n1: "2 powi (?a - 1) \<le> (of_int n :: rat)"
    using bitlen_bounds [OF n] a1 pn [of "?a - 1"] by (metis diff_ge_0_iff_ge of_int_le_iff)
  have n2: "(of_int n :: rat) < 2 powi ?a"
    using bitlen_bounds [OF n] a1 pn [of "?a"] by (metis of_int_less_iff bitlen_nonneg)
  have d1: "2 powi (?b - 1) \<le> (of_int d :: rat)"
    using bitlen_bounds [OF d] b1 pn [of "?b - 1"] by (metis diff_ge_0_iff_ge of_int_le_iff)
  have d2: "(of_int d :: rat) < 2 powi ?b"
    using bitlen_bounds [OF d] b1 pn [of "?b"] by (metis of_int_less_iff bitlen_nonneg)
  have up: "q < 2 powi (?a - ?b + 1)"
  proof -
    have "of_int n < (2 powi ?a :: rat)" by (rule n2)
    also have "\<dots> = 2 powi (?a - ?b + 1) * 2 powi (?b - 1)"
      by (simp flip: powi_add2)
    also have "\<dots> \<le> 2 powi (?a - ?b + 1) * of_int d"
      using d1 by (intro mult_left_mono) auto
    finally show ?thesis using d by (simp add: qe divide_less_eq)
  qed
  have lo: "2 powi (?a - ?b - 1) \<le> q"
  proof -
    have "2 powi (?a - ?b - 1) * of_int d \<le> 2 powi (?a - ?b - 1) * (2 powi ?b :: rat)"
      using d2 by (intro mult_left_mono) auto
    also have "\<dots> = 2 powi (?a - 1)"
      by (simp flip: powi_add2)
    also have "\<dots> \<le> of_int n" by (rule n1)
    finally show ?thesis using d by (simp add: qe le_divide_eq)
  qed
  have il: "ilog2 q = (if 2 powi (?a - ?b) \<le> q then ?a - ?b else ?a - ?b - 1)"
    by (simp add: ilog2_def nd)
  show "2 powi ilog2 q \<le> q"
    using lo by (auto simp: il)
  show "q < 2 powi (ilog2 q + 1)"
    using up by (auto simp: il)
qed

lemma ilog2_ge: "0 < q \<Longrightarrow> 2 powi k \<le> q \<Longrightarrow> k \<le> ilog2 q"
  using ilog2_bounds(2) [of q] powi_less2 [of k "ilog2 q + 1"] by linarith

lemma ilog2_le: "0 < q \<Longrightarrow> q < 2 powi (k + 1) \<Longrightarrow> ilog2 q \<le> k"
  using ilog2_bounds(1) [of q] powi_less2 [of "ilog2 q" "k + 1"] by linarith

lemma ilog2_mono: "0 < q \<Longrightarrow> q \<le> r \<Longrightarrow> ilog2 q \<le> ilog2 r"
  using ilog2_ge [of r "ilog2 q"] ilog2_bounds(1) [of q] by simp

lemma ilog2_powi [simp]: "ilog2 (2 powi k) = k"
  using ilog2_ge [of "2 powi k" k] ilog2_le [of "2 powi k" k] by simp

section \<open>Round half to even\<close>

lemma rne_of_int [simp]: "rne (of_int k) = k"
  by (simp add: rne_def)

lemma rne_bounds: "\<lfloor>x\<rfloor> \<le> rne x" "rne x \<le> \<lfloor>x\<rfloor> + 1"
  by (simp_all add: rne_def Let_def)

lemma rne_mono: "x \<le> y \<Longrightarrow> rne x \<le> rne y"
proof -
  assume xy: "x \<le> y"
  then have fl: "\<lfloor>x\<rfloor> \<le> \<lfloor>y\<rfloor>" by (rule floor_mono)
  show ?thesis
  proof (cases "\<lfloor>x\<rfloor> = \<lfloor>y\<rfloor>")
    case True
    then show ?thesis using xy by (auto simp: rne_def Let_def)
  next
    case False
    then show ?thesis using fl rne_bounds [of x] rne_bounds [of y] by linarith
  qed
qed

lemma rne_le_int: "x \<le> of_int k \<Longrightarrow> rne x \<le> k"
  using rne_mono [of x "of_int k"] by simp

lemma rne_ge_int: "of_int k \<le> x \<Longrightarrow> k \<le> rne x"
  using rne_mono [of "of_int k" x] by simp

section \<open>Rounding a positive rational\<close>

lemma fexp_mono: "0 < q \<Longrightarrow> q \<le> r \<Longrightarrow> fexp q \<le> fexp r"
  using ilog2_mono [of q r] by (simp add: fexp_def)

lemma scaled_less: "0 < q \<Longrightarrow> q / 2 powi fexp q \<le> of_int (2 ^ 53)"
proof -
  assume q: "0 < q"
  have "q < 2 powi (ilog2 q + 1)" by (rule ilog2_bounds(2) [OF q])
  also have "\<dots> \<le> 2 powi (53 + fexp q)" by (simp add: fexp_def)
  also have "\<dots> = of_int (2 ^ 53) * 2 powi fexp q" by (simp only: powi_add2 powi_consts)
  finally show ?thesis by (simp add: divide_le_eq)
qed

lemma rnd_pos_upper: "0 < q \<Longrightarrow> rnd_pos q \<le> 2 powi (53 + fexp q)"
proof -
  assume q: "0 < q"
  have "rne (q / 2 powi fexp q) \<le> 2 ^ 53"
    by (rule rne_le_int [OF scaled_less [OF q]])
  then have "of_int (rne (q / 2 powi fexp q)) \<le> (of_int (2 ^ 53) :: rat)"
    by (simp only: of_int_le_iff)
  then have "rnd_pos q \<le> of_int (2 ^ 53) * 2 powi fexp q"
    unfolding rnd_pos_def by (intro mult_right_mono) auto
  then show ?thesis by (simp only: powi_add2 powi_consts)
qed

lemma rnd_pos_lower:
  assumes q: "0 < q" and k: "fexp q \<le> k" and kq: "2 powi k \<le> q"
  shows "2 powi k \<le> rnd_pos q"
proof -
  have e: "(2::rat) powi (k - fexp q) = of_int (2 ^ nat (k - fexp q))"
    using k by (intro powi_nat2) simp
  have "(2::rat) powi (k - fexp q) \<le> q / 2 powi fexp q"
    using kq by (simp add: powi_diff2 divide_le_eq)
  then have "2 ^ nat (k - fexp q) \<le> rne (q / 2 powi fexp q)"
    unfolding e by (rule rne_ge_int)
  then have "(of_int (2 ^ nat (k - fexp q)) :: rat) \<le> of_int (rne (q / 2 powi fexp q))"
    by (simp only: of_int_le_iff)
  then have "2 powi (k - fexp q) * 2 powi fexp q \<le> rnd_pos q"
    unfolding rnd_pos_def e by (intro mult_right_mono) auto
  then show ?thesis by (simp flip: powi_add2)
qed

lemma rnd_pos_mono:
  assumes q: "0 < q" and qr: "q \<le> r"
  shows "rnd_pos q \<le> rnd_pos r"
proof (cases "fexp q = fexp r")
  case True
  have "q / 2 powi fexp r \<le> r / 2 powi fexp r"
    using qr by (simp add: divide_right_mono)
  then have "rne (q / 2 powi fexp r) \<le> rne (r / 2 powi fexp r)"
    by (rule rne_mono)
  then show ?thesis
    unfolding rnd_pos_def True by (intro mult_right_mono) auto
next
  case False
  have r: "0 < r" using q qr by linarith
  have lt: "fexp q < fexp r" using False fexp_mono [OF q qr] by simp
  then have fr: "fexp r = ilog2 r - 52" by (auto simp: fexp_def split: if_splits)
  have "rnd_pos q \<le> 2 powi (53 + fexp q)" by (rule rnd_pos_upper [OF q])
  also have "\<dots> \<le> 2 powi ilog2 r" using lt fr by simp
  also have "\<dots> \<le> rnd_pos r"
    by (rule rnd_pos_lower [OF r]) (use fr ilog2_bounds(1) [OF r] in simp_all)
  finally show ?thesis .
qed

lemma rnd_pos_nonneg: "0 < q \<Longrightarrow> 0 \<le> rnd_pos q"
proof -
  assume "0 < q"
  then have "0 \<le> rne (q / 2 powi fexp q)"
    by (intro rne_ge_int) simp
  then show ?thesis by (simp add: rnd_pos_def)
qed

lemma rnd_pos_exact:
  assumes r: "0 < r" and rm: "r = of_int m * 2 powi e" and m: "m \<le> 2 ^ 53" and e: "- 1074 \<le> e"
  shows "rnd_pos r = r"
proof -
  have m0: "0 < m" using r powi_pos2 [of e] by (simp only: rm zero_less_mult_iff of_int_0_less_iff) linarith
  obtain k where k: "r = of_int k * 2 powi fexp r"
  proof (cases "fexp r \<le> e")
    case True
    have "r = of_int m * (2 powi (e - fexp r) * 2 powi fexp r)"
      by (simp add: rm flip: powi_add2)
    then have "r = of_int (m * 2 ^ nat (e - fexp r)) * 2 powi fexp r"
      using True by (simp add: powi_nat2)
    then show ?thesis by (rule that)
  next
    case False
    then have fr: "fexp r = ilog2 r - 52" using e by (auto simp: fexp_def split: if_splits)
    have "2 powi (e + 53) \<le> (2::rat) powi ilog2 r" using False fr by simp
    also have "\<dots> \<le> r" by (rule ilog2_bounds(1) [OF r])
    finally have "2 powi 53 * 2 powi e \<le> of_int m * (2 powi e :: rat)"
      by (simp add: rm powi_add2 mult.commute)
    then have "(2::rat) powi 53 \<le> of_int m" by simp
    then have "(of_int (2 ^ 53) :: rat) \<le> of_int m" by (simp only: powi_consts)
    then have "m = 2 ^ 53" using m by (simp only: of_int_le_iff)
    then have re: "r = 2 powi (e + 53)" by (simp only: rm powi_add2 powi_consts mult.commute)
    then have "fexp r = e + 1" using fr by simp
    moreover have "(2::rat) powi (e + 53) = 2 powi (52 + (e + 1))" by (simp add: algebra_simps)
    ultimately have "r = of_int (2 ^ 52) * 2 powi fexp r"
      by (simp only: re powi_add2 powi_consts)
    then show ?thesis by (rule that)
  qed
  then have "r / 2 powi fexp r = of_int k"
    by (metis nonzero_mult_div_cancel_right powi_pos2 less_irrefl)
  then show ?thesis using k by (simp add: rnd_pos_def)
qed

section \<open>Rounding\<close>

lemma rnd_zero [simp]: "rnd 0 = Fin 0"
  by (simp add: rnd_def)

lemma rnd_not_NaN [simp]: "rnd q \<noteq> NaN"
  by (simp add: rnd_def Let_def)

lemma fle_refl [simp]: "x \<noteq> NaN \<Longrightarrow> fle x x"
  by (cases x) auto

lemma fle_trans: "fle x y \<Longrightarrow> fle y z \<Longrightarrow> fle x z"
  by (cases x; cases y; cases z) auto

lemma fle_PInf [simp]: "x \<noteq> NaN \<Longrightarrow> fle x PInf"
  by (cases x) auto

lemma fle_NInf [simp]: "x \<noteq> NaN \<Longrightarrow> fle NInf x"
  by (cases x) auto

lemma fle_total: "x \<noteq> NaN \<Longrightarrow> y \<noteq> NaN \<Longrightarrow> fle x y \<or> fle y x"
  by (cases x; cases y) auto

lemma fle_not_NaN: "fle x y \<Longrightarrow> x \<noteq> NaN \<and> y \<noteq> NaN"
  by (cases x; cases y) auto

lemma flt_Fin [simp]: "flt (Fin a) (Fin b) \<longleftrightarrow> a < b"
  by (auto simp: flt_def)

lemma not_fle_flt: "x \<noteq> NaN \<Longrightarrow> y \<noteq> NaN \<Longrightarrow> \<not> fle x y \<longleftrightarrow> flt y x"
  by (cases x; cases y) (auto simp: flt_def)

theorem rnd_mono:
  assumes "q \<le> r"
  shows "fle (rnd q) (rnd r)"
proof -
  consider "0 < q" | "q \<le> 0" "0 \<le> r" | "r < 0" using assms by linarith
  then show ?thesis
  proof cases
    case 1
    then have "rnd_pos q \<le> rnd_pos r" and "0 < r"
      using assms by (auto intro: rnd_pos_mono)
    then show ?thesis using 1 by (auto simp: rnd_def Let_def)
  next
    case 2
    have "fle (rnd q) (Fin 0)"
      using 2 rnd_pos_nonneg [of "- q"] by (auto simp: rnd_def Let_def)
    moreover have "fle (Fin 0) (rnd r)"
      using 2 rnd_pos_nonneg [of r] by (auto simp: rnd_def Let_def)
    ultimately show ?thesis by (rule fle_trans)
  next
    case 3
    then have "rnd_pos (- r) \<le> rnd_pos (- q)"
      using assms by (intro rnd_pos_mono) auto
    then show ?thesis using 3 assms by (auto simp: rnd_def Let_def)
  qed
qed

theorem rnd_exact:
  assumes "repr q"
  shows "rnd q = Fin q"
proof -
  obtain m e where q: "q = of_int m * 2 powi e" and m: "\<bar>m\<bar> \<le> 2 ^ 53" and e: "- 1074 \<le> e"
    and b: "\<bar>q\<bar> < f64_limit"
    using assms by (auto simp: repr_def)
  show ?thesis
  proof (cases "q = 0")
    case False
    have "rnd_pos \<bar>q\<bar> = \<bar>q\<bar>"
      using False m e by (intro rnd_pos_exact [of _ "\<bar>m\<bar>" e]) (auto simp: q abs_mult)
    then show ?thesis using False b by (auto simp: rnd_def Let_def)
  qed simp
qed

theorem rnd_repr:
  assumes "rnd q = Fin v"
  shows "repr v"
proof (cases "q = 0")
  case True
  then show ?thesis using assms by (auto simp: repr_def intro!: exI [of _ 0])
next
  case False
  let ?q = "\<bar>q\<bar>"
  have q: "0 < ?q" using False by simp
  let ?m = "rne (?q / 2 powi fexp ?q)"
  have m: "0 \<le> ?m" "?m \<le> 2 ^ 53"
    using rne_le_int [OF scaled_less [OF q]] rne_ge_int [of 0 "?q / 2 powi fexp ?q"] q by auto
  have v: "v = (if 0 < q then rnd_pos ?q else - rnd_pos ?q)" "rnd_pos ?q < f64_limit"
    using assms False by (auto simp: rnd_def Let_def split: if_splits)
  have nn: "0 \<le> rnd_pos ?q" by (rule rnd_pos_nonneg [OF q])
  have e: "- 1074 \<le> fexp ?q" by (simp add: fexp_def)
  show ?thesis
    unfolding repr_def
    by (rule exI [of _ "if 0 < q then ?m else - ?m"], rule exI [of _ "fexp ?q"])
      (use v m e nn in \<open>auto simp: rnd_pos_def\<close>)
qed

lemma repr_of_int: "\<bar>k\<bar> \<le> 2 ^ 53 \<Longrightarrow> repr (of_int k)"
proof -
  assume k: "\<bar>k\<bar> \<le> 2 ^ 53"
  have "\<bar>of_int k :: rat\<bar> = of_int \<bar>k\<bar>" by simp
  also have "\<dots> \<le> of_int (2 ^ 53)" using k by (simp only: of_int_le_iff)
  also have "\<dots> < f64_limit" by (simp add: f64_limit_def)
  finally show ?thesis
    unfolding repr_def using k by (intro exI [of _ k] exI [of _ 0]) simp
qed

lemma repr_powi: "- 1074 \<le> k \<Longrightarrow> k < 1024 \<Longrightarrow> repr (2 powi k)"
proof -
  assume k: "- 1074 \<le> k" "k < 1024"
  have "(2::rat) powi k < f64_limit"
    unfolding f64_limit_def using k by (simp only: powi_less2)
  then show ?thesis
    unfolding repr_def using k by (intro exI [of _ 1] exI [of _ k]) simp
qed

lemma repr_minus: "repr q \<Longrightarrow> repr (- q)"
proof -
  assume "repr q"
  then obtain m e where "q = of_int m * 2 powi e" "\<bar>m\<bar> \<le> 2 ^ 53" "- 1074 \<le> e" "\<bar>q\<bar> < f64_limit"
    by (auto simp: repr_def)
  then show ?thesis
    unfolding repr_def by (intro exI [of _ "- m"] exI [of _ e]) simp
qed

lemma of_n_exact: "n \<le> 2 ^ 53 \<Longrightarrow> of_n n = Fin (of_nat n)"
proof -
  assume n: "n \<le> 2 ^ 53"
  have "int n \<le> 2 ^ 53" using n by (metis of_nat_le_iff of_nat_numeral of_nat_power)
  then have "repr (of_int (int n))" by (intro repr_of_int) simp
  then show ?thesis by (simp add: of_n_def rnd_exact)
qed

lemma rnd_ge_repr: "repr v \<Longrightarrow> v \<le> q \<Longrightarrow> fle (Fin v) (rnd q)"
  using rnd_mono [of v q] by (simp add: rnd_exact)

lemma rnd_le_repr: "repr v \<Longrightarrow> q \<le> v \<Longrightarrow> fle (rnd q) (Fin v)"
  using rnd_mono [of q v] by (simp add: rnd_exact)

lemma rnd_nonneg: "0 \<le> q \<Longrightarrow> fle (Fin 0) (rnd q)"
  using rnd_ge_repr [of 0 q] repr_of_int [of 0] by simp

section \<open>Value type invariant\<close>

definition f64_ok :: "f64 \<Rightarrow> bool" where
  "f64_ok x = (case x of Fin q \<Rightarrow> repr q | _ \<Rightarrow> True)"

lemma f64_ok_rnd [simp]: "f64_ok (rnd q)"
  using rnd_repr [of q] by (cases "rnd q") (auto simp: f64_ok_def)

lemma f64_ok_simps [simp]: "f64_ok NaN" "f64_ok PInf" "f64_ok NInf" "f64_ok (Fin q) \<longleftrightarrow> repr q"
  by (simp_all add: f64_ok_def)

lemma repr_0 [simp]: "repr 0"
  using repr_of_int [of 0] by simp

lemma f64_ok_inf_of [simp]: "f64_ok (inf_of s)"
  by (simp add: inf_of_def)

lemma f64_ok_ops [simp]: "f64_ok (fadd a b)" if "f64_ok a" "f64_ok b"
  using that by (cases a; cases b) auto

lemma f64_ok_fmul [simp]: "f64_ok (fmul a b)"
  by (cases a; cases b) auto

lemma f64_ok_fdiv [simp]: "f64_ok (fdiv a b)"
  by (cases a; cases b) auto

lemma f64_ok_fmin: "f64_ok a \<Longrightarrow> f64_ok b \<Longrightarrow> f64_ok (fmin a b)"
  by (auto simp: fmin_def)

section \<open>Square roots\<close>

lemma isqrt_bounds: "isqrt n * isqrt n \<le> n \<and> n < (isqrt n + 1) * (isqrt n + 1)"
proof (induction n rule: isqrt.induct)
  case (1 n)
  show ?case
  proof (cases "n = 0")
    case True
    then show ?thesis by (simp add: isqrt.simps)
  next
    case False
    let ?s = "isqrt (n div 4)"
    have ih: "?s * ?s \<le> n div 4" "n div 4 < (?s + 1) * (?s + 1)"
      using 1 [OF False] by auto
    have eq: "isqrt n = (if (2 * ?s + 1) * (2 * ?s + 1) \<le> n then 2 * ?s + 1 else 2 * ?s)"
      using False by (subst isqrt.simps) (simp add: Let_def)
    have lo: "4 * (?s * ?s) \<le> n" using ih(1) by (simp add: less_eq_div_iff_mult_less_eq)
    have "n div 4 + 1 \<le> (?s + 1) * (?s + 1)" using ih(2) by simp
    then have hi: "n < 4 * ((?s + 1) * (?s + 1))" by linarith
    show ?thesis using lo hi by (auto simp: eq algebra_simps)
  qed
qed

lemma isqrt_ge: "k * k \<le> n \<Longrightarrow> k \<le> isqrt n"
proof (rule ccontr)
  assume k: "k * k \<le> n" and "\<not> k \<le> isqrt n"
  then have "isqrt n + 1 \<le> k" by simp
  then have "(isqrt n + 1) * (isqrt n + 1) \<le> k * k" by (intro mult_le_mono) auto
  then show False using isqrt_bounds [of n] k by linarith
qed

lemma isqrt_less: "n < k * k \<Longrightarrow> isqrt n < k"
proof (rule ccontr)
  assume k: "n < k * k" and "\<not> isqrt n < k"
  then have "k \<le> isqrt n" by simp
  then have "k * k \<le> isqrt n * isqrt n" by (intro mult_le_mono) auto
  then show False using isqrt_bounds [of n] k by linarith
qed

lemma sqrt_pos_bounds:
  assumes q: "0 < q"
  shows "2 powi (ilog2 q div 2) \<le> sqrt_pos q" and "sqrt_pos q \<le> 2 powi (ilog2 q div 2 + 1)"
proof -
  let ?h = "ilog2 q div 2"
  let ?e = "?h - 52"
  let ?x = "q / 2 powi (2 * ?e)"
  let ?m = "isqrt (nat \<lfloor>?x\<rfloor>)"
  have h: "2 * ?h \<le> ilog2 q" "ilog2 q + 1 \<le> 2 * ?h + 2" by auto
  have "2 powi 104 * 2 powi (2 * ?e) = (2 powi (2 * ?h) :: rat)"
    by (simp only: powi_add2 [symmetric]) simp
  also have "\<dots> \<le> 2 powi ilog2 q" using h by simp
  also have "\<dots> \<le> q" by (rule ilog2_bounds(1) [OF q])
  finally have x1: "2 powi 104 \<le> ?x" by (simp add: le_divide_eq)
  have "q < 2 powi (ilog2 q + 1)" by (rule ilog2_bounds(2) [OF q])
  also have "\<dots> \<le> 2 powi (2 * ?h + 2)" using h by simp
  also have "\<dots> = 2 powi 106 * 2 powi (2 * ?e)"
    by (simp only: powi_add2 [symmetric]) (simp add: add.commute)
  finally have x2: "?x < 2 powi 106" by (simp add: divide_less_eq)
  have "(of_int (2 ^ 104) :: rat) \<le> ?x" using x1 by (simp only: powi_consts)
  then have f1: "2 ^ 104 \<le> \<lfloor>?x\<rfloor>" by (simp only: le_floor_iff)
  have "?x < (of_int (2 ^ 106) :: rat)" using x2 by (simp only: powi_consts)
  then have f2: "\<lfloor>?x\<rfloor> < 2 ^ 106" by (simp only: floor_less_iff)
  have "(2 ^ 52 * 2 ^ 52 :: nat) \<le> nat \<lfloor>?x\<rfloor>" using f1 by (simp add: le_nat_iff)
  then have m1: "2 ^ 52 \<le> ?m" by (rule isqrt_ge)
  have "nat \<lfloor>?x\<rfloor> < (2 ^ 53 * 2 ^ 53 :: nat)" using f1 f2 by (simp add: nat_less_iff)
  then have m2: "?m < 2 ^ 53" by (rule isqrt_less)
  obtain k where k: "sqrt_pos q = of_int k * 2 powi ?e" and k12: "int ?m \<le> k" "k \<le> int ?m + 1"
    by (auto simp: sqrt_pos_def Let_def)
  have "2 ^ 52 \<le> int ?m" "int ?m < 2 ^ 53"
    using m1 m2 by (metis of_nat_le_iff of_nat_less_iff of_nat_numeral of_nat_power)+
  then have k1: "2 ^ 52 \<le> k" and k2: "k \<le> 2 ^ 53" using k12 by linarith+
  have "2 powi ?h = (2 powi 52 * 2 powi ?e :: rat)"
    by (simp only: powi_add2 [symmetric]) simp
  then have "2 powi ?h = of_int (2 ^ 52) * (2 powi ?e :: rat)"
    by (simp only: powi_consts)
  also have "\<dots> \<le> sqrt_pos q"
    unfolding k using k1 by (intro mult_right_mono) (simp_all only: of_int_le_iff powi_pos2 [THEN less_imp_le])
  finally show "2 powi ?h \<le> sqrt_pos q" .
  have "sqrt_pos q \<le> of_int (2 ^ 53) * (2 powi ?e :: rat)"
    unfolding k using k2 by (intro mult_right_mono) (simp_all only: of_int_le_iff powi_pos2 [THEN less_imp_le])
  also have "\<dots> = 2 powi (?h + 1)"
    by (simp only: powi_consts [symmetric] powi_add2 [symmetric] diff_add_eq) (simp add: add.commute)
  finally show "sqrt_pos q \<le> 2 powi (?h + 1)" .
qed

lemma sqrt_pos_ge_1: "1 \<le> q \<Longrightarrow> 1 \<le> sqrt_pos q"
proof -
  assume q: "1 \<le> q"
  then have "0 \<le> ilog2 q" by (intro ilog2_ge) simp_all
  then have "0 \<le> ilog2 q div 2" by simp
  then have "(2::rat) powi 0 \<le> 2 powi (ilog2 q div 2)" by (simp only: powi_le2)
  also have "\<dots> \<le> sqrt_pos q" using q by (intro sqrt_pos_bounds) simp
  finally show ?thesis by simp
qed

lemma sqrt_pos_le_1: "0 < q \<Longrightarrow> q < 1 \<Longrightarrow> sqrt_pos q \<le> 1"
proof -
  assume q: "0 < q" "q < 1"
  then have "ilog2 q \<le> - 1" by (intro ilog2_le) simp_all
  then have "ilog2 q div 2 + 1 \<le> 0" by linarith
  have "sqrt_pos q \<le> 2 powi (ilog2 q div 2 + 1)" by (rule sqrt_pos_bounds(2) [OF q(1)])
  also have "\<dots> \<le> 2 powi 0"
    using \<open>ilog2 q div 2 + 1 \<le> 0\<close> by (simp only: powi_le2)
  finally show ?thesis by simp
qed

section \<open>Monotone operations\<close>

lemma fmul_mono_right:
  assumes "fle x y" and "0 < c"
  shows "fle (fmul x (Fin c)) (fmul y (Fin c))"
  using assms by (cases x; cases y) (auto simp: inf_of_def intro: rnd_mono fle_PInf fle_NInf)

lemma fdiv_mono_left:
  assumes "fle x y" and "0 < c"
  shows "fle (fdiv x (Fin c)) (fdiv y (Fin c))"
  using assms by (cases x; cases y) (auto simp: divide_right_mono intro: rnd_mono fle_PInf fle_NInf)

lemma fadd_mono_left:
  assumes "fle x y"
  shows "fle (fadd x (Fin c)) (fadd y (Fin c))"
  using assms by (cases x; cases y) (auto intro: rnd_mono fle_PInf fle_NInf)

lemma to_uint_mono: "fle x y \<Longrightarrow> to_uint b x \<le> to_uint b y"
  by (cases x; cases y) (auto simp: to_uint_def min_def le_nat_iff intro: floor_mono nat_mono order_trans [OF nat_mono [OF floor_mono]])

lemma to_uint_bound: "to_uint b x < 2 ^ b"
  by (cases x) (auto simp: to_uint_def min_less_iff_disj)

lemma to_uint_small: "q \<le> 1 / 2 \<Longrightarrow> to_uint b (rnd q) = 0"
proof -
  assume q: "q \<le> 1 / 2"
  have "repr (2 powi (- 1))" by (rule repr_powi) simp_all
  then have "fle (rnd q) (Fin (1 / 2))"
    using q by (intro rnd_le_repr) (simp_all add: power_int_def)
  then have "to_uint b (rnd q) \<le> to_uint b (Fin (1 / 2))" by (rule to_uint_mono)
  then show ?thesis by (simp add: to_uint_def)
qed

lemma of_n_mono: "m \<le> n \<Longrightarrow> fle (of_n m) (of_n n)"
  unfolding of_n_def by (rule rnd_mono) simp

lemma of_n_not_NaN [simp]: "of_n n \<noteq> NaN"
  by (simp add: of_n_def)

section \<open>Counting down\<close>

text \<open>Subtracting one from a representable number between one and \<open>2^53\<close> is exact.\<close>

lemma repr_minus_one:
  assumes "repr q" and "1 \<le> q" and "q \<le> 2 ^ 53"
  shows "repr (q - 1)"
proof -
  obtain m e where me: "q = of_int m * 2 powi e" "\<bar>m\<bar> \<le> 2 ^ 53" "- 1074 \<le> e" "\<bar>q\<bar> < f64_limit"
    using assms(1) unfolding repr_def by blast
  show ?thesis
  proof (cases "e \<le> 0")
    case True
    let ?n = "m - 2 ^ nat (- e)"
    have one: "(2::rat) ^ nat (- e) * 2 powi e = 1"
      using powi_add2 [of "- e" e] powi_nat2 [of "- e"] True by simp
    then have q1: "q - 1 = of_int ?n * 2 powi e"
      by (simp add: me(1) algebra_simps)
    then have "0 \<le> (of_int ?n :: rat) * 2 powi e" using assms(2) by simp
    then have "(0::rat) \<le> of_int ?n" by (metis powi_pos2 zero_le_mult_iff not_less order_less_imp_le)
    then have "0 \<le> ?n" by linarith
    then have "\<bar>?n\<bar> \<le> 2 ^ 53" using me(2) by (smt (verit) zero_le_power)
    moreover have "\<bar>q - 1\<bar> < f64_limit" using me(4) assms(2) by linarith
    ultimately show ?thesis unfolding repr_def using q1 me(3) by blast
  next
    case False
    then have "q = of_int (m * 2 ^ nat e)"
      using me(1) by (simp add: powi_nat2)
    moreover have "\<bar>k - 1\<bar> \<le> 2 ^ 53" if "q = of_int k" for k :: int
    proof -
      have "(1::rat) \<le> of_int k" "(of_int k :: rat) \<le> of_int (2 ^ 53)" using assms(2,3) that by simp_all
      then have "1 \<le> k" "k \<le> 2 ^ 53" unfolding of_int_le_iff by simp_all
      then show ?thesis by simp
    qed
    ultimately show ?thesis
      using repr_of_int [of "m * 2 ^ nat e - 1"] by simp
  qed
qed

end
