(* ===== verification/Domain.thy ===== *)
theory Domain
  imports Float64
begin

text \<open>
  The crate \<^verbatim>\<open>katpool-domain\<close>: the validated newtypes (\<^verbatim>\<open>address.rs\<close>,
  \<^verbatim>\<open>worker.rs\<close>, \<^verbatim>\<open>hash.rs\<close>, \<^verbatim>\<open>difficulty.rs\<close>, \<^verbatim>\<open>score.rs\<close>,
  \<^verbatim>\<open>correlation_id.rs\<close>), the telemetry redactor (\<^verbatim>\<open>redact.rs\<close>) and the event
  vocabulary (\<^verbatim>\<open>events.rs\<close>).  A character named in an error is its UTF-8 encoding.
\<close>

section \<open>Wallet addresses\<close>

datatype wallet_address = WalletAddress string

datatype address_error =
    InvalidPrefix
  | AddrTooShort nat
  | AddrTooLong nat
  | AddrInvalidCharacter string

definition accepted_prefixes :: "string list" where
  "accepted_prefixes =
     [''zkastest:'', ''zkassim:'', ''zkasdev:'', ''zkas:'',
      ''firecashtest:'', ''firecashsim:'', ''firecashdev:'', ''firecash:'',
      ''kaspatest:'', ''kaspa:'']"

definition min_total_len :: nat where "min_total_len = 13"
definition max_total_len :: nat where "max_total_len = 110"

fun find_map :: "('a \<Rightarrow> 'b option) \<Rightarrow> 'a list \<Rightarrow> 'b option" where
  "find_map f [] = None"
| "find_map f (x # xs) = (case f x of Some y \<Rightarrow> Some y | None \<Rightarrow> find_map f xs)"

definition body_char :: "char \<Rightarrow> bool" where
  "body_char c \<longleftrightarrow> is_ascii_lower c \<or> is_ascii_digit c"

text \<open>A scalar is a single ASCII character satisfying \<open>p\<close>.\<close>

definition wallet_new :: "string \<Rightarrow> address_error + wallet_address" where
  "wallet_new s =
     (case find_map (\<lambda>p. strip_prefix p s) accepted_prefixes of
        None \<Rightarrow> Inl InvalidPrefix
      | Some body \<Rightarrow>
          if length s < min_total_len then Inl (AddrTooShort (length s))
          else if max_total_len < length s then Inl (AddrTooLong (length s))
          else (case find (\<lambda>t. \<not> scalar_is body_char t) (scalars body) of
                  Some ch \<Rightarrow> Inl (AddrInvalidCharacter ch)
                | None \<Rightarrow> Inr (WalletAddress s)))"

primrec wallet_str :: "wallet_address \<Rightarrow> string" where
  "wallet_str (WalletAddress s) = s"

section \<open>Worker names\<close>

datatype worker_name = WorkerName string

datatype worker_name_error =
    WorkerEmpty
  | WorkerTooLong nat
  | WorkerInvalidCharacter string

definition worker_max_len :: nat where "worker_max_len = 64"

definition is_safe_worker_char :: "char \<Rightarrow> bool" where
  "is_safe_worker_char c \<longleftrightarrow>
     is_ascii_alnum c \<or>
     c \<in> {CHR ''_'', CHR ''-'', CHR ''.'', CHR ''#'', CHR ''@'', CHR '':'', CHR ''+'', CHR ''/'', CHR 0x5C}"

definition worker_new :: "string \<Rightarrow> worker_name_error + worker_name" where
  "worker_new s =
     (if s = [] then Inl WorkerEmpty
      else if worker_max_len < length s then Inl (WorkerTooLong (length s))
      else (case find (\<lambda>t. \<not> scalar_is is_safe_worker_char t) (scalars s) of
              Some ch \<Rightarrow> Inl (WorkerInvalidCharacter ch)
            | None \<Rightarrow> Inr (WorkerName s)))"

primrec worker_str :: "worker_name \<Rightarrow> string" where
  "worker_str (WorkerName s) = s"

section \<open>Block hashes\<close>

datatype block_hash = BlockHash "u8 list"

datatype block_hash_error = WrongLength nat | InvalidHex

primrec hash_bytes :: "block_hash \<Rightarrow> u8 list" where
  "hash_bytes (BlockHash bs) = bs"

definition hash_from_hex :: "string \<Rightarrow> block_hash_error + block_hash" where
  "hash_from_hex s =
     (if length s \<noteq> 64 then Inl (WrongLength (length s))
      else (case hex_decode s of None \<Rightarrow> Inl InvalidHex | Some bs \<Rightarrow> Inr (BlockHash bs)))"

definition hash_display :: "block_hash \<Rightarrow> string" where
  "hash_display h = concat (map hex_byte (hash_bytes h))"

definition hash_debug :: "block_hash \<Rightarrow> string" where
  "hash_debug h = ''BlockHash('' @ hash_display h @ '')''"

text \<open>The serde representation is the hexadecimal string, in both directions.\<close>

definition hash_serialize :: "block_hash \<Rightarrow> string" where
  "hash_serialize h = hex_encode (hash_bytes h)"

definition hash_deserialize :: "string \<Rightarrow> string + block_hash" where
  "hash_deserialize s =
     (if length s \<noteq> 64 then Inl (''expected 64 hex characters, got '' @ show_nat (length s))
      else (case hex_decode s of
              None \<Rightarrow> Inl ''invalid hex characters in block hash''
            | Some bs \<Rightarrow> Inr (BlockHash bs)))"

section \<open>Share difficulty, DAA score, correlation id\<close>

datatype share_difficulty = ShareDifficulty f64

datatype difficulty_error = NotFinite | NonPositive

definition difficulty_new :: "f64 \<Rightarrow> difficulty_error + share_difficulty" where
  "difficulty_new d =
     (if \<not> is_finite d then Inl NotFinite
      else if fle d (Fin 0) then Inl NonPositive
      else Inr (ShareDifficulty d))"

primrec difficulty_value :: "share_difficulty \<Rightarrow> f64" where
  "difficulty_value (ShareDifficulty d) = d"

datatype daa_score = DaaScore u64

primrec daa_value :: "daa_score \<Rightarrow> u64" where
  "daa_value (DaaScore v) = v"

definition daa_display :: "daa_score \<Rightarrow> string" where
  "daa_display s = show_nat (unat (daa_value s))"

instantiation daa_score :: linorder
begin

definition less_eq_daa_score :: "daa_score \<Rightarrow> daa_score \<Rightarrow> bool" where
  "less_eq_daa_score a b \<longleftrightarrow> daa_value a \<le> daa_value b"

definition less_daa_score :: "daa_score \<Rightarrow> daa_score \<Rightarrow> bool" where
  "less_daa_score a b \<longleftrightarrow> daa_value a < daa_value b"

instance
proof
  fix x y z :: daa_score
  show "x < y \<longleftrightarrow> x \<le> y \<and> \<not> y \<le> x"
    by (auto simp: less_eq_daa_score_def less_daa_score_def)
  show "x \<le> x"
    by (simp add: less_eq_daa_score_def)
  show "x \<le> y \<Longrightarrow> y \<le> z \<Longrightarrow> x \<le> z"
    by (auto simp: less_eq_daa_score_def)
  show "x \<le> y \<Longrightarrow> y \<le> x \<Longrightarrow> x = y"
    by (cases x; cases y) (auto simp: less_eq_daa_score_def)
  show "x \<le> y \<or> y \<le> x"
    by (auto simp: less_eq_daa_score_def)
qed

end

text \<open>A UUID is 128 bits drawn by the environment.\<close>

type_synonym correlation_id = "128 word"

section \<open>Redaction\<close>

text \<open>The horizontal ellipsis, U+2026.\<close>

definition ellipsis :: string where
  "ellipsis = [CHR 0xE2, CHR 0x80, CHR 0xA6]"

definition redact_tail :: "string \<Rightarrow> string" where
  "redact_tail s = concat (rev (take 4 (rev (scalars s))))"

definition split_once :: "char \<Rightarrow> string \<Rightarrow> (string \<times> string) option" where
  "split_once sep s =
     (if sep \<in> set s then Some (takeWhile (\<lambda>c. c \<noteq> sep) s, tl (dropWhile (\<lambda>c. c \<noteq> sep) s))
      else None)"

definition redact_address :: "string \<Rightarrow> string" where
  "redact_address s =
     (case split_once (CHR '':'') s of
        Some (pre, _) \<Rightarrow> pre @ '':'' @ ellipsis @ redact_tail s
      | None \<Rightarrow> ellipsis @ redact_tail s)"

section \<open>Events\<close>

datatype share_reject_reason =
    Stale | LowDifficulty | BadPow | MissingJob | MalformedFrame | DuplicateSubmit | BadAddress

fun reject_reason_str :: "share_reject_reason \<Rightarrow> string" where
  "reject_reason_str Stale = ''stale''"
| "reject_reason_str LowDifficulty = ''low_difficulty''"
| "reject_reason_str BadPow = ''bad_pow''"
| "reject_reason_str MissingJob = ''missing_job''"
| "reject_reason_str MalformedFrame = ''malformed_frame''"
| "reject_reason_str DuplicateSubmit = ''duplicate_submit''"
| "reject_reason_str BadAddress = ''bad_address''"

text \<open>Wall-clock times are nanoseconds since the epoch.\<close>

type_synonym timestamp = nat

datatype pool_event =
    ShareCredited wallet_address worker_name share_difficulty daa_score timestamp correlation_id
  | ShareRejected wallet_address worker_name share_reject_reason timestamp correlation_id
  | BlockFound wallet_address worker_name block_hash daa_score timestamp correlation_id
  | BlockAccepted block_hash timestamp correlation_id
  | SessionOpened u64 "wallet_address option" "worker_name option" string "string option"
      timestamp correlation_id
  | SessionClosed u64 "wallet_address option" "worker_name option" string "string option"
      timestamp timestamp correlation_id

section \<open>Facts about the validators\<close>

lemma find_map_Some: "find_map f xs = Some y \<Longrightarrow> \<exists>x\<in>set xs. f x = Some y"
  by (induction xs) (auto split: option.splits)

lemma find_map_None_iff: "find_map f xs = None \<longleftrightarrow> (\<forall>x\<in>set xs. f x = None)"
  by (induction xs) (auto split: option.splits)

lemma find_map_unique:
  assumes "x \<in> set xs" and "f x = Some y" and "\<And>z. z \<in> set xs \<Longrightarrow> z \<noteq> x \<Longrightarrow> f z = None"
  shows "find_map f xs = Some y"
proof (cases "find_map f xs")
  case None
  then show ?thesis using assms(1,2) by (auto simp: find_map_None_iff)
next
  case (Some y')
  then obtain x' where "x' \<in> set xs" "f x' = Some y'" using find_map_Some by fastforce
  then show ?thesis using assms Some by (cases "x' = x") auto
qed

lemma scalar_is_single: "scalar_is p t \<longleftrightarrow> (\<exists>c. t = [c] \<and> p c)"
  by (auto simp: scalar_is_def split: list.splits)

lemma all_scalars_iff:
  assumes "\<And>c. p c \<Longrightarrow> byte c < 128"
  shows "(\<forall>t\<in>set (scalars s). scalar_is p t) \<longleftrightarrow> list_all p s"
proof
  assume h: "\<forall>t\<in>set (scalars s). scalar_is p t"
  have "list_all p (concat (scalars s))"
    unfolding list_all_iff
  proof
    fix c assume "c \<in> set (concat (scalars s))"
    then obtain t where t: "t \<in> set (scalars s)" "c \<in> set t"
      by (auto simp del: concat_scalars)
    with h show "p c" by (auto simp: scalar_is_single)
  qed
  then show "list_all p s" by simp
next
  assume h: "list_all p s"
  then have "is_ascii s" using assms by (auto simp: is_ascii_def list_all_iff)
  then show "\<forall>t\<in>set (scalars s). scalar_is p t"
    using h by (auto simp: scalars_ascii scalar_is_single list_all_iff)
qed

lemma find_None_scalars:
  assumes "\<And>c. p c \<Longrightarrow> byte c < 128"
  shows "find (\<lambda>t. \<not> scalar_is p t) (scalars s) = None \<longleftrightarrow> list_all p s"
  using all_scalars_iff [OF assms] by (auto simp: find_None_iff)

lemma body_char_ascii: "body_char c \<Longrightarrow> byte c < 128"
  by (auto simp: body_char_def is_ascii_lower_def is_ascii_digit_def)

lemma safe_worker_char_ascii: "is_safe_worker_char c \<Longrightarrow> byte c < 128"
  by (auto simp: is_safe_worker_char_def is_ascii_alnum_def is_ascii_lower_def is_ascii_upper_def
      is_ascii_digit_def byte_def)

text \<open>No accepted prefix begins another, so the stripped body does not depend on the order.\<close>

lemma prefixes_incomparable:
  "p \<in> set accepted_prefixes \<Longrightarrow> q \<in> set accepted_prefixes \<Longrightarrow> starts_with p s
   \<Longrightarrow> starts_with q s \<Longrightarrow> p = q"
proof -
  assume p: "p \<in> set accepted_prefixes" "starts_with p s"
    and q: "q \<in> set accepted_prefixes" "starts_with q s"
  have "prefix p q \<or> prefix q p"
    using p(2) q(2) by (metis prefix_same_cases starts_with_iff prefixI)
  moreover have "list_all (\<lambda>a. list_all (\<lambda>b. prefix a b \<longrightarrow> a = b) accepted_prefixes) accepted_prefixes"
    by (simp add: accepted_prefixes_def)
  ultimately show "p = q"
    using p(1) q(1) unfolding list_all_iff by blast
qed

lemma find_map_prefix:
  "find_map (\<lambda>p. strip_prefix p s) accepted_prefixes = Some body
   \<longleftrightarrow> (\<exists>p\<in>set accepted_prefixes. s = p @ body)"
proof
  assume "find_map (\<lambda>p. strip_prefix p s) accepted_prefixes = Some body"
  then show "\<exists>p\<in>set accepted_prefixes. s = p @ body"
    using find_map_Some by (metis strip_prefix_Some_iff)
next
  assume "\<exists>p\<in>set accepted_prefixes. s = p @ body"
  then obtain p where p: "p \<in> set accepted_prefixes" "s = p @ body" by blast
  show "find_map (\<lambda>p. strip_prefix p s) accepted_prefixes = Some body"
  proof (rule find_map_unique [OF p(1)])
    show "strip_prefix p s = Some body" using p by (simp add: strip_prefix_Some_iff)
    show "strip_prefix z s = None" if "z \<in> set accepted_prefixes" "z \<noteq> p" for z
      using prefixes_incomparable [OF p(1) that(1), of s] that p
      by (auto simp: strip_prefix_def)
  qed
qed

text \<open>
  The address validator accepts exactly the strings that are an accepted network prefix
  followed by lower-case letters and digits, between 13 and 110 bytes long, and keeps the
  string unchanged.
\<close>

lemma wallet_new_accepts:
  "wallet_new s = Inr w \<longleftrightarrow>
     w = WalletAddress s \<and> min_total_len \<le> length s \<and> length s \<le> max_total_len
     \<and> (\<exists>p\<in>set accepted_prefixes. \<exists>body. s = p @ body \<and> list_all body_char body)"
proof (cases "find_map (\<lambda>p. strip_prefix p s) accepted_prefixes")
  case None
  then have "\<not> (\<exists>p\<in>set accepted_prefixes. \<exists>body. s = p @ body)"
    using find_map_prefix [of s] by fastforce
  then show ?thesis using None by (auto simp: wallet_new_def)
next
  case (Some body)
  have u: "(\<exists>p\<in>set accepted_prefixes. \<exists>b. s = p @ b \<and> list_all body_char b) \<longleftrightarrow> list_all body_char body"
    using Some find_map_prefix [of s] by (metis option.inject)
  show ?thesis
    unfolding u using Some
    by (auto simp: wallet_new_def find_None_scalars [OF body_char_ascii, symmetric] split: option.splits)
qed

text \<open>
  A worker name is accepted exactly when it is non-empty, at most 64 bytes, and made of
  the safe characters; the accepted value is the input.
\<close>

lemma worker_new_accepts:
  "worker_new s = Inr w \<longleftrightarrow>
     w = WorkerName s \<and> s \<noteq> [] \<and> length s \<le> worker_max_len \<and> list_all is_safe_worker_char s"
  by (auto simp: worker_new_def find_None_scalars [OF safe_worker_char_ascii, symmetric]
      split: option.splits)

section \<open>Round trips\<close>

lemma hex_digit_lower: "digit_val c = Some d \<Longrightarrow> d < 16 \<Longrightarrow> hex_digit d = lower_char c"
proof -
  assume "digit_val c = Some d" "d < 16"
  moreover have "char_of (byte c) = c" by (simp add: byte_def)
  ultimately show ?thesis
    by (auto simp: digit_val_def hex_digit_def lower_char_def is_ascii_digit_def
        is_ascii_lower_def is_ascii_upper_def algebra_simps split: if_splits)
qed

lemma hex_decode_canonical: "hex_decode s = Some bs \<Longrightarrow> hex_encode bs = to_lower s"
proof (induction s arbitrary: bs rule: hex_decode.induct)
  case (3 a b s)
  from "3.prems" obtain x y cs where xy: "digit_val a = Some x" "digit_val b = Some y"
    "hex_decode s = Some cs" "x < 16" "y < 16" "bs = word_of_nat (16 * x + y) # cs"
    by (auto split: option.splits if_splits)
  have "unat (word_of_nat (16 * x + y) :: u8) = 16 * x + y"
    using xy(4,5) by (subst unat_of_nat) simp
  then have "hex_byte (word_of_nat (16 * x + y)) = [lower_char a, lower_char b]"
    using xy by (simp add: hex_byte_eq hex_digit_lower)
  then show ?case
    using "3.IH" xy by (simp add: hex_encode_def to_lower_def)
qed (auto simp: hex_encode_def to_lower_def)

lemma digit_val_lower: "digit_val (lower_char c) = digit_val c"
  by (auto simp: digit_val_def lower_char_def is_ascii_digit_def is_ascii_lower_def
      is_ascii_upper_def byte_def)

lemma hex_decode_lower: "hex_decode (to_lower s) = hex_decode s"
  by (induction s rule: hex_decode.induct) (simp_all add: to_lower_def digit_val_lower)

lemma hash_display_eq: "hash_display h = hex_encode (hash_bytes h)"
  by (simp add: hash_display_def hex_encode_def)

text \<open>
  C35: the hash parser accepts exactly the 64-character hexadecimal strings, in either case:
  a string parses to a hash if and only if that hash has 32 bytes and prints as the lower-case
  form of the string. So print-then-parse is the identity, and parse-then-print normalises case.
\<close>

theorem hash_hex_roundtrip:
  "hash_from_hex s = Inr h \<longleftrightarrow> length (hash_bytes h) = 32 \<and> hash_display h = to_lower s"
proof
  assume "hash_from_hex s = Inr h"
  then obtain bs where bs: "length s = 64" "hex_decode s = Some bs" "h = BlockHash bs"
    by (auto simp: hash_from_hex_def split: if_splits option.splits)
  then show "length (hash_bytes h) = 32 \<and> hash_display h = to_lower s"
    using hex_decode_canonical hex_decode_length [of s bs] by (simp add: hash_display_eq)
next
  assume h: "length (hash_bytes h) = 32 \<and> hash_display h = to_lower s"
  then have "hex_decode (to_lower s) = Some (hash_bytes h)"
    by (metis hash_display_eq hex_decode_encode)
  moreover have "length (to_lower s) = 64"
    using h length_hex_encode [of "hash_bytes h"] by (simp add: hash_display_eq)
  ultimately show "hash_from_hex s = Inr h"
    unfolding hex_decode_lower by (cases h) (auto simp: hash_from_hex_def to_lower_def)
qed

lemma hash_hex_roundtrip_example: "hash_from_hex (concat (replicate 32 ''0f'')) = Inr (BlockHash (replicate 32 15))"
  by code_simp

lemma hash_serde_agrees: "hash_serialize h = hash_display h"
  by (simp add: hash_serialize_def hash_display_def hex_encode_def)

lemma hash_deserialize_ok: "ok (hash_deserialize s) = ok (hash_from_hex s)"
  by (auto simp: hash_deserialize_def hash_from_hex_def split: option.splits)

lemma difficulty_new_accepts:
  "difficulty_new d = Inr sd \<longleftrightarrow> (\<exists>q. d = Fin q \<and> 0 < q \<and> sd = ShareDifficulty d)"
  by (cases d) (auto simp: difficulty_new_def is_finite_def)

lemma reject_reason_str_inj: "reject_reason_str a = reject_reason_str b \<longleftrightarrow> a = b"
  by (cases a; cases b) simp_all

lemma daa_display_parses: "parse_uint 10 64 (daa_display s) = Some (unat (daa_value s))"
  unfolding daa_display_def by (rule parse_show_nat) (use unsigned_less [of "daa_value s"] in simp)

section \<open>The redactor\<close>

lemma redact_tail_suffix: "is_ascii s \<Longrightarrow> redact_tail s = drop (length s - 4) s"
proof -
  assume "is_ascii s"
  then have "redact_tail s = concat (map (\<lambda>c. [c]) (rev (take 4 (rev s))))"
    by (simp add: redact_tail_def scalars_ascii rev_map take_map)
  also have "\<dots> = rev (take 4 (rev s))"
    by (induction "rev (take 4 (rev s))" arbitrary: s) (simp_all add: concat_map_singleton)
  finally show ?thesis by (simp add: take_rev)
qed

text \<open>
  The tag of an ASCII address is its network prefix, an ellipsis and its last four
  characters, and nothing else: two addresses that share prefix and tail are not told apart.
\<close>

lemma redact_address_shape:
  assumes "is_ascii (p @ '':'' @ body)" and "CHR '':'' \<notin> set p"
  shows "redact_address (p @ '':'' @ body)
         = p @ '':'' @ ellipsis @ drop (length p + 1 + length body - 4) (p @ '':'' @ body)"
proof -
  have "split_once (CHR '':'') (p @ '':'' @ body) = Some (p, body)"
  proof -
    have "takeWhile (\<lambda>c. c \<noteq> CHR '':'') (p @ '':'' @ body) = p"
      using assms(2) by (subst takeWhile_append2) auto
    moreover have "dropWhile (\<lambda>c. c \<noteq> CHR '':'') (p @ '':'' @ body) = '':'' @ body"
      using assms(2) by (subst dropWhile_append2) auto
    ultimately show ?thesis by (simp add: split_once_def)
  qed
  then show ?thesis
    using redact_tail_suffix [OF assms(1)] by (simp add: redact_address_def)
qed

lemma redact_address_witness:
  "redact_address ''kaspa:abcdef1234'' = ''kaspa:'' @ ellipsis @ ''1234''"
proof -
  have a: "is_ascii (''kaspa'' @ '':'' @ ''abcdef1234'')" by (simp add: is_ascii_def byte_def)
  have b: "CHR '':'' \<notin> set ''kaspa''" by simp
  show ?thesis using redact_address_shape [OF a b] by simp
qed

end
