(* ===== verification/JsonRpc.thy ===== *)
theory JsonRpc
  imports Float64
begin

text \<open>
  \<^verbatim>\<open>jsonrpc_event.rs\<close> and \<^verbatim>\<open>errors.rs\<close>: the Stratum frames and the error codes.  The JSON
  text parser is a library, so \<open>unmarshal_event\<close> and \<open>unmarshal_response\<close> take it as a
  parameter; the clean-up of control characters before it is the bridge's own.
\<close>

section \<open>JSON values and frames\<close>

datatype json_num = NumInt int | NumFloat f64

datatype json =
    JNull
  | JBool bool
  | JNum json_num
  | JStr string
  | JArr "json list"
  | JObj "(string \<times> json) list"

datatype stratum_method =
    Subscribe
  | ExtranonceSubscribe
  | Authorize
  | Submit
  | SetDifficulty
  | Notify
  | SetExtranonce
  | Other string

definition method_from :: "string \<Rightarrow> stratum_method" where
  "method_from s =
     (if s = ''mining.subscribe'' then Subscribe
      else if s = ''mining.extranonce.subscribe'' then ExtranonceSubscribe
      else if s = ''mining.authorize'' then Authorize
      else if s = ''mining.submit'' then Submit
      else if s = ''mining.set_difficulty'' then SetDifficulty
      else if s = ''mining.notify'' then Notify
      else if s = ''mining.set_extranonce'' then SetExtranonce
      else Other s)"

fun method_str :: "stratum_method \<Rightarrow> string" where
  "method_str Subscribe = ''mining.subscribe''"
| "method_str ExtranonceSubscribe = ''mining.extranonce.subscribe''"
| "method_str Authorize = ''mining.authorize''"
| "method_str Submit = ''mining.submit''"
| "method_str SetDifficulty = ''mining.set_difficulty''"
| "method_str Notify = ''mining.notify''"
| "method_str SetExtranonce = ''mining.set_extranonce''"
| "method_str (Other s) = s"

record json_rpc_event =
  ev_id :: "json option"
  jsonrpc :: string
  ev_method :: string
  params :: "json list"

definition default_version :: string where
  "default_version = ''2.0''"

definition event_new :: "string option \<Rightarrow> string \<Rightarrow> json list \<Rightarrow> json_rpc_event" where
  "event_new i m ps = \<lparr>ev_id = map_option JStr i, jsonrpc = ''2.0'', ev_method = m, params = ps\<rparr>"

definition method_enum :: "json_rpc_event \<Rightarrow> stratum_method" where
  "method_enum e = method_from (ev_method e)"

record json_rpc_response =
  resp_id :: "json option"
  result :: "json option"
  resp_error :: "json list option"

definition response_new :: "json_rpc_event \<Rightarrow> json option \<Rightarrow> json list option \<Rightarrow> json_rpc_response" where
  "response_new e r err = \<lparr>resp_id = ev_id e, result = r, resp_error = err\<rparr>"

definition response_success :: "json option \<Rightarrow> json \<Rightarrow> json_rpc_response" where
  "response_success i r = \<lparr>resp_id = i, result = Some r, resp_error = None\<rparr>"

definition response_error :: "json option \<Rightarrow> int \<Rightarrow> string \<Rightarrow> json option \<Rightarrow> json_rpc_response" where
  "response_error i code message data =
     \<lparr>resp_id = i, result = None,
      resp_error = Some ([JNum (NumInt code), JStr message] @ (case data of Some d \<Rightarrow> [d] | None \<Rightarrow> [JNull]))\<rparr>"

section \<open>Control characters\<close>

text \<open>\<^verbatim>\<open>char::is_control\<close>: U+0000 to U+001F and U+007F to U+009F, on UTF-8 encodings.\<close>

definition is_control :: "string \<Rightarrow> bool" where
  "is_control c = (case map byte c of
      [a] \<Rightarrow> a < 32 \<or> a = 127
    | [a, b] \<Rightarrow> a = 0xC2 \<and> 0x80 \<le> b \<and> b \<le> 0x9F
    | _ \<Rightarrow> False)"

definition line_end :: "string \<Rightarrow> bool" where
  "line_end c \<longleftrightarrow> c = [CHR 0x0A] \<or> c = [CHR 0x0D]"

definition bad_control :: "string \<Rightarrow> bool" where
  "bad_control c \<longleftrightarrow> is_control c \<and> \<not> line_end c"

definition sanitize_json_input :: "string \<Rightarrow> string" where
  "sanitize_json_input input = concat (map (\<lambda>c. if bad_control c then '' '' else c) (scalars input))"

definition unmarshal_event :: "(string \<Rightarrow> 'err + json_rpc_event) \<Rightarrow> string \<Rightarrow> 'err + json_rpc_event" where
  "unmarshal_event from_str input =
     (let needs_sanitization = list_ex bad_control (scalars input)
      in if needs_sanitization then
           (let sanitized = sanitize_json_input input
            in case from_str sanitized of Inr r \<Rightarrow> Inr r | Inl e \<Rightarrow> Inl e)
         else from_str input)"

definition unmarshal_response :: "(string \<Rightarrow> 'err + json_rpc_response) \<Rightarrow> string \<Rightarrow> 'err + json_rpc_response" where
  "unmarshal_response from_str input = from_str input"

section \<open>Error codes\<close>

datatype error_short_code =
    NoMinerAddress
  | FailedBlockFetch
  | InvalidAddressFmt
  | ErrMissingJob
  | BadDataFromMiner
  | FailedSendWork
  | FailedSetDiff
  | Disconnected

fun error_code_str :: "error_short_code \<Rightarrow> string" where
  "error_code_str NoMinerAddress = ''err_no_miner_address''"
| "error_code_str FailedBlockFetch = ''err_failed_block_fetch''"
| "error_code_str InvalidAddressFmt = ''err_malformed_wallet_address''"
| "error_code_str ErrMissingJob = ''err_missing_job''"
| "error_code_str BadDataFromMiner = ''err_bad_data_from_miner''"
| "error_code_str FailedSendWork = ''err_failed_sending_work''"
| "error_code_str FailedSetDiff = ''err_diff_set_failed''"
| "error_code_str Disconnected = ''err_worker_disconnected''"

section \<open>Facts\<close>

lemma error_code_str_inj: "error_code_str a = error_code_str b \<longleftrightarrow> a = b"
  by (cases a; cases b) simp_all

text \<open>A method name survives the conversion to the enumeration and back.\<close>

lemma method_str_from: "method_str (method_from s) = s"
  by (simp add: method_from_def)

lemma method_from_str: "method_from (method_str m) = m" if "\<And>s. m \<noteq> Other s"
  using that by (cases m) (simp_all add: method_from_def)

text \<open>Lists that are the scalars of their own concatenation.\<close>

fun chunked :: "string list \<Rightarrow> bool" where
  "chunked [] = True"
| "chunked (x # xs) \<longleftrightarrow> x \<noteq> [] \<and> length x \<le> scalar_width (hd x)
     \<and> (xs \<noteq> [] \<longrightarrow> length x = scalar_width (hd x)) \<and> chunked xs"

lemma scalars_concat: "chunked xs \<Longrightarrow> scalars (concat xs) = xs"
proof (induction xs)
  case (Cons x xs)
  obtain c t where x: "x = c # t" using Cons.prems by (cases x) auto
  have "length x = scalar_width c \<or> length x \<le> scalar_width c \<and> xs = []"
    using Cons.prems by (auto simp: x)
  then have "take (scalar_width c) (x @ concat xs) = x" "drop (scalar_width c) (x @ concat xs) = concat xs"
    by auto
  moreover have "scalars (x @ concat xs) = take (scalar_width c) (x @ concat xs)
      # scalars (drop (scalar_width c) (x @ concat xs))"
    unfolding x append_Cons by (rule scalars.simps)
  ultimately show ?case
    using Cons by (simp only: concat.simps chunked.simps)
qed simp

lemma chunked_scalars: "chunked (scalars s)"
proof (induction s rule: scalars.induct)
  case (2 c s)
  let ?w = "scalar_width c"
  have h: "hd (take ?w (c # s)) = c" "take ?w (c # s) \<noteq> []"
    using scalar_width_pos [of c] by (auto simp: hd_take)
  have "length (take ?w (c # s)) = ?w" if "scalars (drop ?w (c # s)) \<noteq> []"
  proof -
    have "drop ?w (c # s) \<noteq> []" using that by auto
    then show ?thesis by simp
  qed
  then show ?case
    unfolding scalars.simps chunked.simps h(1) using h(2) 2 by (auto simp del: scalars.simps)
qed simp

lemma chunked_map:
  assumes "\<And>x. x \<noteq> [] \<Longrightarrow> f x = x \<or> f x = '' ''"
  shows "chunked xs \<Longrightarrow> chunked (map f xs)"
proof (induction xs)
  case (Cons x xs)
  have "f x = x \<or> f x = '' ''" using assms Cons.prems by simp
  then show ?case using Cons by (auto simp: scalar_width_def byte_def)
qed simp

lemma scalars_sanitize:
  "scalars (sanitize_json_input s) = map (\<lambda>c. if bad_control c then '' '' else c) (scalars s)"
  unfolding sanitize_json_input_def
  by (rule scalars_concat, rule chunked_map) (auto simp: chunked_scalars)

lemma space_not_bad: "\<not> bad_control '' ''"
  by (simp add: bad_control_def is_control_def byte_def)

text \<open>
  The frame parser always sees the input with every control character other than line ends
  replaced by one space: the test for whether cleaning is needed changes nothing, the cleaned
  text keeps every other character in place, and no such control character is left.
\<close>

lemma unmarshal_event_sanitizes:
  "unmarshal_event from_str input = from_str (sanitize_json_input input)
   \<and> scalars (sanitize_json_input input) = map (\<lambda>c. if bad_control c then '' '' else c) (scalars input)
   \<and> \<not> list_ex bad_control (scalars (sanitize_json_input input))"
proof -
  have "sanitize_json_input input = input" if "\<not> list_ex bad_control (scalars input)"
  proof -
    have "map (\<lambda>c. if bad_control c then '' '' else c) (scalars input) = scalars input"
      using that by (intro map_idI) (auto simp: list_ex_iff)
    then show ?thesis by (simp add: sanitize_json_input_def)
  qed
  then have "unmarshal_event from_str input = from_str (sanitize_json_input input)"
    by (auto simp: unmarshal_event_def Let_def split: sum.splits)
  then show ?thesis
    using scalars_sanitize [of input] space_not_bad by (auto simp: list_ex_iff)
qed

end
