(* ===== verification/HashMaps.thy ===== *)
theory HashMaps
  imports Prelude "HOL-Library.AList"
begin

text \<open>
  \<^verbatim>\<open>std::collections::HashMap\<close> as an association list with distinct keys, so that the
  models run: the length of the list is the number of entries.  The iteration order of the
  Rust map is unspecified, and no definition that uses one depends on the order of the list.
\<close>

type_synonym ('k, 'v) hash_map = "('k \<times> 'v) list"

abbreviation (input) hm_get :: "('k, 'v) hash_map \<Rightarrow> 'k \<Rightarrow> 'v option" where
  "hm_get \<equiv> map_of"

abbreviation (input) hm_insert :: "'k \<Rightarrow> 'v \<Rightarrow> ('k, 'v) hash_map \<Rightarrow> ('k, 'v) hash_map" where
  "hm_insert \<equiv> AList.update"

abbreviation (input) hm_remove :: "'k \<Rightarrow> ('k, 'v) hash_map \<Rightarrow> ('k, 'v) hash_map" where
  "hm_remove \<equiv> AList.delete"

abbreviation (input) hm_values :: "('k, 'v) hash_map \<Rightarrow> 'v list" where
  "hm_values m \<equiv> map snd m"

abbreviation (input) hm_len :: "('k, 'v) hash_map \<Rightarrow> nat" where
  "hm_len \<equiv> length"

definition hm_has :: "('k, 'v) hash_map \<Rightarrow> 'k \<Rightarrow> bool" where
  "hm_has m k \<longleftrightarrow> map_of m k \<noteq> None"

definition hm_wf :: "('k, 'v) hash_map \<Rightarrow> bool" where
  "hm_wf m \<longleftrightarrow> distinct (map fst m)"

lemma hm_get_insert [simp]: "hm_get (hm_insert k v m) k' = (if k' = k then Some v else hm_get m k')"
  by (simp add: update_conv')

lemma hm_get_remove [simp]: "hm_get (hm_remove k m) k' = (if k' = k then None else hm_get m k')"
  by (simp add: delete_conv')

lemma hm_wf_Nil [simp, intro]: "hm_wf []"
  by (simp add: hm_wf_def)

lemma hm_wf_insert [simp, intro]: "hm_wf m \<Longrightarrow> hm_wf (hm_insert k v m)"
  by (simp add: hm_wf_def distinct_update)

lemma hm_wf_remove [simp, intro]: "hm_wf m \<Longrightarrow> hm_wf (hm_remove k m)"
  by (simp add: hm_wf_def distinct_delete)

lemma hm_has_Nil [simp]: "\<not> hm_has [] k"
  by (simp add: hm_has_def)

lemma hm_has_insert [simp]: "hm_has (hm_insert k v m) k' \<longleftrightarrow> k' = k \<or> hm_has m k'"
  by (simp add: hm_has_def)

lemma hm_has_remove [simp]: "hm_has (hm_remove k m) k' \<longleftrightarrow> k' \<noteq> k \<and> hm_has m k'"
  by (simp add: hm_has_def)

lemma hm_has_keys: "hm_has m k \<longleftrightarrow> k \<in> fst ` set m"
  by (simp add: hm_has_def map_of_eq_None_iff)

lemma hm_len_card: "hm_wf m \<Longrightarrow> hm_len m = card {k. hm_has m k}"
  using distinct_card [of "map fst m"] by (simp add: hm_wf_def hm_has_keys)

lemma hm_len_insert:
  assumes "hm_wf m"
  shows "hm_len (hm_insert k v m) = (if hm_has m k then hm_len m else Suc (hm_len m))"
proof -
  have "{k'. hm_has (hm_insert k v m) k'} = insert k {k'. hm_has m k'}" by auto
  moreover have "finite {k'. hm_has m k'}" by (simp add: hm_has_keys)
  ultimately show ?thesis
    using assms by (simp add: hm_len_card card_insert_if)
qed

lemma hm_len_remove:
  assumes "hm_wf m"
  shows "hm_len (hm_remove k m) = (if hm_has m k then hm_len m - 1 else hm_len m)"
proof -
  have "{k'. hm_has (hm_remove k m) k'} = {k'. hm_has m k'} - {k}" by auto
  then show ?thesis
    using assms by (simp add: hm_len_card card_Diff_singleton_if)
qed

lemma hm_len_remove_le: "hm_len (hm_remove k m) \<le> hm_len m"
  by (simp add: length_delete_le)

lemma hm_values_set: "hm_wf m \<Longrightarrow> set (hm_values m) = {v. \<exists>k. hm_get m k = Some v}"
  unfolding hm_wf_def by (force simp: image_iff)

end
