(* ===== verification/SubmitGuards.thy ===== *)
theory SubmitGuards
  imports HashMaps
begin

text \<open>
  The two bounded caches that recognise repeated work: \<^verbatim>\<open>DuplicateSubmitGuard\<close> of
  \<^verbatim>\<open>share_handler.rs\<close> (shares a worker sends twice) and \<^verbatim>\<open>BlockSubmitGuard\<close> of
  \<^verbatim>\<open>kaspaapi.rs\<close> (blocks submitted to the node twice).  The two structs have the same four
  fields and the same pruning code and differ in what an entry holds, so they share one
  polymorphic record.  An \<^verbatim>\<open>Instant\<close> is a number of nanoseconds;
  \<^verbatim>\<open>duration_since\<close> saturates at zero, as subtraction on \<^typ>\<open>nat\<close> does.
\<close>

section \<open>State and pruning\<close>

record 'e submit_guard =
  ttl :: nat
  max_entries :: nat
  entries :: "(string, 'e) hash_map"
  order :: "string list"

fun prune_expired :: "('e \<Rightarrow> bool) \<Rightarrow> (string, 'e) hash_map \<Rightarrow> string list
    \<Rightarrow> (string, 'e) hash_map \<times> string list" where
  "prune_expired expired es [] = (es, [])"
| "prune_expired expired es (front # rest) =
     (if (case hm_get es front of Some e \<Rightarrow> expired e | None \<Rightarrow> True)
      then prune_expired expired (hm_remove front es) rest
      else (es, front # rest))"

fun prune_excess :: "nat \<Rightarrow> (string, 'e) hash_map \<Rightarrow> string list
    \<Rightarrow> (string, 'e) hash_map \<times> string list" where
  "prune_excess m es ks =
     (if m < hm_len es then
        (case ks of [] \<Rightarrow> (es, []) | key # rest \<Rightarrow> prune_excess m (hm_remove key es) rest)
      else (es, ks))"

definition prune :: "('e \<Rightarrow> nat) \<Rightarrow> nat \<Rightarrow> 'e submit_guard \<Rightarrow> 'e submit_guard" where
  "prune stamp now g =
     (let (es, ks) = prune_expired (\<lambda>e. ttl g < now - stamp e) (entries g) (order g);
          (es', ks') = prune_excess (max_entries g) es ks
      in g\<lparr>entries := es', order := ks'\<rparr>)"

section \<open>Shares: DuplicateSubmitGuard\<close>

datatype duplicate_submit_outcome = InFlight | Accepted | Stale | LowDiff | Bad

record duplicate_submit_entry =
  ts :: nat
  outcome :: duplicate_submit_outcome

type_synonym duplicate_submit_guard = "duplicate_submit_entry submit_guard"

definition dup_new :: "nat \<Rightarrow> nat \<Rightarrow> duplicate_submit_guard" where
  "dup_new t m = \<lparr>ttl = t, max_entries = m, entries = [], order = []\<rparr>"

definition dup_prune :: "nat \<Rightarrow> duplicate_submit_guard \<Rightarrow> duplicate_submit_guard" where
  "dup_prune = prune ts"

definition dup_get :: "string \<Rightarrow> nat \<Rightarrow> duplicate_submit_guard
    \<Rightarrow> duplicate_submit_outcome option \<times> duplicate_submit_guard" where
  "dup_get key now g = (let g = dup_prune now g in (map_option outcome (hm_get (entries g) key), g))"

definition insert_inflight :: "string \<Rightarrow> nat \<Rightarrow> duplicate_submit_guard \<Rightarrow> duplicate_submit_guard" where
  "insert_inflight key now g =
     (let g = dup_prune now g
      in if hm_has (entries g) key then g
         else g\<lparr>entries := hm_insert key \<lparr>ts = now, outcome = InFlight\<rparr> (entries g),
                order := order g @ [key]\<rparr>)"

definition set_outcome :: "string \<Rightarrow> nat \<Rightarrow> duplicate_submit_outcome
    \<Rightarrow> duplicate_submit_guard \<Rightarrow> duplicate_submit_guard" where
  "set_outcome key now out g =
     (let g = dup_prune now g
      in case hm_get (entries g) key of
           Some e \<Rightarrow> g\<lparr>entries := hm_insert key (e\<lparr>ts := now, outcome := out\<rparr>) (entries g)\<rparr>
         | None \<Rightarrow> g)"

section \<open>Blocks: BlockSubmitGuard\<close>

type_synonym block_submit_guard = "nat submit_guard"

definition block_guard_new :: "nat \<Rightarrow> nat \<Rightarrow> block_submit_guard" where
  "block_guard_new t m = \<lparr>ttl = t, max_entries = m, entries = [], order = []\<rparr>"

definition block_prune :: "nat \<Rightarrow> block_submit_guard \<Rightarrow> block_submit_guard" where
  "block_prune = prune (\<lambda>t. t)"

definition try_mark :: "string \<Rightarrow> nat \<Rightarrow> block_submit_guard \<Rightarrow> bool \<times> block_submit_guard" where
  "try_mark h now g =
     (let g = block_prune now g
      in if hm_has (entries g) h then (False, g)
         else (True, g\<lparr>entries := hm_insert h now (entries g), order := order g @ [h]\<rparr>))"

definition guard_remove :: "string \<Rightarrow> nat \<Rightarrow> block_submit_guard \<Rightarrow> block_submit_guard" where
  "guard_remove h now g =
     (let g = block_prune now g in g\<lparr>entries := hm_remove h (entries g)\<rparr>)"

text \<open>The process-wide guard: ten minutes, 50000 blocks.\<close>

definition BLOCK_SUBMIT_GUARD :: block_submit_guard where
  "BLOCK_SUBMIT_GUARD = block_guard_new (600 * 10 ^ 9) 50000"

section \<open>Pruning\<close>

text \<open>Every live key is queued for eviction.\<close>

definition guard_inv :: "'e submit_guard \<Rightarrow> bool" where
  "guard_inv g \<longleftrightarrow> hm_wf (entries g) \<and> (\<forall>k. hm_has (entries g) k \<longrightarrow> k \<in> set (order g))"

text \<open>The keys queued behind the first occurrence of a key.\<close>

definition behind :: "string \<Rightarrow> string list \<Rightarrow> string list" where
  "behind k ks = drop 1 (dropWhile (\<lambda>x. x \<noteq> k) ks)"

lemma behind_Cons [simp]: "behind k (x # xs) = (if x = k then xs else behind k xs)"
  by (simp add: behind_def)

lemma behind_append: "k \<in> set xs \<Longrightarrow> behind k (xs @ ys) = behind k xs @ ys"
  by (induction xs) auto

lemma keys_le_order:
  assumes "hm_wf es" and "\<forall>k. hm_has es k \<longrightarrow> k \<in> set ks"
  shows "hm_len es \<le> length ks"
proof -
  have "hm_len es = card {k. hm_has es k}" by (rule hm_len_card [OF assms(1)])
  also have "\<dots> \<le> card (set ks)" using assms(2) by (intro card_mono) auto
  also have "\<dots> \<le> length ks" by (rule card_length)
  finally show ?thesis .
qed

lemma prune_expired_inv:
  assumes "hm_wf es" and "\<forall>k. hm_has es k \<longrightarrow> k \<in> set ks" and "prune_expired ex es ks = (es', ks')"
  shows "hm_wf es' \<and> (\<forall>k. hm_has es' k \<longrightarrow> k \<in> set ks')"
  using assms
  by (induction ex es ks rule: prune_expired.induct) (auto split: if_splits option.splits)

lemma prune_expired_keeps:
  assumes "hm_get es k = Some e" and "\<not> ex e" and "k \<in> set ks"
    and "prune_expired ex es ks = (es', ks')"
  shows "hm_get es' k = Some e \<and> k \<in> set ks' \<and> behind k ks' = behind k ks"
  using assms
  by (induction ex es ks rule: prune_expired.induct) (auto split: if_splits option.splits)

declare prune_excess.simps [simp del]

lemma prune_excess_inv:
  assumes "hm_wf es" and "\<forall>k. hm_has es k \<longrightarrow> k \<in> set ks" and "prune_excess m es ks = (es', ks')"
  shows "hm_wf es' \<and> (\<forall>k. hm_has es' k \<longrightarrow> k \<in> set ks') \<and> hm_len es' \<le> m"
  using assms
proof (induction m es ks rule: prune_excess.induct)
  case (1 m es ks)
  then show ?case
    using keys_le_order [OF "1.prems"(1,2)]
    by (subst (asm) (2) prune_excess.simps) (auto split: if_splits list.splits)
qed

lemma prune_excess_keeps:
  assumes "hm_wf es" and "\<forall>k. hm_has es k \<longrightarrow> k \<in> set ks"
    and "hm_get es k = Some e" and "length (behind k ks) < m"
    and "prune_excess m es ks = (es', ks')"
  shows "hm_get es' k = Some e \<and> k \<in> set ks' \<and> behind k ks' = behind k ks"
  using assms
proof (induction m es ks rule: prune_excess.induct)
  case (1 m es ks)
  have k: "k \<in> set ks" using "1.prems"(2,3) by (simp add: hm_has_def)
  show ?case
  proof (cases "m < hm_len es")
    case False
    then show ?thesis using "1.prems" k by (simp add: prune_excess.simps)
  next
    case True
    then obtain x rest where ks: "ks = x # rest" using k by (cases ks) auto
    have "x \<noteq> k"
    proof
      assume "x = k"
      then have "length ks \<le> m" using "1.prems"(4) ks by simp
      then show False using True keys_le_order [OF "1.prems"(1,2)] by simp
    qed
    moreover have "prune_excess m (hm_remove x es) rest = (es', ks')"
      using "1.prems"(5) True ks by (subst (asm) prune_excess.simps) simp
    moreover have "\<forall>k. hm_has (hm_remove x es) k \<longrightarrow> k \<in> set rest"
      using "1.prems"(2) ks by auto
    ultimately show ?thesis
      using "1.IH" [OF True ks] "1.prems"(1,3,4) ks by simp
  qed
qed

lemma prune_shape:
  obtains es ks es' ks' where
    "prune_expired (\<lambda>e. ttl g < now - stamp e) (entries g) (order g) = (es, ks)"
    "prune_excess (max_entries g) es ks = (es', ks')"
    "prune stamp now g = g\<lparr>entries := es', order := ks'\<rparr>"
proof -
  obtain es ks where 1: "prune_expired (\<lambda>e. ttl g < now - stamp e) (entries g) (order g) = (es, ks)"
    by fastforce
  obtain es' ks' where 2: "prune_excess (max_entries g) es ks = (es', ks')"
    by fastforce
  show ?thesis by (rule that [OF 1 2]) (simp add: prune_def 1 2)
qed

lemma prune_const [simp]:
  "ttl (prune stamp now g) = ttl g" "max_entries (prune stamp now g) = max_entries g"
  by (rule prune_shape [of g now stamp], simp)+

lemma guard_inv_prune:
  assumes "guard_inv g"
  shows "guard_inv (prune stamp now g) \<and> hm_len (entries (prune stamp now g)) \<le> max_entries g"
proof (rule prune_shape [of g now stamp])
  fix es ks es' ks'
  assume 1: "prune_expired (\<lambda>e. ttl g < now - stamp e) (entries g) (order g) = (es, ks)"
    and 2: "prune_excess (max_entries g) es ks = (es', ks')"
    and 3: "prune stamp now g = g\<lparr>entries := es', order := ks'\<rparr>"
  have "hm_wf es \<and> (\<forall>k. hm_has es k \<longrightarrow> k \<in> set ks)"
    using assms 1 unfolding guard_inv_def by (intro prune_expired_inv) auto
  then have "hm_wf es' \<and> (\<forall>k. hm_has es' k \<longrightarrow> k \<in> set ks') \<and> hm_len es' \<le> max_entries g"
    using 2 by (intro prune_excess_inv) auto
  then show ?thesis using 3 by (simp add: guard_inv_def)
qed

text \<open>Pruning adds nothing.\<close>

lemma prune_expired_subset: "prune_expired ex es ks = (es', ks') \<Longrightarrow> hm_has es' k \<Longrightarrow> hm_has es k"
  by (induction ex es ks rule: prune_expired.induct) (auto split: if_splits option.splits)

lemma prune_excess_subset: "prune_excess m es ks = (es', ks') \<Longrightarrow> hm_has es' k \<Longrightarrow> hm_has es k"
proof (induction m es ks rule: prune_excess.induct)
  case (1 m es ks)
  then show ?case by (subst (asm) (2) prune_excess.simps) (auto split: if_splits list.splits)
qed

lemma prune_subset: "hm_has (entries (prune stamp now g)) k \<Longrightarrow> hm_has (entries g) k"
  by (rule prune_shape [of g now stamp]) (auto dest: prune_excess_subset prune_expired_subset)

lemma prune_keeps:
  assumes inv: "guard_inv g" and e: "hm_get (entries g) k = Some e"
    and young: "now - stamp e \<le> ttl g" and few: "length (behind k (order g)) < max_entries g"
  shows "hm_get (entries (prune stamp now g)) k = Some e
    \<and> k \<in> set (order (prune stamp now g))
    \<and> behind k (order (prune stamp now g)) = behind k (order g)"
proof (rule prune_shape [of g now stamp])
  fix es ks es' ks'
  assume 1: "prune_expired (\<lambda>e. ttl g < now - stamp e) (entries g) (order g) = (es, ks)"
    and 2: "prune_excess (max_entries g) es ks = (es', ks')"
    and 3: "prune stamp now g = g\<lparr>entries := es', order := ks'\<rparr>"
  have k: "k \<in> set (order g)" using inv e by (auto simp: guard_inv_def hm_has_def)
  have a: "hm_get es k = Some e \<and> k \<in> set ks \<and> behind k ks = behind k (order g)"
    using young by (intro prune_expired_keeps [OF e _ k 1]) simp
  have "hm_wf es \<and> (\<forall>k. hm_has es k \<longrightarrow> k \<in> set ks)"
    using inv 1 unfolding guard_inv_def by (intro prune_expired_inv) auto
  then have "hm_get es' k = Some e \<and> k \<in> set ks' \<and> behind k ks' = behind k ks"
    using a few 2 by (intro prune_excess_keeps) auto
  then show ?thesis using a 3 by simp
qed

text \<open>A key is in step with the queue when it is queued once if it is live and not at all otherwise.\<close>

definition in_step :: "string \<Rightarrow> 'e submit_guard \<Rightarrow> bool" where
  "in_step k g \<longleftrightarrow> count_list (order g) k = (if hm_has (entries g) k then 1 else 0)"

lemma prune_expired_in_step:
  assumes "count_list ks k = (if hm_has es k then 1 else 0)"
    and "prune_expired ex es ks = (es', ks')"
  shows "count_list ks' k = (if hm_has es' k then 1 else 0)"
  using assms
  by (induction ex es ks rule: prune_expired.induct) (auto simp: hm_has_def split: if_splits option.splits)

lemma prune_excess_in_step:
  assumes "count_list ks k = (if hm_has es k then 1 else 0)"
    and "prune_excess m es ks = (es', ks')"
  shows "count_list ks' k = (if hm_has es' k then 1 else 0)"
  using assms
proof (induction m es ks rule: prune_excess.induct)
  case (1 m es ks)
  then show ?case
    by (subst (asm) (2) prune_excess.simps) (auto split: if_splits list.splits)
qed

lemma in_step_prune: "in_step k g \<Longrightarrow> in_step k (prune stamp now g)"
proof (rule prune_shape [of g now stamp])
  fix es ks es' ks'
  assume "in_step k g"
    and 1: "prune_expired (\<lambda>e. ttl g < now - stamp e) (entries g) (order g) = (es, ks)"
    and 2: "prune_excess (max_entries g) es ks = (es', ks')"
    and 3: "prune stamp now g = g\<lparr>entries := es', order := ks'\<rparr>"
  then have "count_list (order g) k = (if hm_has (entries g) k then 1 else 0)"
    by (simp add: in_step_def)
  from prune_excess_in_step [OF prune_expired_in_step [OF this 1] 2]
  show ?thesis using 3 by (simp add: in_step_def)
qed

section \<open>The contract of a guard\<close>

text \<open>
  A guard runs a sequence of operations.  Each one prunes at its own time and then leaves the
  eviction queue alone or appends one key to it; it may restamp entries, and it drops the
  entries \<open>drops\<close> names and no other.
\<close>

locale guard_ops =
  fixes stamp :: "'e \<Rightarrow> nat"
    and step :: "'op \<Rightarrow> 'e submit_guard \<Rightarrow> 'e submit_guard"
    and time_of :: "'op \<Rightarrow> nat"
    and adds :: "'op \<Rightarrow> string option"
    and drops :: "'op \<Rightarrow> string option"
  assumes inv: "guard_inv g \<Longrightarrow> guard_inv (step p g) \<and> hm_len (entries (step p g)) \<le> Suc (max_entries g)"
    and const: "ttl (step p g) = ttl g \<and> max_entries (step p g) = max_entries g"
    and queue: "order (step p g) = order (prune stamp (time_of p) g)
      \<or> (\<exists>k. adds p = Some k \<and> order (step p g) = order (prune stamp (time_of p) g) @ [k])"
    and keep: "hm_get (entries (prune stamp (time_of p) g)) k = Some e \<Longrightarrow> drops p \<noteq> Some k \<Longrightarrow>
      \<exists>e'. hm_get (entries (step p g)) k = Some e' \<and> (stamp e' = stamp e \<or> stamp e' = time_of p)"
    and sync: "in_step k g \<Longrightarrow> drops p \<noteq> Some k \<Longrightarrow> in_step k (step p g)"
begin

definition run :: "'op list \<Rightarrow> 'e submit_guard \<Rightarrow> 'e submit_guard" where
  "run ps g = fold step ps g"

lemma run_inv:
  assumes "guard_inv g" and "hm_len (entries g) \<le> Suc (max_entries g)"
  shows "guard_inv (run ps g) \<and> hm_len (entries (run ps g)) \<le> Suc (max_entries g)"
  using assms unfolding run_def
proof (induction ps arbitrary: g)
  case (Cons p ps)
  show ?case using Cons.IH [of "step p g"] inv [OF Cons.prems(1), of p] const [of p g] by simp
qed simp

lemma run_in_step:
  "in_step k g \<Longrightarrow> (\<And>p. p \<in> set ps \<Longrightarrow> drops p \<noteq> Some k) \<Longrightarrow> in_step k (run ps g)"
  unfolding run_def by (induction ps arbitrary: g) (simp_all add: sync)

lemma run_const: "ttl (run ps g) = ttl g \<and> max_entries (run ps g) = max_entries g"
  unfolding run_def by (induction ps arbitrary: g) (simp_all add: const)

lemma run_keeps:
  assumes "guard_inv g" and "hm_get (entries g) k = Some e" and "t0 \<le> stamp e"
    and "\<forall>p\<in>set ps. t0 \<le> time_of p \<and> time_of p \<le> t0 + ttl g \<and> drops p \<noteq> Some k"
    and "length (behind k (order g)) + length (filter (\<lambda>p. adds p \<noteq> None) ps) < max_entries g"
  shows "hm_has (entries (run ps g)) k"
  using assms unfolding run_def
proof (induction ps arbitrary: g e)
  case Nil
  then show ?case by (simp add: hm_has_def)
next
  case (Cons p ps)
  let ?c = "\<lambda>ps. length (filter (\<lambda>p. adds p \<noteq> None) ps)"
  let ?g = "prune stamp (time_of p) g"
  have b: "length (behind k (order g)) < max_entries g" using Cons.prems(5) by simp
  have y: "time_of p - stamp e \<le> ttl g" using Cons.prems(3,4) by auto
  have kept: "hm_get (entries ?g) k = Some e" "k \<in> set (order ?g)"
    "behind k (order ?g) = behind k (order g)"
    using prune_keeps [where stamp = stamp and now = "time_of p", OF Cons.prems(1,2) y b] by auto
  obtain e' where e': "hm_get (entries (step p g)) k = Some e'" "stamp e' = stamp e \<or> stamp e' = time_of p"
    using keep [OF kept(1)] Cons.prems(4) by auto
  have beh: "length (behind k (order (step p g))) \<le> length (behind k (order g)) + ?c [p]"
    using queue [of p g] kept(2,3) by (auto simp: behind_append)
  have "guard_inv (step p g)" using inv [OF Cons.prems(1)] by simp
  moreover have "t0 \<le> stamp e'" using e'(2) Cons.prems(3,4) by auto
  moreover have "\<forall>p\<in>set ps. t0 \<le> time_of p \<and> time_of p \<le> t0 + ttl (step p g) \<and> drops p \<noteq> Some k"
    using Cons.prems(4) const by simp
  moreover have "length (behind k (order (step p g))) + ?c ps < max_entries (step p g)"
    using beh Cons.prems(5) const by (auto split: if_splits)
  ultimately show ?case
    using Cons.IH [of "step p g" e'] e'(1) const by simp
qed

end

section \<open>Both guards meet the contract\<close>

datatype dup_op =
    DupGet string nat
  | DupInsert string nat
  | DupSet string nat duplicate_submit_outcome

fun dup_step :: "dup_op \<Rightarrow> duplicate_submit_guard \<Rightarrow> duplicate_submit_guard" where
  "dup_step (DupGet k t) g = snd (dup_get k t g)"
| "dup_step (DupInsert k t) g = insert_inflight k t g"
| "dup_step (DupSet k t out) g = set_outcome k t out g"

fun dup_time :: "dup_op \<Rightarrow> nat" where
  "dup_time (DupGet k t) = t"
| "dup_time (DupInsert k t) = t"
| "dup_time (DupSet k t out) = t"

fun dup_adds :: "dup_op \<Rightarrow> string option" where
  "dup_adds (DupInsert k t) = Some k"
| "dup_adds _ = None"

datatype block_op = BlockMark string nat | BlockRemove string nat

fun block_step :: "block_op \<Rightarrow> block_submit_guard \<Rightarrow> block_submit_guard" where
  "block_step (BlockMark h t) g = snd (try_mark h t g)"
| "block_step (BlockRemove h t) g = guard_remove h t g"

fun block_time :: "block_op \<Rightarrow> nat" where
  "block_time (BlockMark h t) = t"
| "block_time (BlockRemove h t) = t"

fun block_adds :: "block_op \<Rightarrow> string option" where
  "block_adds (BlockMark h t) = Some h"
| "block_adds (BlockRemove h t) = None"

fun block_drops :: "block_op \<Rightarrow> string option" where
  "block_drops (BlockMark h t) = None"
| "block_drops (BlockRemove h t) = Some h"

lemmas guard_op_defs = dup_get_def insert_inflight_def set_outcome_def dup_prune_def
  try_mark_def guard_remove_def block_prune_def Let_def

lemma guard_inv_append:
  assumes "guard_inv g" and "hm_len (entries g) \<le> m"
  shows "guard_inv (g\<lparr>entries := hm_insert k e (entries g), order := order g @ [k]\<rparr>)
    \<and> hm_len (hm_insert k e (entries g)) \<le> Suc m"
  using assms by (auto simp: guard_inv_def hm_len_insert)

lemma guard_inv_restamp:
  assumes "guard_inv g" and "hm_has (entries g) k"
  shows "guard_inv (g\<lparr>entries := hm_insert k e (entries g)\<rparr>)
    \<and> hm_len (hm_insert k e (entries g)) = hm_len (entries g)"
  using assms by (auto simp: guard_inv_def hm_len_insert)

lemma guard_inv_drop:
  assumes "guard_inv g" and "hm_len (entries g) \<le> m"
  shows "guard_inv (g\<lparr>entries := hm_remove k (entries g)\<rparr>) \<and> hm_len (hm_remove k (entries g)) \<le> Suc m"
  using assms hm_len_remove_le [of k "entries g"] by (auto simp: guard_inv_def)

interpretation dup: guard_ops ts dup_step dup_time dup_adds "\<lambda>_. None"
proof
  fix g :: duplicate_submit_guard and p k e
  show "ttl (dup_step p g) = ttl g \<and> max_entries (dup_step p g) = max_entries g"
    by (cases p) (auto simp: guard_op_defs split: option.splits)
  show "order (dup_step p g) = order (prune ts (dup_time p) g)
      \<or> (\<exists>k. dup_adds p = Some k \<and> order (dup_step p g) = order (prune ts (dup_time p) g) @ [k])"
    by (cases p) (auto simp: guard_op_defs split: option.splits)
  show "\<exists>e'. hm_get (entries (dup_step p g)) k = Some e' \<and> (ts e' = ts e \<or> ts e' = dup_time p)"
    if "hm_get (entries (prune ts (dup_time p) g)) k = Some e"
    using that by (cases p) (auto simp: guard_op_defs hm_has_def split: option.splits)
  show "in_step k (dup_step p g)" if "in_step k g"
    using in_step_prune [OF that, of ts "dup_time p"]
    by (cases p) (auto simp: guard_op_defs in_step_def hm_has_def split: option.splits)
  show "guard_inv (dup_step p g) \<and> hm_len (entries (dup_step p g)) \<le> Suc (max_entries g)"
    if "guard_inv g"
  proof -
    let ?g = "prune ts (dup_time p) g"
    have g: "guard_inv ?g" "hm_len (entries ?g) \<le> max_entries g"
      using guard_inv_prune [OF that] by auto
    then show ?thesis
      using guard_inv_append [OF g] guard_inv_restamp [OF g(1)]
      by (cases p) (auto simp: guard_op_defs hm_has_def split: option.splits)
  qed
qed

interpretation blk: guard_ops "\<lambda>t. t" block_step block_time block_adds block_drops
proof
  fix g :: block_submit_guard and p k e
  show "ttl (block_step p g) = ttl g \<and> max_entries (block_step p g) = max_entries g"
    by (cases p) (auto simp: guard_op_defs)
  show "order (block_step p g) = order (prune (\<lambda>t. t) (block_time p) g)
      \<or> (\<exists>k. block_adds p = Some k \<and> order (block_step p g) = order (prune (\<lambda>t. t) (block_time p) g) @ [k])"
    by (cases p) (auto simp: guard_op_defs)
  show "\<exists>e'. hm_get (entries (block_step p g)) k = Some e' \<and> (e' = e \<or> e' = block_time p)"
    if "hm_get (entries (prune (\<lambda>t. t) (block_time p) g)) k = Some e" "block_drops p \<noteq> Some k"
    using that by (cases p) (auto simp: guard_op_defs hm_has_def)
  show "in_step k (block_step p g)" if "in_step k g" "block_drops p \<noteq> Some k"
    using in_step_prune [OF that(1), of "\<lambda>t. t" "block_time p"] that(2)
    by (cases p) (auto simp: guard_op_defs in_step_def)
  show "guard_inv (block_step p g) \<and> hm_len (entries (block_step p g)) \<le> Suc (max_entries g)"
    if "guard_inv g"
  proof -
    let ?g = "prune (\<lambda>t. t) (block_time p) g"
    have g: "guard_inv ?g" "hm_len (entries ?g) \<le> max_entries g"
      using guard_inv_prune [OF that] by auto
    then show ?thesis
      using guard_inv_append [OF g] guard_inv_drop [OF g]
      by (cases p) (auto simp: guard_op_defs)
  qed
qed

section \<open>Properties\<close>

lemma guard_inv_fresh:
  "guard_inv (dup_new t m)" "guard_inv (block_guard_new t m)"
  "in_step k (dup_new t m)" "in_step k (block_guard_new t m)"
  by (simp_all add: guard_inv_def in_step_def dup_new_def block_guard_new_def)

lemma behind_fresh: "k \<notin> set xs \<Longrightarrow> behind k (xs @ [k]) = []"
  by (induction xs) (auto simp: behind_def)

lemma not_queued: "in_step k g \<Longrightarrow> \<not> hm_has (entries g) k \<Longrightarrow> k \<notin> set (order g)"
  by (simp add: in_step_def count_list_0_iff)

lemma dup_remembers:
  assumes inv: "guard_inv g" and st: "in_step k g"
    and new: "fst (dup_get k t0 g) = None"
    and ps: "\<forall>p\<in>set ps. t0 \<le> dup_time p \<and> dup_time p \<le> t0 + ttl g"
    and now: "t0 \<le> now" "now \<le> t0 + ttl g"
    and room: "length (filter (\<lambda>p. dup_adds p \<noteq> None) ps) < max_entries g"
  shows "fst (dup_get k now (fold dup_step ps (insert_inflight k t0 g))) \<noteq> None"
proof -
  let ?g = "dup_prune t0 g"
  let ?h = "insert_inflight k t0 g"
  have g: "guard_inv ?g" "in_step k ?g" "ttl ?g = ttl g" "max_entries ?g = max_entries g"
    using guard_inv_prune [OF inv, of ts t0] in_step_prune [OF st, of ts t0]
    by (simp_all add: dup_prune_def)
  have no: "\<not> hm_has (entries ?g) k"
    using new by (simp add: dup_get_def Let_def hm_has_def)
  have h: "?h = ?g\<lparr>entries := hm_insert k \<lparr>ts = t0, outcome = InFlight\<rparr> (entries ?g),
      order := order ?g @ [k]\<rparr>"
    using no by (simp add: insert_inflight_def Let_def)
  have "hm_has (entries (dup.run (ps @ [DupGet k now]) ?h)) k"
  proof (rule dup.run_keeps)
    show "guard_inv ?h" unfolding h using guard_inv_append [OF g(1) order_refl] by blast
    show "hm_get (entries ?h) k = Some \<lparr>ts = t0, outcome = InFlight\<rparr>" by (simp add: h)
    show "t0 \<le> ts \<lparr>ts = t0, outcome = InFlight\<rparr>" by simp
    show "\<forall>p\<in>set (ps @ [DupGet k now]). t0 \<le> dup_time p \<and> dup_time p \<le> t0 + ttl ?h \<and> None \<noteq> Some k"
      using ps now g(3) by (auto simp: h)
    show "length (behind k (order ?h)) + length (filter (\<lambda>p. dup_adds p \<noteq> None) (ps @ [DupGet k now]))
        < max_entries ?h"
      using room g(4) behind_fresh [OF not_queued [OF g(2) no]] by (simp add: h)
  qed
  then show ?thesis
    by (simp add: dup.run_def dup_get_def Let_def hm_has_def)
qed

lemma dup_history:
  "guard_inv (fold dup_step past (dup_new T M)) \<and> in_step k (fold dup_step past (dup_new T M))
   \<and> ttl (fold dup_step past (dup_new T M)) = T \<and> max_entries (fold dup_step past (dup_new T M)) = M"
  using dup.run_inv [OF guard_inv_fresh(1), of T M past] dup.run_in_step [OF guard_inv_fresh(3), of past k T M]
    dup.run_const [of past "dup_new T M"]
  by (simp add: dup.run_def dup_new_def)

text \<open>
  Whatever the history of the share guard, a key entered as in-flight is still recognised
  by every lookup within the retention time, as long as fewer than \<open>max_entries\<close> other
  insertions happen in between: a resubmission in that window is always detected.
\<close>

lemma dup_guard_detects_resubmission:
  assumes "fst (dup_get k t0 (fold dup_step past (dup_new T M))) = None"
    and "\<forall>p\<in>set ps. t0 \<le> dup_time p \<and> dup_time p \<le> t0 + T"
    and "t0 \<le> now" and "now \<le> t0 + T"
    and "length (filter (\<lambda>p. dup_adds p \<noteq> None) ps) < M"
  shows "fst (dup_get k now (fold dup_step ps
           (insert_inflight k t0 (fold dup_step past (dup_new T M))))) \<noteq> None"
  using dup_remembers [of _ k t0 ps now] dup_history [of past T M k] assms by presburger

definition dup_demo :: duplicate_submit_guard where
  "dup_demo = fold dup_step [DupInsert ''a'' 0, DupSet ''a'' 5 Accepted] (dup_new 180 4)"

lemma dup_guard_detects_resubmission_witness:
  "fst (dup_get ''b'' 180 (fold dup_step [DupSet ''b'' 20 Accepted, DupInsert ''c'' 30]
     (insert_inflight ''b'' 10 dup_demo))) \<noteq> None"
proof -
  have a: "fst (dup_get ''b'' 10 (fold dup_step [DupInsert ''a'' 0, DupSet ''a'' 5 Accepted] (dup_new 180 4))) = None"
    by code_simp
  have b: "\<forall>p\<in>set [DupSet ''b'' 20 Accepted, DupInsert ''c'' 30]. 10 \<le> dup_time p \<and> dup_time p \<le> 10 + 180"
    by simp
  have c: "(10::nat) \<le> 180" "(180::nat) \<le> 10 + 180"
    "length (filter (\<lambda>p. dup_adds p \<noteq> None) [DupSet ''b'' 20 Accepted, DupInsert ''c'' 30]) < 4"
    by simp_all
  show ?thesis
    unfolding dup_demo_def by (rule dup_guard_detects_resubmission [OF a b c])
qed

text \<open>A marked hash that was never unmarked is refused for the retention time.\<close>

lemma block_guard_refuses_resubmission:
  assumes "fst (try_mark h t0 (fold block_step past (block_guard_new T M)))"
    and "\<forall>p\<in>set past. block_drops p \<noteq> Some h"
    and "\<forall>p\<in>set ps. t0 \<le> block_time p \<and> block_time p \<le> t0 + T \<and> block_drops p \<noteq> Some h"
    and "t0 \<le> now" and "now \<le> t0 + T"
    and "length (filter (\<lambda>p. block_adds p \<noteq> None) ps) < M"
  shows "\<not> fst (try_mark h now (fold block_step ps
           (snd (try_mark h t0 (fold block_step past (block_guard_new T M))))))"
proof -
  let ?g = "block_prune t0 (fold block_step past (block_guard_new T M))"
  let ?h = "snd (try_mark h t0 (fold block_step past (block_guard_new T M)))"
  have g: "guard_inv ?g" "in_step h ?g" "ttl ?g = T" "max_entries ?g = M"
    using blk.run_inv [OF guard_inv_fresh(2), of T M past]
      blk.run_in_step [OF guard_inv_fresh(4), of past h T M] assms(2)
      blk.run_const [of past "block_guard_new T M"]
      guard_inv_prune [of "fold block_step past (block_guard_new T M)" "\<lambda>t. t" t0]
      in_step_prune [of h "fold block_step past (block_guard_new T M)" "\<lambda>t. t" t0]
    by (simp_all add: blk.run_def block_prune_def block_guard_new_def)
  have no: "\<not> hm_has (entries ?g) h"
    using assms(1) by (simp add: try_mark_def Let_def split: if_splits)
  have h: "?h = ?g\<lparr>entries := hm_insert h t0 (entries ?g), order := order ?g @ [h]\<rparr>"
    using no by (simp add: try_mark_def Let_def)
  let ?l = "BlockRemove (CHR ''x'' # h) now"
  have "hm_has (entries (blk.run (ps @ [?l]) ?h)) h"
  proof (rule blk.run_keeps)
    show "guard_inv ?h" unfolding h using guard_inv_append [OF g(1) order_refl] by blast
    show "hm_get (entries ?h) h = Some t0" by (simp add: h)
    show "t0 \<le> t0" by simp
    show "\<forall>p\<in>set (ps @ [?l]). t0 \<le> block_time p \<and> block_time p \<le> t0 + ttl ?h \<and> block_drops p \<noteq> Some h"
      using assms(3-5) g(3) by (auto simp: h)
    show "length (behind h (order ?h)) + length (filter (\<lambda>p. block_adds p \<noteq> None) (ps @ [?l]))
        < max_entries ?h"
      using assms(6) g(4) behind_fresh [OF not_queued [OF g(2) no]] by (simp add: h)
  qed
  then have "hm_has (entries (block_prune now (fold block_step ps ?h))) h"
    by (simp add: blk.run_def guard_remove_def Let_def)
  then show ?thesis by (simp add: try_mark_def Let_def)
qed

text \<open>
  C29: neither guard grows without bound: whatever the sequence of operations, at most
  \<open>max_entries + 1\<close> entries are held, and every one of them is queued for eviction.
\<close>

theorem guards_bounded:
  "hm_len (entries (fold dup_step ps (dup_new T M))) \<le> M + 1
   \<and> guard_inv (fold dup_step ps (dup_new T M))
   \<and> hm_len (entries (fold block_step qs (block_guard_new T M))) \<le> M + 1
   \<and> guard_inv (fold block_step qs (block_guard_new T M))"
  using dup.run_inv [OF guard_inv_fresh(1), of T M ps] blk.run_inv [OF guard_inv_fresh(2), of T M qs]
  by (simp add: dup.run_def blk.run_def dup_new_def block_guard_new_def)

text \<open>
  Unmarking leaves the hash in the queue.  When it is marked again it is queued twice, and the
  older position evicts the newer entry: with three entries allowed and two newer marks, the
  hash \<open>''a''\<close> is forgotten while \<open>''b''\<close>, marked before it, stays.
\<close>

lemma block_guard_forgets_remarked:
  "let g = fold block_step [BlockMark ''z'' 0, BlockMark ''a'' 1, BlockRemove ''a'' 2, BlockMark ''b'' 3,
                            BlockMark ''a'' 4, BlockMark ''c'' 5, BlockMark ''d'' 6] (block_guard_new 600 3)
   in fst (try_mark ''a'' 7 g) \<and> \<not> fst (try_mark ''b'' 7 g)"
  by code_simp

end
