(* ===== verification/AntiAbuse.thy ===== *)
theory AntiAbuse
  imports HashMaps Float64 "HOL-Library.Multiset"
begin

text \<open>
  \<^verbatim>\<open>anti_abuse.rs\<close>: the per-address connection cap and frame-rate token bucket of the
  listener.  The guard's \<^verbatim>\<open>Mutex<HashMap>\<close> is one hash map in a record, each method one
  critical section.  A \<^verbatim>\<open>ConnTicket\<close> is the address it was issued for; dropping it is
  \<open>release\<close>.  An \<^verbatim>\<open>Instant\<close> is a number of nanoseconds.
\<close>

section \<open>Configuration\<close>

datatype ip_addr = V4 "32 word" | V6 "128 word"

record anti_abuse_config =
  max_conn_per_ip :: u32
  max_tracked_ips :: nat
  frame_rate_per_sec :: f64
  frame_burst :: f64

datatype anti_abuse_config_error =
    ZeroConnCap
  | ZeroIpCap
  | InvalidFrameRate f64
  | InvalidFrameBurst f64
  | InvalidEnvValue string string

definition f64_max :: f64 where
  "f64_max = Fin ((2 ^ 53 - 1) * 2 ^ 971)"

definition production :: anti_abuse_config where
  "production = \<lparr>max_conn_per_ip = 256, max_tracked_ips = 65536,
     frame_rate_per_sec = Fin 100, frame_burst = Fin 200\<rparr>"

definition unlimited :: anti_abuse_config where
  "unlimited = \<lparr>max_conn_per_ip = - 1, max_tracked_ips = 2 ^ 64 - 1,
     frame_rate_per_sec = f64_max, frame_burst = f64_max\<rparr>"

definition config_new :: "u32 \<Rightarrow> nat \<Rightarrow> f64 \<Rightarrow> f64 \<Rightarrow> anti_abuse_config_error + anti_abuse_config" where
  "config_new conns ips rate burst =
     (if conns = 0 then Inl ZeroConnCap
      else if ips = 0 then Inl ZeroIpCap
      else if \<not> is_finite rate \<or> fle rate (Fin 0) then Inl (InvalidFrameRate rate)
      else if \<not> is_finite burst \<or> fle burst (Fin 0) then Inl (InvalidFrameBurst burst)
      else Inr \<lparr>max_conn_per_ip = conns, max_tracked_ips = ips,
                frame_rate_per_sec = rate, frame_burst = burst\<rparr>)"

definition parse_env :: "(string \<Rightarrow> 'a option) \<Rightarrow> (string \<Rightarrow> string option) \<Rightarrow> string \<Rightarrow> 'a
    \<Rightarrow> anti_abuse_config_error + 'a" where
  "parse_env parse lookup key dflt =
     (case lookup key of
        Some raw \<Rightarrow> (case parse raw of Some v \<Rightarrow> Inr v | None \<Rightarrow> Inl (InvalidEnvValue key raw))
      | None \<Rightarrow> Inr dflt)"

definition parse_env_u32 :: "(string \<Rightarrow> string option) \<Rightarrow> string \<Rightarrow> u32 \<Rightarrow> anti_abuse_config_error + u32" where
  "parse_env_u32 = parse_env (\<lambda>raw. map_option word_of_nat (parse_uint 10 32 raw))"

definition parse_env_usize :: "(string \<Rightarrow> string option) \<Rightarrow> string \<Rightarrow> nat \<Rightarrow> anti_abuse_config_error + nat" where
  "parse_env_usize = parse_env (parse_uint 10 64)"

definition parse_env_f64 :: "(string \<Rightarrow> string option) \<Rightarrow> string \<Rightarrow> f64 \<Rightarrow> anti_abuse_config_error + f64" where
  "parse_env_f64 = parse_env parse_f64"

definition from_lookup :: "(string \<Rightarrow> string option) \<Rightarrow> anti_abuse_config_error + anti_abuse_config" where
  "from_lookup lookup =
     (case parse_env_u32 lookup ''KATPOOL_ANTI_ABUSE_MAX_CONN_PER_IP'' (max_conn_per_ip production) of
        Inl e \<Rightarrow> Inl e
      | Inr conns \<Rightarrow>
     (case parse_env_usize lookup ''KATPOOL_ANTI_ABUSE_MAX_TRACKED_IPS'' (max_tracked_ips production) of
        Inl e \<Rightarrow> Inl e
      | Inr ips \<Rightarrow>
     (case parse_env_f64 lookup ''KATPOOL_ANTI_ABUSE_FRAME_RATE_PER_SEC'' (frame_rate_per_sec production) of
        Inl e \<Rightarrow> Inl e
      | Inr rate \<Rightarrow>
     (case parse_env_f64 lookup ''KATPOOL_ANTI_ABUSE_FRAME_BURST'' (frame_burst production) of
        Inl e \<Rightarrow> Inl e
      | Inr burst \<Rightarrow> config_new conns ips rate burst))))"

section \<open>The token bucket\<close>

record ip_entry =
  conn_count :: u32
  tokens :: f64
  last_refill :: nat

definition ip_entry_new :: "f64 \<Rightarrow> nat \<Rightarrow> ip_entry" where
  "ip_entry_new burst now = \<lparr>conn_count = 0, tokens = burst, last_refill = now\<rparr>"

definition try_consume :: "nat \<Rightarrow> f64 \<Rightarrow> f64 \<Rightarrow> ip_entry \<Rightarrow> bool \<times> ip_entry" where
  "try_consume now rate burst e =
     (let elapsed = as_secs_f64 (now - last_refill e);
          refill = fmul elapsed rate;
          e = e\<lparr>tokens := fmin (fadd (tokens e) refill) burst, last_refill := now\<rparr>
      in if fle (Fin 1) (tokens e) then (True, e\<lparr>tokens := fsub (tokens e) (Fin 1)\<rparr>) else (False, e))"

section \<open>The guard\<close>

datatype anti_abuse_rejection = ConnCapPerIp u32 u32 | IpCapReached

record anti_abuse_guard =
  config :: anti_abuse_config
  ip_state :: "(ip_addr, ip_entry) hash_map"

definition guard_new :: "anti_abuse_config \<Rightarrow> anti_abuse_guard" where
  "guard_new cfg = \<lparr>config = cfg, ip_state = []\<rparr>"

definition guard_conn_count :: "anti_abuse_guard \<Rightarrow> ip_addr \<Rightarrow> u32" where
  "guard_conn_count g ip = (case hm_get (ip_state g) ip of Some e \<Rightarrow> conn_count e | None \<Rightarrow> 0)"

definition tracked_ip_count :: "anti_abuse_guard \<Rightarrow> nat" where
  "tracked_ip_count g = hm_len (ip_state g)"

definition try_accept_connection :: "ip_addr \<Rightarrow> nat \<Rightarrow> anti_abuse_guard
    \<Rightarrow> (anti_abuse_rejection + ip_addr) \<times> anti_abuse_guard" where
  "try_accept_connection ip now g =
     (let known = hm_has (ip_state g) ip
      in if \<not> known \<and> max_tracked_ips (config g) \<le> hm_len (ip_state g) then (Inl IpCapReached, g)
         else let entry = the_default (ip_entry_new (frame_burst (config g)) now) (hm_get (ip_state g) ip);
                  g = g\<lparr>ip_state := hm_insert ip entry (ip_state g)\<rparr>
              in if max_conn_per_ip (config g) \<le> conn_count entry
                 then (Inl (ConnCapPerIp (conn_count entry) (max_conn_per_ip (config g))), g)
                 else (Inr ip, g\<lparr>ip_state :=
                        hm_insert ip (entry\<lparr>conn_count := conn_count entry + 1\<rparr>) (ip_state g)\<rparr>))"

definition try_consume_frame :: "ip_addr \<Rightarrow> nat \<Rightarrow> anti_abuse_guard \<Rightarrow> bool \<times> anti_abuse_guard" where
  "try_consume_frame ip now g =
     (case hm_get (ip_state g) ip of
        Some entry \<Rightarrow>
          (let (b, entry') = try_consume now (frame_rate_per_sec (config g)) (frame_burst (config g)) entry
           in (b, g\<lparr>ip_state := hm_insert ip entry' (ip_state g)\<rparr>))
      | None \<Rightarrow> (False, g))"

definition release :: "ip_addr \<Rightarrow> anti_abuse_guard \<Rightarrow> anti_abuse_guard" where
  "release ip g =
     (case hm_get (ip_state g) ip of
        Some entry \<Rightarrow>
          (let n = (if conn_count entry = 0 then 0 else conn_count entry - 1)
           in if n = 0 then g\<lparr>ip_state := hm_remove ip (ip_state g)\<rparr>
              else g\<lparr>ip_state := hm_insert ip (entry\<lparr>conn_count := n\<rparr>) (ip_state g)\<rparr>)
      | None \<Rightarrow> g)"

fun metric_label :: "anti_abuse_rejection \<Rightarrow> string" where
  "metric_label (ConnCapPerIp active cap) = ''conn_cap_per_ip''"
| "metric_label IpCapReached = ''ip_cap_reached''"

text \<open>\<^verbatim>\<open>Duration::from_secs_f64\<close> panics on a result that is not a duration.\<close>

definition refill_eta :: "anti_abuse_config \<Rightarrow> nat option" where
  "refill_eta cfg = from_secs_f64 (fmax (fdiv (Fin 1) (frame_rate_per_sec cfg)) (rnd (1 / 1000)))"

section \<open>Connections over time\<close>

text \<open>
  The listener's use of the guard: a state and the multiset of tickets that are held.  A ticket
  is released exactly once, when its connection ends.
\<close>

type_synonym guarded = "anti_abuse_guard \<times> ip_addr multiset"

inductive aa_step :: "guarded \<Rightarrow> guarded \<Rightarrow> bool" where
  accept: "try_accept_connection ip now g = (Inr ticket, g') \<Longrightarrow> aa_step (g, T) (g', add_mset ticket T)"
| reject: "try_accept_connection ip now g = (Inl r, g') \<Longrightarrow> aa_step (g, T) (g', T)"
| frame: "try_consume_frame ip now g = (b, g') \<Longrightarrow> aa_step (g, T) (g', T)"
| drop: "ip \<in># T \<Longrightarrow> aa_step (g, T) (release ip g, T - {#ip#})"

inductive_cases aa_stepE: "aa_step (g, T) (g', T')"

inductive aa_reachable :: "anti_abuse_config \<Rightarrow> guarded \<Rightarrow> bool" for cfg where
  start: "aa_reachable cfg (guard_new cfg, {#})"
| step: "aa_reachable cfg s \<Longrightarrow> aa_step s s' \<Longrightarrow> aa_reachable cfg s'"

section \<open>Invariant\<close>

definition bucket_ok :: "f64 \<Rightarrow> ip_entry \<Rightarrow> bool" where
  "bucket_ok burst e \<longleftrightarrow> f64_ok (tokens e) \<and> fle (Fin 0) (tokens e) \<and> fle (tokens e) burst"

definition valid_config :: "anti_abuse_config \<Rightarrow> bool" where
  "valid_config cfg \<longleftrightarrow> max_conn_per_ip cfg \<noteq> 0 \<and> 0 < max_tracked_ips cfg
     \<and> (\<exists>r. frame_rate_per_sec cfg = Fin r \<and> 0 < r)
     \<and> (\<exists>b. frame_burst cfg = Fin b \<and> 0 < b \<and> repr b)"

lemma config_new_valid:
  assumes "config_new conns ips rate burst = Inr cfg" and "f64_ok burst"
  shows "valid_config cfg"
  using assms by (cases rate; cases burst)
    (auto simp: config_new_def valid_config_def is_finite_def split: if_splits)

lemma fadd_nonneg: "fle (Fin 0) x \<Longrightarrow> fle (Fin 0) y \<Longrightarrow> fle (Fin 0) (fadd x y)"
  by (cases x; cases y) (auto intro: rnd_nonneg)

lemma as_secs_f64_nonneg: "fle (Fin 0) (as_secs_f64 d)"
proof -
  have n: "fle (Fin 0) (of_n k)" for k by (simp add: of_n_def rnd_nonneg)
  have "fle (Fin 0) (fdiv (of_n k) (of_n (10 ^ 9)))" for k
    using fdiv_mono_left [OF n, of "10 ^ 9"] by (simp add: of_n_exact)
  with n show ?thesis unfolding as_secs_f64_def by (intro fadd_nonneg)
qed

lemma bucket_refill:
  assumes e: "f64_ok t" "fle (Fin 0) t" "fle t (Fin b)" and r: "fle (Fin 0) refill" "f64_ok refill"
    and b: "repr b" "0 < b"
  shows "\<exists>q. fmin (fadd t refill) (Fin b) = Fin q \<and> repr q \<and> 0 \<le> q \<and> q \<le> b"
proof -
  have "fle (Fin 0) (fadd t refill)"
    using e r by (intro fadd_nonneg)
  moreover have "f64_ok (fadd t refill)" using e(1) r(2) by simp
  ultimately show ?thesis
    using b by (cases "fadd t refill") (auto simp: fmin_def)
qed

lemma bucket_consume:
  assumes "bucket_ok (Fin b) e" and "repr b" "0 < b" and "0 < r"
    and c: "try_consume now (Fin r) (Fin b) e = (passed, e')"
  shows "bucket_ok (Fin b) e' \<and> conn_count e' = conn_count e"
proof -
  let ?refill = "fmul (as_secs_f64 (now - last_refill e)) (Fin r)"
  have "fle (Fin 0) ?refill"
    using fmul_mono_right [OF as_secs_f64_nonneg assms(4)] by simp
  then obtain q where q: "fmin (fadd (tokens e) ?refill) (Fin b) = Fin q" "repr q" "0 \<le> q" "q \<le> b"
    using bucket_refill [of "tokens e" b ?refill] assms(1-3) unfolding bucket_ok_def by auto
  have "fle (Fin 0) (rnd (q - 1)) \<and> fle (rnd (q - 1)) (Fin b)" if "1 \<le> q"
    using that q assms(2) by (auto intro: rnd_nonneg rnd_le_repr)
  then show ?thesis
    using c q by (auto simp: try_consume_def Let_def fsub_def bucket_ok_def split: if_splits)
qed

definition entry_ok :: "anti_abuse_config \<Rightarrow> nat \<Rightarrow> ip_entry option \<Rightarrow> bool" where
  "entry_ok cfg held eo =
     (case eo of
        None \<Rightarrow> held = 0
      | Some e \<Rightarrow> 0 < held \<and> unat (conn_count e) = held \<and> conn_count e \<le> max_conn_per_ip cfg
               \<and> bucket_ok (frame_burst cfg) e)"

definition aa_inv :: "anti_abuse_config \<Rightarrow> guarded \<Rightarrow> bool" where
  "aa_inv cfg s \<longleftrightarrow> (case s of (g, T) \<Rightarrow>
     config g = cfg \<and> hm_wf (ip_state g) \<and> hm_len (ip_state g) \<le> max_tracked_ips cfg
     \<and> (\<forall>ip. entry_ok cfg (count T ip) (hm_get (ip_state g) ip)))"

lemma aa_inv_start: "aa_inv cfg (guard_new cfg, {#})"
  by (simp add: aa_inv_def guard_new_def entry_ok_def)

lemma fresh_bucket: "valid_config cfg \<Longrightarrow> bucket_ok (frame_burst cfg) (ip_entry_new (frame_burst cfg) now)"
  by (auto simp: valid_config_def bucket_ok_def ip_entry_new_def)

lemma accept_entry:
  assumes "valid_config cfg" and "entry_ok cfg n eo"
    and "\<not> max_conn_per_ip cfg \<le> conn_count (the_default (ip_entry_new (frame_burst cfg) now) eo)"
  shows "entry_ok cfg (Suc n) (Some ((the_default (ip_entry_new (frame_burst cfg) now) eo)
           \<lparr>conn_count := conn_count (the_default (ip_entry_new (frame_burst cfg) now) eo) + 1\<rparr>))"
proof -
  let ?e = "the_default (ip_entry_new (frame_burst cfg) now) eo"
  have lt: "conn_count ?e < max_conn_per_ip cfg" using assms(3) by simp
  then have "unat (conn_count ?e + 1) = Suc (unat (conn_count ?e))" and "conn_count ?e + 1 \<le> max_conn_per_ip cfg"
    using unat_succ [OF less_not_max [OF lt]] lt by (simp_all add: word_le_nat_alt word_less_nat_alt)
  moreover have "unat (conn_count ?e) = n" "bucket_ok (frame_burst cfg) ?e"
    using assms(2) fresh_bucket [OF assms(1)] by (cases eo; simp add: entry_ok_def ip_entry_new_def)+
  ultimately show ?thesis by (simp add: entry_ok_def bucket_ok_def)
qed

lemma aa_inv_accept:
  assumes v: "valid_config cfg" and inv: "aa_inv cfg (g, T)"
    and acc: "try_accept_connection ip now g = (r, g')"
  shows "aa_inv cfg (g', case r of Inr ticket \<Rightarrow> add_mset ticket T | Inl _ \<Rightarrow> T)"
proof -
  let ?e = "the_default (ip_entry_new (frame_burst cfg) now) (hm_get (ip_state g) ip)"
  have c: "config g = cfg" and wf: "hm_wf (ip_state g)"
    and len: "hm_len (ip_state g) \<le> max_tracked_ips cfg"
    and ok: "entry_ok cfg (count T i) (hm_get (ip_state g) i)" for i
    using inv by (auto simp: aa_inv_def)
  consider "r = Inl IpCapReached" "g' = g"
    | "hm_has (ip_state g) ip \<or> hm_len (ip_state g) < max_tracked_ips cfg"
      "max_conn_per_ip cfg \<le> conn_count ?e" "g' = g\<lparr>ip_state := hm_insert ip ?e (ip_state g)\<rparr>"
      "r = Inl (ConnCapPerIp (conn_count ?e) (max_conn_per_ip cfg))"
    | "hm_has (ip_state g) ip \<or> hm_len (ip_state g) < max_tracked_ips cfg"
      "\<not> max_conn_per_ip cfg \<le> conn_count ?e" "r = Inr ip"
      "g' = g\<lparr>ip_state := hm_insert ip (?e\<lparr>conn_count := conn_count ?e + 1\<rparr>) (hm_insert ip ?e (ip_state g))\<rparr>"
    using acc by (auto simp: try_accept_connection_def Let_def c split: if_splits)
  then show ?thesis
  proof cases
    case 1
    then show ?thesis using inv by simp
  next
    case 2
    have "hm_get (ip_state g) ip = Some ?e"
      using 2(2) v by (cases "hm_get (ip_state g) ip") (auto simp: ip_entry_new_def valid_config_def)
    then show ?thesis
      using 2 c wf len ok [of ip] ok by (auto simp: aa_inv_def hm_len_insert hm_has_def)
  next
    case 3
    have "entry_ok cfg (Suc (count T ip)) (Some (?e\<lparr>conn_count := conn_count ?e + 1\<rparr>))"
      by (rule accept_entry [OF v ok 3(2)])
    then show ?thesis
      using 3 c wf len ok by (auto simp: aa_inv_def hm_len_insert)
  qed
qed

lemma aa_inv_frame:
  assumes v: "valid_config cfg" and inv: "aa_inv cfg (g, T)"
    and fr: "try_consume_frame ip now g = (passed, g')"
  shows "aa_inv cfg (g', T)"
proof (cases "hm_get (ip_state g) ip")
  case None
  then show ?thesis using inv fr by (simp add: try_consume_frame_def)
next
  case (Some e)
  obtain r b where rb: "frame_rate_per_sec cfg = Fin r" "0 < r" "frame_burst cfg = Fin b" "0 < b" "repr b"
    using v by (auto simp: valid_config_def)
  have c: "config g = cfg" and ok: "entry_ok cfg (count T i) (hm_get (ip_state g) i)" for i
    using inv by (auto simp: aa_inv_def)
  obtain e' where e': "try_consume now (Fin r) (Fin b) e = (passed, e')"
    "g' = g\<lparr>ip_state := hm_insert ip e' (ip_state g)\<rparr>"
    using fr Some rb c by (auto simp: try_consume_frame_def split: prod.splits)
  have "bucket_ok (Fin b) e' \<and> conn_count e' = conn_count e"
    using ok [of ip] Some rb by (intro bucket_consume [OF _ rb(5,4,2) e'(1)]) (simp add: entry_ok_def)
  then have "entry_ok cfg (count T ip) (Some e')"
    using ok [of ip] Some rb by (simp add: entry_ok_def)
  then show ?thesis
    using inv Some e'(2) by (auto simp: aa_inv_def hm_len_insert hm_has_def)
qed

lemma aa_inv_release:
  assumes inv: "aa_inv cfg (g, T)" and held: "ip \<in># T"
  shows "aa_inv cfg (release ip g, T - {#ip#})"
proof -
  have ok: "entry_ok cfg (count T i) (hm_get (ip_state g) i)" for i
    using inv by (auto simp: aa_inv_def)
  obtain e where e: "hm_get (ip_state g) ip = Some e" "unat (conn_count e) = count T ip"
    "conn_count e \<le> max_conn_per_ip cfg" "bucket_ok (frame_burst cfg) e"
    using ok [of ip] held [folded count_greater_zero_iff]
    by (cases "hm_get (ip_state g) ip") (auto simp: entry_ok_def)
  have ne: "conn_count e \<noteq> 0" using e(2) held by (auto simp: count_eq_zero_iff)
  then have dec: "unat (conn_count e - 1) = count T ip - 1"
    using e(2) by (simp add: unat_minus_one)
  then have "conn_count e - 1 \<le> max_conn_per_ip cfg"
    using e(2,3) by (simp add: word_le_nat_alt)
  moreover have "hm_len (ip_state g) \<le> max_tracked_ips cfg" using inv by (simp add: aa_inv_def)
  moreover have "conn_count e - 1 = 0 \<longleftrightarrow> count T ip = 1"
    using dec held by (metis count_greater_zero_iff diff_Suc_1 One_nat_def Suc_pred' unat_eq_zero unsigned_0)
  moreover have "hm_get (ip_state (release ip g)) i =
      (if i = ip then if count T ip = 1 then None else Some (e\<lparr>conn_count := conn_count e - 1\<rparr>)
       else hm_get (ip_state g) i)" for i
    using e(1) ne calculation(3) by (simp add: release_def Let_def)
  moreover have "count (T - {#ip#}) i = (if i = ip then count T ip - 1 else count T i)" for i
    by simp
  moreover have "count T ip = 1 \<or> Suc 0 < count T ip"
    using held [folded count_greater_zero_iff] by linarith
  ultimately have "entry_ok cfg (count (T - {#ip#}) i) (hm_get (ip_state (release ip g)) i)" for i
    using ok [of i] e dec by (auto simp: entry_ok_def bucket_ok_def)
  moreover have "hm_len (ip_state (release ip g)) \<le> hm_len (ip_state g)" "hm_wf (ip_state (release ip g))"
    "config (release ip g) = config g"
    using e(1) inv hm_len_remove_le [of ip "ip_state g"]
    by (simp_all add: release_def Let_def aa_inv_def hm_len_insert hm_has_def)
  ultimately show ?thesis
    using inv by (auto simp: aa_inv_def)
qed

lemma aa_inv_step: "valid_config cfg \<Longrightarrow> aa_inv cfg (g, T) \<Longrightarrow> aa_step (g, T) (g', T') \<Longrightarrow> aa_inv cfg (g', T')"
  by (erule aa_stepE) (auto dest: aa_inv_accept aa_inv_frame intro: aa_inv_release)

lemma aa_inv_reachable: "aa_reachable cfg s \<Longrightarrow> valid_config cfg \<Longrightarrow> aa_inv cfg s"
proof (induction rule: aa_reachable.induct)
  case start
  show ?case by (rule aa_inv_start)
next
  case (step s s')
  then show ?case by (cases s; cases s') (auto intro: aa_inv_step)
qed

section \<open>Properties\<close>

lemma aa_inv_counts:
  assumes "aa_inv cfg (g, T)"
  shows "unat (guard_conn_count g ip) = count T ip"
    and "count T ip \<le> unat (max_conn_per_ip cfg)"
    and "hm_has (ip_state g) ip \<longleftrightarrow> ip \<in># T"
    and "tracked_ip_count g = card (set_mset T)"
proof -
  have ok: "entry_ok cfg (count T i) (hm_get (ip_state g) i)" for i
    using assms by (simp add: aa_inv_def)
  show "unat (guard_conn_count g ip) = count T ip" "count T ip \<le> unat (max_conn_per_ip cfg)"
    using ok [of ip] by (auto simp: entry_ok_def guard_conn_count_def word_le_nat_alt split: option.splits)
  have has: "hm_has (ip_state g) i \<longleftrightarrow> i \<in># T" for i
    using ok [of i] by (auto simp: entry_ok_def hm_has_def count_eq_zero_iff split: option.splits)
  then show "hm_has (ip_state g) ip \<longleftrightarrow> ip \<in># T" .
  show "tracked_ip_count g = card (set_mset T)"
    using assms has by (simp add: aa_inv_def tracked_ip_count_def hm_len_card)
qed

text \<open>
  With a validated configuration, whatever connects, sends frames and disconnects in
  whatever order, the count kept for an address is the number of tickets held for it and never
  exceeds the cap; the tracked addresses are those with a ticket and never exceed theirs.
\<close>

lemma conn_counts_match_tickets:
  assumes "config_new conns ips rate burst = Inr cfg" and "f64_ok burst"
    and "aa_reachable cfg (g, T)"
  shows "unat (guard_conn_count g ip) = count T ip \<and> count T ip \<le> unat conns
    \<and> tracked_ip_count g = card (set_mset T) \<and> card (set_mset T) \<le> ips"
proof -
  have v: "valid_config cfg" by (rule config_new_valid [OF assms(1,2)])
  have c: "max_conn_per_ip cfg = conns" "max_tracked_ips cfg = ips"
    using assms(1) by (auto simp: config_new_def split: if_splits)
  have inv: "aa_inv cfg (g, T)" by (rule aa_inv_reachable [OF assms(3) v])
  then have "tracked_ip_count g \<le> ips" by (simp add: aa_inv_def tracked_ip_count_def c)
  then show ?thesis
    using aa_inv_counts [OF inv] c by simp
qed

lemma conn_counts_match_tickets_witness:
  "guard_conn_count (snd (try_accept_connection (V4 7) 0 (guard_new production))) (V4 7) = 1"
proof -
  let ?g = "snd (try_accept_connection (V4 7) 0 (guard_new production))"
  have c: "config_new 256 65536 (Fin 100) (Fin 200) = Inr production"
    by (simp add: config_new_def production_def is_finite_def)
  have r: "f64_ok (Fin 200)" using repr_of_int [of 200] by simp
  have "try_accept_connection (V4 7) 0 (guard_new production) = (Inr (V4 7), ?g)"
    by (simp add: try_accept_connection_def guard_new_def production_def ip_entry_new_def Let_def)
  then have "aa_reachable production (?g, {#V4 7#})"
    by (intro aa_reachable.step [OF aa_reachable.start] aa_step.accept)
  from conn_counts_match_tickets [OF c r this, of "V4 7"]
  have "unat (guard_conn_count ?g (V4 7)) = 1" by simp
  then show ?thesis by (metis unat_1 word_unat_eq_iff)
qed

text \<open>
  The guard turns a connection away for no other reason than its caps: in every reachable
  state an address is accepted exactly when it holds fewer tickets than the cap and it is known
  or there is room for a new address.
\<close>

lemma accept_iff_below_caps:
  assumes "config_new conns ips rate burst = Inr cfg" and "f64_ok burst"
    and "aa_reachable cfg (g, T)"
  shows "(\<exists>g'. try_accept_connection ip now g = (Inr ip, g'))
      = ((ip \<in># T \<or> card (set_mset T) < ips) \<and> count T ip < unat conns)"
proof -
  have v: "valid_config cfg" by (rule config_new_valid [OF assms(1,2)])
  have c: "max_conn_per_ip cfg = conns" "max_tracked_ips cfg = ips"
    using assms(1) by (auto simp: config_new_def split: if_splits)
  have inv: "aa_inv cfg (g, T)" by (rule aa_inv_reachable [OF assms(3) v])
  have cg: "config g = cfg" using inv by (simp add: aa_inv_def)
  have cc: "conn_count (the_default (ip_entry_new (frame_burst cfg) now) (hm_get (ip_state g) ip))
      = guard_conn_count g ip"
    by (simp add: guard_conn_count_def ip_entry_new_def split: option.splits)
  show ?thesis
    using aa_inv_counts(1-3) [OF inv, of ip] aa_inv_counts(4) [OF inv]
    by (auto simp: try_accept_connection_def Let_def cg c cc tracked_ip_count_def word_le_nat_alt not_le)
qed

lemma accept_iff_below_caps_witness:
  "\<exists>g'. try_accept_connection (V6 1) 5 (guard_new production) = (Inr (V6 1), g')"
proof -
  have c: "config_new 256 65536 (Fin 100) (Fin 200) = Inr production"
    by (simp add: config_new_def production_def is_finite_def)
  have r: "f64_ok (Fin 200)" using repr_of_int [of 200] by simp
  show ?thesis using accept_iff_below_caps [OF c r aa_reachable.start, of "V6 1" 5] by simp
qed

section \<open>The burst\<close>

text \<open>The outcomes of \<open>n\<close> frames at one instant.\<close>

fun burst_at :: "nat \<Rightarrow> f64 \<Rightarrow> f64 \<Rightarrow> nat \<Rightarrow> ip_entry \<Rightarrow> bool list" where
  "burst_at now rate burst 0 e = []"
| "burst_at now rate burst (Suc n) e =
     (let (passed, e') = try_consume now rate burst e in passed # burst_at now rate burst n e')"

lemma try_consume_now:
  assumes "tokens e = Fin q" "repr q" "0 \<le> q" "q \<le> b" "b \<le> 2 ^ 53" "last_refill e = now"
  shows "try_consume now (Fin r) (Fin b) e
    = (if 1 \<le> q then (True, e\<lparr>tokens := Fin (q - 1)\<rparr>) else (False, e))"
proof -
  have z: "as_secs_f64 0 = Fin 0" by (simp add: as_secs_f64_def of_n_exact)
  have t: "fmin (fadd (tokens e) (fmul (as_secs_f64 (now - last_refill e)) (Fin r))) (Fin b) = Fin q"
    using assms by (simp add: z rnd_exact fmin_def)
  have "1 \<le> q \<Longrightarrow> rnd (q - 1) = Fin (q - 1)"
    using assms by (intro rnd_exact repr_minus_one) auto
  moreover have "e\<lparr>tokens := Fin q, last_refill := now\<rparr> = e" using assms(1,6) by simp
  ultimately show ?thesis
    using t assms(1) by (auto simp: try_consume_def Let_def fsub_def)
qed

text \<open>
  At one instant the bucket passes exactly as many frames as it holds whole tokens, then
  none: the float arithmetic neither loses nor invents a token for bursts up to \<open>2^53\<close>.
\<close>

lemma burst_exact:
  assumes "tokens e = Fin q" and "repr q" and "0 \<le> q" and "q \<le> b" and "b \<le> 2 ^ 53"
    and "last_refill e = now"
  shows "burst_at now (Fin r) (Fin b) n e
    = replicate (min n (nat \<lfloor>q\<rfloor>)) True @ replicate (n - nat \<lfloor>q\<rfloor>) False"
  using assms
proof (induction n arbitrary: e q)
  case 0
  show ?case by simp
next
  case (Suc n)
  note step = try_consume_now [OF Suc.prems]
  show ?case
  proof (cases "1 \<le> q")
    case True
    have "burst_at now (Fin r) (Fin b) n (e\<lparr>tokens := Fin (q - 1)\<rparr>)
        = replicate (min n (nat \<lfloor>q - 1\<rfloor>)) True @ replicate (n - nat \<lfloor>q - 1\<rfloor>) False"
      using True Suc.prems by (intro Suc.IH) (auto intro: repr_minus_one)
    moreover have "nat \<lfloor>q\<rfloor> = Suc (nat \<lfloor>q - 1\<rfloor>)"
      using True by (simp add: nat_diff_distrib)
    ultimately show ?thesis using True by (simp add: step)
  next
    case False
    then have "\<lfloor>q\<rfloor> = 0" using Suc.prems(3) by (simp add: floor_eq_iff)
    moreover have "burst_at now (Fin r) (Fin b) n e = replicate n False"
      using Suc.IH [OF Suc.prems] calculation by simp
    ultimately show ?thesis using False by (simp add: step)
  qed
qed

lemma burst_exact_witness:
  "burst_at 9 (Fin 100) (Fin 3) 5 (ip_entry_new (Fin 3) 9) = [True, True, True, False, False]"
proof -
  have "repr 3" using repr_of_int [of 3] by simp
  then show ?thesis
    using burst_exact [of "ip_entry_new (Fin 3) 9" 3 3 9 100 5]
    by (simp add: ip_entry_new_def numeral_eq_Suc)
qed

end
