(* ===== verification/Hasher.thy ===== *)
theory Hasher
  imports Domain
begin

text \<open>
  \<^verbatim>\<open>bridge/src/hasher.rs\<close>: difficulty to target, the header pre-image, the three job
  formats sent to miners, and the compact-bits target.  A \<^verbatim>\<open>BigUint\<close> is a \<open>nat\<close>;
  its division by zero panics, which is \<open>None\<close> here.  The block hash function itself is
  outside the repository: \<open>header_preimage\<close> is the byte stream the code feeds to it, and
  \<open>serialize_block_header\<close> takes it as a parameter.
\<close>

section \<open>Difficulty and target\<close>

definition max_target :: nat where
  "max_target = 2 ^ 224 - 1"

definition min_hash :: f64 where
  "min_hash = fpow2 32"

definition big_gig :: f64 where
  "big_gig = Fin 1000000000"

record kaspa_diff =
  hash_value :: f64
  diff_value :: f64
  target_value :: nat

definition kaspa_diff_default :: kaspa_diff where
  "kaspa_diff_default = \<lparr>hash_value = Fin 0, diff_value = Fin 0, target_value = 0\<rparr>"

definition kaspa_diff_new :: kaspa_diff where
  "kaspa_diff_new = kaspa_diff_default"

text \<open>\<^verbatim>\<open>BigUint\<close> division.\<close>

definition big_div :: "nat \<Rightarrow> nat \<Rightarrow> nat option" where
  "big_div a b = (if b = 0 then None else Some (a div b))"

definition diff_to_target_alternative :: "f64 \<Rightarrow> nat option" where
  "diff_to_target_alternative diff =
     (if fle diff (Fin 0) then Some max_target
      else let difficulty_big = to_uint 64 (fmul diff (Fin 1000000))
           in big_div ((2 ^ 64 - 1) * 1000000) difficulty_big)"

definition stratum_difficulty_to_target_kaspa :: "u64 \<Rightarrow> nat" where
  "stratum_difficulty_to_target_kaspa d =
     (if d = 0 then (2 ^ 64 - 1) * 1000
      else (2 ^ 64 - 1) * 1000 div (unat d * 1000))"

definition diff_to_target_standard :: "f64 \<Rightarrow> nat option" where
  "diff_to_target_standard diff =
     (if fle diff (Fin 0) then Some max_target
      else let diff_scaled = to_uint 128 (fmul diff (Fin 1000000000000000000))
           in big_div (max_target * 1000000000000000000) diff_scaled)"

text \<open>
  The two environment switches are read at every call.  Both test modes also compute the
  standard target for a debug line, so they panic where it does.
\<close>

record target_env =
  use_alternative :: bool
  use_stratum_alt :: bool

definition default_env :: target_env where
  "default_env = \<lparr>use_alternative = False, use_stratum_alt = False\<rparr>"

definition diff_to_target :: "target_env \<Rightarrow> f64 \<Rightarrow> nat option" where
  "diff_to_target env diff =
     (if use_stratum_alt env then
        (let stratum_target = stratum_difficulty_to_target_kaspa (word_of_nat (to_uint 64 diff))
         in case diff_to_target_standard diff of None \<Rightarrow> None | Some _ \<Rightarrow> Some stratum_target)
      else if use_alternative env then
        (case diff_to_target_alternative diff of
           None \<Rightarrow> None
         | Some alt_target \<Rightarrow>
             (case diff_to_target_standard diff of None \<Rightarrow> None | Some _ \<Rightarrow> Some alt_target))
      else diff_to_target_standard diff)"

definition diff_to_hash :: "f64 \<Rightarrow> f64" where
  "diff_to_hash diff = fdiv (fmul min_hash diff) big_gig"

definition set_diff_value :: "target_env \<Rightarrow> kaspa_diff \<Rightarrow> f64 \<Rightarrow> kaspa_diff option" where
  "set_diff_value env k diff =
     (case diff_to_target env diff of
        None \<Rightarrow> None
      | Some t \<Rightarrow> Some (k\<lparr>diff_value := diff, target_value := t, hash_value := diff_to_hash diff\<rparr>))"

definition set_diff_value_for_miner ::
    "target_env \<Rightarrow> kaspa_diff \<Rightarrow> f64 \<Rightarrow> string \<Rightarrow> kaspa_diff option" where
  "set_diff_value_for_miner env k diff remote_app =
     (case diff_to_target env diff of
        None \<Rightarrow> None
      | Some t \<Rightarrow> Some (k\<lparr>diff_value := diff, target_value := t, hash_value := diff_to_hash diff\<rparr>))"

text \<open>Compact bits.  The argument is a \<^verbatim>\<open>u64\<close>; the shift count is truncated to 32 bits.\<close>

definition calculate_target :: "u64 \<Rightarrow> nat" where
  "calculate_target bits =
     (let exponent = unat (drop_bit 24 bits);
          mantissa = unat (and bits 0xFFFFFF)
      in if exponent \<le> 3 then drop_bit (8 * (3 - exponent)) mantissa
         else push_bit ((8 * (exponent - 3)) mod 2 ^ 32) mantissa)"

definition big_diff_to_little :: "nat \<Rightarrow> f64" where
  "big_diff_to_little diff = fdiv (fdiv (of_n (2 ^ 254)) (of_n diff)) (fpow2 31)"

section \<open>The block header and its pre-image\<close>

type_synonym hash = "u8 list"

text \<open>The fields of the consensus header the bridge reads or writes.  \<open>hdr_hash\<close> is the cached
  hash of the header.\<close>

record header =
  hdr_hash :: hash
  version :: u16
  parents_by_level :: "hash list list"
  hash_merkle_root :: hash
  accepted_id_merkle_root :: hash
  utxo_commitment :: hash
  hdr_timestamp :: u64
  bits :: u32
  nonce :: u64
  daa_score :: u64
  blue_work :: "192 word"
  blue_score :: u64
  pruning_point :: hash

definition le_bytes :: "nat \<Rightarrow> 'a::len word \<Rightarrow> u8 list" where
  "le_bytes n w = map (\<lambda>i. word_of_nat (unat w div 256 ^ i)) [0..<n]"

definition len_bytes :: "nat \<Rightarrow> u8 list" where
  "len_bytes n = le_bytes 8 (word_of_nat n :: u64)"

definition blue_work_be :: "192 word \<Rightarrow> u8 list" where
  "blue_work_be w = rev (le_bytes 24 w)"

definition header_preimage :: "header \<Rightarrow> u8 list" where
  "header_preimage h =
     (let levels = parents_by_level h;
          work = dropWhile (\<lambda>b. b = 0) (blue_work_be (blue_work h))
      in le_bytes 2 (version h)
         @ len_bytes (length levels)
         @ concat (map (\<lambda>level. len_bytes (length level) @ concat level) levels)
         @ hash_merkle_root h @ accepted_id_merkle_root h @ utxo_commitment h
         @ le_bytes 8 (0 :: u64)
         @ le_bytes 4 (bits h)
         @ le_bytes 8 (0 :: u64)
         @ le_bytes 8 (daa_score h)
         @ le_bytes 8 (blue_score h)
         @ len_bytes (length work) @ work
         @ pruning_point h)"

definition serialize_block_header :: "(u8 list \<Rightarrow> hash) \<Rightarrow> header \<Rightarrow> string + hash" where
  "serialize_block_header H h = Inr (H (header_preimage h))"

section \<open>Job formats\<close>

definition u64_at :: "(u8 list \<Rightarrow> u64) \<Rightarrow> u8 list \<Rightarrow> nat \<Rightarrow> u64 option" where
  "u64_at rd bs i = (if i * 8 + 8 \<le> length bs then Some (rd (take 8 (drop (i * 8) bs))) else None)"

definition generate_job_header :: "u8 list \<Rightarrow> u64 list" where
  "generate_job_header bs = List.map_filter (u64_at from_le_bytes bs) [0..<4]"

definition generate_iceriver_job_params :: "hash \<Rightarrow> u64 \<Rightarrow> string" where
  "generate_iceriver_job_params pre_pow_hash timestamp =
     (let hash_hex = hex_encode pre_pow_hash;
          timestamp_hex = hex_encode (to_le_bytes timestamp)
      in hash_hex @ timestamp_hex)"

definition hex16 :: "u64 \<Rightarrow> string" where
  "hex16 w = radix_digits 16 16 (unat w)"

text \<open>Indexing \<^verbatim>\<open>ids[0]\<close> to \<^verbatim>\<open>ids[4]\<close> panics when fewer than four words were read.\<close>

definition generate_large_job_params :: "u8 list \<Rightarrow> u64 \<Rightarrow> string option" where
  "generate_large_job_params bs timestamp =
     (let ids = List.map_filter (u64_at from_be_bytes bs) [0..<4] @ [from_le_bytes (to_be_bytes timestamp)]
      in if length ids < 5 then None else Some (concat (map hex16 (take 5 ids))))"

section \<open>Targets\<close>

lemma scaled_le: "0 \<le> q \<Longrightarrow> fle (Fin 0) (fmul (Fin q) (Fin c))" if "0 \<le> c"
  using that by (auto intro: rnd_nonneg)

lemma diff_to_target_standard_pos:
  "0 < q \<Longrightarrow> diff_to_target_standard (Fin q)
     = big_div (max_target * 10 ^ 18) (to_uint 128 (rnd (q * 10 ^ 18)))"
  by (simp add: diff_to_target_standard_def)

text \<open>
  C34: a higher share difficulty never gives an easier target: the standard conversion is
  antitone on positive difficulties, rounding and integer saturation included.
\<close>

theorem diff_to_target_antitone:
  assumes "flt (Fin 0) d" and "fle d d'"
    and "diff_to_target_standard d = Some t" and "diff_to_target_standard d' = Some t'"
  shows "t' \<le> t"
proof -
  let ?s = "\<lambda>d. to_uint 128 (fmul d (Fin 1000000000000000000))"
  have p: "\<not> fle d (Fin 0)" "\<not> fle d' (Fin 0)"
    using assms(1,2) by (cases d; cases d'; auto simp: flt_def)+
  have "?s d \<le> ?s d'"
    by (intro to_uint_mono fmul_mono_right assms(2)) simp
  moreover have "?s d \<noteq> 0" "t = max_target * 1000000000000000000 div ?s d"
    "t' = max_target * 1000000000000000000 div ?s d'"
    using p assms(3,4) by (auto simp: diff_to_target_standard_def big_div_def Let_def split: if_splits)
  ultimately show ?thesis
    by (simp add: div_le_mono2)
qed

lemma repr_pow2_scaled:
  assumes "k \<le> 68"
  shows "repr (2 ^ k * 1000000000000000000 :: rat)"
proof -
  have p: "(2 ^ k :: rat) = 2 powi int k" by (simp add: power_int_def)
  have c: "(1000000000000000000 :: rat) = 3814697265625 * 2 powi 18" by (simp add: power_int_def)
  have eq: "(2 ^ k * 1000000000000000000 :: rat) = of_int 3814697265625 * 2 powi (int k + 18)"
    by (simp only: p c powi_add2 mult.commute mult.left_commute of_int_numeral)
  have "(2 ^ k * 1000000000000000000 :: rat) \<le> 2 ^ k * 2 powi 60"
    by (intro mult_left_mono) (simp_all add: power_int_def)
  also have "\<dots> = 2 powi (int k + 60)" by (simp only: p powi_add2)
  also have "\<dots> < f64_limit" unfolding f64_limit_def using assms by (simp only: powi_less2)
  finally have "2 ^ k * 1000000000000000000 < f64_limit" .
  then show ?thesis
    unfolding repr_def
  proof (intro exI conjI)
    show "2 ^ k * 1000000000000000000 = of_int 3814697265625 * (2::rat) powi (int k + 18)"
      by (rule eq)
    show "\<bar>2 ^ k * 1000000000000000000 :: rat\<bar> < f64_limit"
      if "2 ^ k * 1000000000000000000 < f64_limit"
      using that by simp
  qed simp_all
qed

lemma scaled_ge_1e18:
  assumes "fle (Fin 1) d"
  shows "10 ^ 18 \<le> to_uint 128 (fmul d (Fin 1000000000000000000))"
proof -
  have r: "repr 1000000000000000000" using repr_pow2_scaled [of 0] by simp
  have "to_uint 128 (fmul (Fin 1) (Fin 1000000000000000000))
      \<le> to_uint 128 (fmul d (Fin 1000000000000000000))"
    by (intro to_uint_mono fmul_mono_right assms) simp
  moreover have "to_uint 128 (fmul (Fin 1) (Fin 1000000000000000000)) = 10 ^ 18"
    by (simp add: rnd_exact [OF r] to_uint_def)
  ultimately show ?thesis by simp
qed

text \<open>
  The conversion never panics on a difficulty of at least 1, infinity included, and the
  target is positive and stays within the 224-bit maximum.
\<close>

lemma diff_to_target_total:
  assumes "fle (Fin 1) d"
  shows "\<exists>t. diff_to_target default_env d = Some t \<and> 0 < t \<and> t \<le> max_target"
proof -
  let ?s = "to_uint 128 (fmul d (Fin 1000000000000000000))"
  have s: "10 ^ 18 \<le> ?s" by (rule scaled_ge_1e18 [OF assms])
  have b: "?s < 2 ^ 128" by (rule to_uint_bound)
  have "\<not> fle d (Fin 0)" using assms by (cases d) auto
  then have "diff_to_target default_env d = Some (max_target * 10 ^ 18 div ?s)"
    using s by (auto simp: diff_to_target_def default_env_def diff_to_target_standard_def big_div_def Let_def)
  moreover have "max_target * 10 ^ 18 div ?s \<le> max_target * 10 ^ 18 div 10 ^ 18"
    using s by (intro div_le_mono2) simp_all
  moreover have "0 < max_target * 10 ^ 18 div ?s"
  proof -
    have "(2::nat) ^ 128 \<le> max_target * 10 ^ 18" by (simp add: max_target_def)
    then have "?s \<le> max_target * 10 ^ 18" using b by linarith
    then show ?thesis using s by (simp add: div_greater_zero_iff)
  qed
  ultimately show ?thesis by auto
qed

lemma diff_to_target_total_witness:
  "\<exists>t. diff_to_target default_env (Fin 8192) = Some t \<and> 0 < t \<and> t \<le> max_target"
proof -
  have "fle (Fin 1) (Fin 8192)" by simp
  from diff_to_target_total [OF this] show ?thesis .
qed

text \<open>Outside that range it can panic: a NaN or a tiny positive difficulty divides by zero.\<close>

lemma diff_to_target_panics:
  "diff_to_target default_env NaN = None"
  "0 < q \<Longrightarrow> q \<le> 1 / 2 ^ 61 \<Longrightarrow> diff_to_target default_env (Fin q) = None"
proof -
  show "diff_to_target default_env NaN = None"
    by (simp add: diff_to_target_def default_env_def diff_to_target_standard_def big_div_def to_uint_def)
next
  assume q: "0 < q" "q \<le> 1 / 2 ^ 61"
  have "q * 1000000000000000000 \<le> 1 / 2 ^ 61 * 1000000000000000000"
    using q(2) by (intro mult_right_mono) simp_all
  also have "\<dots> \<le> (1 / 2 :: rat)" by simp
  finally have "to_uint 128 (rnd (q * 1000000000000000000)) = 0" by (rule to_uint_small)
  then show "diff_to_target default_env (Fin q) = None"
    using q(1) by (simp add: diff_to_target_def default_env_def diff_to_target_standard_def big_div_def)
qed

lemma diff_to_target_standard_pow2:
  assumes "k \<le> 68"
  shows "diff_to_target_standard (Fin (2 ^ k)) = Some (max_target div 2 ^ k)"
proof -
  have "(2::nat) ^ k \<le> 2 ^ 68" using assms by (intro power_increasing) simp_all
  then have "(2::nat) ^ k * 1000000000000000000 \<le> 2 ^ 68 * 1000000000000000000"
    by (rule mult_right_mono) simp
  also have "\<dots> \<le> 2 ^ 128 - 1" by simp
  finally have b: "(2::nat) ^ k * 1000000000000000000 \<le> 2 ^ 128 - 1" .
  have "(2 ^ k * 1000000000000000000 :: rat) = of_nat (2 ^ k * 1000000000000000000)"
    by simp
  then have "nat \<lfloor>2 ^ k * 1000000000000000000 :: rat\<rfloor> = 2 ^ k * 1000000000000000000"
    by (simp only: floor_of_nat nat_int)
  then have s: "to_uint 128 (rnd (2 ^ k * 1000000000000000000)) = 2 ^ k * 1000000000000000000"
    using b unfolding rnd_exact [OF repr_pow2_scaled [OF assms]] to_uint_def
    by (simp only: f64.case min_absorb1) (simp add: not_le)
  have "max_target * 1000000000000000000 div (2 ^ k * 1000000000000000000) = max_target div 2 ^ k"
    by (rule div_mult_mult2) simp
  moreover have "\<not> (2::rat) ^ k \<le> 0" by (simp add: not_le)
  ultimately show ?thesis
    by (simp add: diff_to_target_standard_def big_div_def s Let_def)
qed

lemma diff_to_target_antitone_witness:
  "max_target div 2 ^ 13 \<le> max_target div 2 ^ 1"
proof -
  have t1: "diff_to_target_standard (Fin (2 ^ 1)) = Some (max_target div 2 ^ 1)"
    and t2: "diff_to_target_standard (Fin (2 ^ 13)) = Some (max_target div 2 ^ 13)"
    by (rule diff_to_target_standard_pow2, simp)+
  have "flt (Fin 0) (Fin (2 ^ 1))" "fle (Fin (2 ^ 1)) (Fin (2 ^ 13))" by simp_all
  from diff_to_target_antitone [OF this t1 t2] show ?thesis .
qed

text \<open>
  For a difficulty that is a power of two the target is exactly the difficulty-1 target
  shifted right: the scaling by \<open>10^18\<close> and the float arithmetic lose nothing.
\<close>

lemma diff_to_target_pow2:
  assumes "k \<le> 68"
  shows "diff_to_target default_env (Fin (2 ^ k)) = Some (max_target div 2 ^ k)"
  by (simp add: diff_to_target_def default_env_def diff_to_target_standard_pow2 [OF assms])

lemma diff_to_target_pow2_witness:
  "diff_to_target default_env (Fin (2 ^ 13)) = Some (max_target div 2 ^ 13)"
  by (rule diff_to_target_pow2) simp

text \<open>
  For the 32-bit compact form the header carries, both branches of the decoder are the
  one formula mantissa times 256 to the exponent over 256 cubed.
\<close>

lemma calculate_target_formula:
  "calculate_target (ucast (b :: u32)) = (unat b mod 2 ^ 24) * 256 ^ (unat b div 2 ^ 24) div 256 ^ 3"
proof -
  let ?e = "unat b div 2 ^ 24" and ?m = "unat b mod 2 ^ 24"
  have "unat b < 2 ^ 32" using unsigned_less [of b] by simp
  then have e: "?e < 256" by auto
  have eu: "unat (drop_bit 24 (ucast b :: u64)) = ?e"
  proof -
    have "unat (drop_bit 24 (ucast b :: u64)) = drop_bit 24 (take_bit 64 (unat b))"
      by (simp add: unat_drop_bit_eq unsigned_ucast_eq)
    then show ?thesis
      using \<open>unat b < 2 ^ 32\<close> by (simp add: drop_bit_eq_div take_bit_eq_mod)
  qed
  have "and (ucast b :: u64) 0xFFFFFF = take_bit 24 (ucast b)"
    by (simp add: take_bit_eq_mask mask_eq_exp_minus_1)
  then have mu: "unat (and (ucast b :: u64) 0xFFFFFF) = ?m"
  proof -
    have "unat (take_bit 24 (ucast b :: u64)) = take_bit 24 (take_bit 64 (unat b))"
      by (simp only: unsigned_take_bit_eq unsigned_ucast_eq) simp
    then show ?thesis
      using \<open>and (ucast b :: u64) 0xFFFFFF = take_bit 24 (ucast b)\<close>
      by (simp only: take_bit_take_bit) (simp add: take_bit_eq_mod)
  qed
  have p: "(256::nat) ^ n = 2 ^ (8 * n)" for n
    by (simp add: power_mult)
  have ct: "calculate_target (ucast b) = (if ?e \<le> 3 then drop_bit (8 * (3 - ?e)) ?m
      else push_bit ((8 * (?e - 3)) mod 2 ^ 32) ?m)"
    by (simp only: calculate_target_def Let_def eu mu)
  show ?thesis
  proof (cases "?e \<le> 3")
    case True
    have "?m * 256 ^ ?e div 256 ^ 3 = ?m * 256 ^ ?e div (256 ^ ?e * 256 ^ (3 - ?e))"
      using True by (simp only: power_add [symmetric]) simp
    also have "\<dots> = ?m div 256 ^ (3 - ?e)"
      by (simp add: mult.commute div_mult_mult1)
    finally show ?thesis
      using True by (simp only: ct drop_bit_eq_div p if_True)
  next
    case False
    have "?m * 256 ^ ?e div 256 ^ 3 = ?m * (256 ^ (?e - 3) * 256 ^ 3) div 256 ^ 3"
      using False by (simp only: power_add [symmetric]) simp
    also have "\<dots> = ?m * 256 ^ (?e - 3)" by simp
    finally have "?m * 256 ^ ?e div 256 ^ 3 = ?m * 256 ^ (?e - 3)" .
    moreover have "8 * (?e - 3) mod 2 ^ 32 = 8 * (?e - 3)" using e by simp
    ultimately show ?thesis
      using False by (simp only: ct push_bit_eq_mult p if_False)
  qed
qed

section \<open>The job formats agree\<close>

lemma le_nat_bound: "le_nat bs < 256 ^ length bs"
proof (induction bs)
  case (Cons b bs)
  have "unat b < 256" using unsigned_less [of b] by simp
  with Cons show ?case by simp
qed simp

lemma unat_from_le_bytes: "length bs = 8 \<Longrightarrow> unat (from_le_bytes bs) = le_nat bs"
  unfolding from_le_bytes_def
  by (subst unat_of_nat) (use le_nat_bound [of bs] in simp)

lemma nibbles:
  fixes u x :: nat
  assumes "u < 256"
  shows "(u + 256 * x) div 16 div 16 = x" "(u + 256 * x) div 16 mod 16 = u div 16"
    "(u + 256 * x) mod 16 = u mod 16"
proof -
  have s: "u + 256 * x = u + 16 * x * 16" by simp
  have e: "(u + 256 * x) div 16 = u div 16 + 16 * x"
    unfolding s by (subst div_mult_self1) simp_all
  have u: "u div 16 < 16" using assms by (simp add: less_mult_imp_div_less)
  show "(u + 256 * x) div 16 div 16 = x" using u by (simp add: e)
  show "(u + 256 * x) div 16 mod 16 = u div 16" using u by (simp add: e)
  show "(u + 256 * x) mod 16 = u mod 16"
    unfolding s by (rule mod_mult_self1)
qed

lemma radix_le_nat: "radix_digits 16 (2 * length bs) (le_nat (rev bs)) = hex_encode bs"
proof (induction bs rule: rev_induct)
  case Nil
  show ?case by (simp add: hex_encode_def)
next
  case (snoc b bs)
  let ?v = "unat b + 256 * le_nat (rev bs)"
  have b: "unat b < 256" using unsigned_less [of b] by simp
  have len: "2 * length (bs @ [b]) = Suc (Suc (2 * length bs))" by simp
  have v: "le_nat (rev (bs @ [b])) = ?v" by simp
  show ?case
    unfolding len v
    using snoc by (simp add: nibbles [OF b] hex_encode_def hex_byte_eq)
qed

lemma hex16_be: "length bs = 8 \<Longrightarrow> hex16 (from_be_bytes bs) = hex_encode bs"
  using radix_le_nat [of bs] by (simp add: hex16_def from_be_bytes_def unat_from_le_bytes)

lemma hex16_le: "length bs = 8 \<Longrightarrow> hex16 (from_le_bytes bs) = hex_encode (rev bs)"
  using radix_le_nat [of "rev bs"] by (simp add: hex16_def unat_from_le_bytes)

lemma hex_encode_append: "hex_encode (xs @ ys) = hex_encode xs @ hex_encode ys"
  by (simp add: hex_encode_def)

lemma four_words:
  assumes "length bs = 32"
  shows "List.map_filter (u64_at rd bs) [0..<4]
    = [rd (take 8 bs), rd (take 8 (drop 8 bs)), rd (take 8 (drop 16 bs)), rd (take 8 (drop 24 bs))]"
  using assms by (simp add: u64_at_def List.map_filter_def upt_rec)

lemma take_five: "take 5 [a, b, c, d, e] = [a, b, c, d, e]"
  by simp

lemma split_32:
  assumes "length bs = 32"
  shows "bs = take 8 bs @ take 8 (drop 8 bs) @ take 8 (drop 16 bs) @ take 8 (drop 24 bs)"
proof -
  have "drop 8 bs = take 8 (drop 8 bs) @ drop 16 bs"
    using append_take_drop_id [of 8 "drop 8 bs"] by simp
  moreover have "drop 16 bs = take 8 (drop 16 bs) @ drop 24 bs"
    using append_take_drop_id [of 8 "drop 16 bs"] by simp
  moreover have "drop 24 bs = take 8 (drop 24 bs)"
    using assms by simp
  ultimately show ?thesis
    by (metis append_take_drop_id)
qed

text \<open>
  For a 32-byte header hash the byte-swapping BzMiner format is the same 80 characters
  as the IceRiver format: the hash in hexadecimal and then the timestamp's little-endian bytes.
\<close>

lemma large_job_params_equiv:
  assumes "length bs = 32"
  shows "generate_large_job_params bs ts = Some (generate_iceriver_job_params bs ts)
         \<and> length (generate_iceriver_job_params bs ts) = 80"
proof -
  let ?p = "\<lambda>k. take 8 (drop k bs)"
  have l: "length (take 8 bs) = 8" "length (?p 8) = 8" "length (?p 16) = 8" "length (?p 24) = 8"
    using assms by auto
  have "concat (map hex16 (take 5 (List.map_filter (u64_at from_be_bytes bs) [0..<4]
        @ [from_le_bytes (to_be_bytes ts)])))
      = hex_encode (take 8 bs @ ?p 8 @ ?p 16 @ ?p 24) @ hex_encode (to_le_bytes ts)"
    by (simp only: four_words [OF assms] append_Cons append_Nil take_five
        list.map concat.simps hex16_be [OF l(1)] hex16_be [OF l(2)] hex16_be [OF l(3)]
        hex16_be [OF l(4)] hex16_le [OF length_to_be_bytes, unfolded to_be_bytes_def rev_rev_ident]
        hex_encode_append append_assoc append_Nil2 to_be_bytes_def)
  then have "generate_large_job_params bs ts = Some (generate_iceriver_job_params bs ts)"
    using split_32 [OF assms]
    by (simp add: generate_large_job_params_def generate_iceriver_job_params_def four_words [OF assms])
  then show ?thesis
    using assms by (simp add: generate_iceriver_job_params_def)
qed

lemma large_job_params_equiv_witness:
  "generate_large_job_params (replicate 32 0xAB) 7
   = Some (concat (replicate 32 ''ab'') @ ''0700000000000000'')"
proof -
  have "length (replicate 32 (0xAB :: u8)) = 32" by simp
  from large_job_params_equiv [OF this, of 7]
  have "generate_large_job_params (replicate 32 0xAB) 7
      = Some (generate_iceriver_job_params (replicate 32 0xAB) 7)" by simp
  also have "generate_iceriver_job_params (replicate 32 0xAB) 7
      = concat (replicate 32 ''ab'') @ ''0700000000000000''"
    by code_simp
  finally show ?thesis .
qed

section \<open>The pre-image is unambiguous\<close>

definition wf_hash :: "hash \<Rightarrow> bool" where
  "wf_hash h \<longleftrightarrow> length h = 32"

definition wf_header :: "header \<Rightarrow> bool" where
  "wf_header h \<longleftrightarrow>
     length (parents_by_level h) < 2 ^ 64
     \<and> (\<forall>level\<in>set (parents_by_level h). length level < 2 ^ 64 \<and> list_all wf_hash level)
     \<and> wf_hash (hash_merkle_root h) \<and> wf_hash (accepted_id_merkle_root h)
     \<and> wf_hash (utxo_commitment h) \<and> wf_hash (pruning_point h)"

lemma length_le_bytes [simp]: "length (le_bytes n w) = n"
  by (simp add: le_bytes_def)

lemma length_len_bytes [simp]: "length (len_bytes n) = 8"
  by (simp add: len_bytes_def)

lemma le_nat_le_bytes: "le_nat (map (\<lambda>i. word_of_nat (v div 256 ^ i)) [0..<n]) = v mod 256 ^ n"
proof (induction n arbitrary: v)
  case 0
  show ?case by simp
next
  case (Suc n)
  have step: "[0..<Suc n] = 0 # map Suc [0..<n]"
    by (simp add: map_Suc_upt upt_conv_Cons del: upt_Suc)
  have d: "v div 256 ^ Suc i = v div 256 div 256 ^ i" for i
    by (simp add: div_mult2_eq)
  have "le_nat (map (\<lambda>i. word_of_nat (v div 256 ^ i)) [0..<Suc n])
      = unat (word_of_nat v :: u8)
        + 256 * le_nat (map (\<lambda>i. word_of_nat (v div 256 div 256 ^ i)) [0..<n])"
    by (simp only: step list.map le_nat.simps map_map o_def d power_0 div_by_1)
  also have "\<dots> = v mod 256 + 256 * (v div 256 mod 256 ^ n)"
    by (simp only: Suc) (simp add: unat_of_nat)
  also have "\<dots> = v mod 256 ^ Suc n"
    by (simp add: mod_mult2_eq)
  finally show ?case .
qed

lemma le_bytes_inj:
  assumes "le_bytes n v = le_bytes n (w :: 'a::len word)" and "LENGTH('a) \<le> 8 * n"
  shows "v = w"
proof -
  have "(2::nat) ^ LENGTH('a) \<le> 2 ^ (8 * n)" using assms(2) by (rule power_increasing) simp
  then have p: "(2::nat) ^ LENGTH('a) \<le> 256 ^ n" by (simp add: power_mult)
  have b: "unat (x :: 'a word) < 256 ^ n" for x
    by (rule order_less_le_trans [OF unsigned_less p])
  have "unat v mod 256 ^ n = unat w mod 256 ^ n"
    using arg_cong [OF assms(1), of le_nat] by (simp only: le_bytes_def le_nat_le_bytes)
  then have "unat v = unat w" using b by simp
  then show ?thesis by (simp only: word_unat_eq_iff)
qed

lemma len_bytes_inj: "len_bytes m = len_bytes n \<Longrightarrow> m < 2 ^ 64 \<Longrightarrow> n < 2 ^ 64 \<Longrightarrow> m = n"
proof -
  assume l: "len_bytes m = len_bytes n" and b: "m < 2 ^ 64" "n < 2 ^ 64"
  have "(word_of_nat m :: u64) = word_of_nat n"
    using l unfolding len_bytes_def by (rule le_bytes_inj) simp
  then have "unat (word_of_nat m :: u64) = unat (word_of_nat n :: u64)" by simp
  then show ?thesis using b by (simp add: unat_of_nat)
qed

lemma concat_hashes_inj:
  assumes "list_all wf_hash xs" and "list_all wf_hash ys" and "length xs = length ys"
    and "concat xs @ r = concat ys @ r'"
  shows "xs = ys \<and> r = r'"
  using assms(3,1,2,4)
  by (induction xs ys rule: list_induct2) (auto simp: wf_hash_def)

lemma append_split: "a @ x = b @ y \<Longrightarrow> length a = length b \<Longrightarrow> a = b \<and> x = y"
  by (simp add: append_eq_append_conv)

definition level_bytes :: "hash list \<Rightarrow> u8 list" where
  "level_bytes level = len_bytes (length level) @ concat level"

lemma levels_inj:
  assumes "length ls = length ls'"
    and "\<forall>l\<in>set ls. length l < 2 ^ 64 \<and> list_all wf_hash l"
    and "\<forall>l\<in>set ls'. length l < 2 ^ 64 \<and> list_all wf_hash l"
    and "concat (map level_bytes ls) @ r = concat (map level_bytes ls') @ r'"
  shows "ls = ls' \<and> r = r'"
  using assms
proof (induction ls ls' rule: list_induct2)
  case Nil
  then show ?case by simp
next
  case (Cons l ls l' ls')
  let ?t = "concat (map level_bytes ls) @ r" and ?t' = "concat (map level_bytes ls') @ r'"
  have "len_bytes (length l) @ concat l @ ?t = len_bytes (length l') @ concat l' @ ?t'"
    using Cons.prems(3)
    by (simp only: list.map concat.simps level_bytes_def [of l] level_bytes_def [of l'] append_assoc)
  from append_split [OF this]
  have "len_bytes (length l) = len_bytes (length l')" and c: "concat l @ ?t = concat l' @ ?t'"
    by simp_all
  then have "length l = length l'"
    using Cons.prems(1,2) by (intro len_bytes_inj) simp_all
  then have "l = l' \<and> ?t = ?t'"
    using Cons.prems(1,2) c by (intro concat_hashes_inj) simp_all
  then show ?case using Cons.IH Cons.prems(1,2) by simp
qed

lemma dropWhile_zero_inj:
  assumes "length xs = length ys"
    and "dropWhile (\<lambda>b. b = 0) xs = dropWhile (\<lambda>b. b = (0::u8)) ys"
  shows "xs = ys"
proof -
  have r: "zs = replicate (length zs - length (dropWhile (\<lambda>b. b = 0) zs)) 0 @ dropWhile (\<lambda>b. b = 0) zs"
    for zs :: "u8 list"
  proof (induction zs)
    case (Cons z zs)
    have "length (dropWhile (\<lambda>b. b = 0) zs) \<le> length zs" by (rule length_dropWhile_le)
    with Cons show ?case by (auto simp: Suc_diff_le)
  qed simp
  show ?thesis using r [of xs] r [of ys] assms by metis
qed

lemma length_blue_work_be [simp]: "length (blue_work_be w) = 24"
  by (simp add: blue_work_be_def)

lemma blue_work_be_inj: "blue_work_be v = blue_work_be w \<Longrightarrow> v = w"
  unfolding blue_work_be_def rev_is_rev_conv by (erule le_bytes_inj) simp

lemma blue_work_field_inj:
  fixes v v' :: "192 word"
  defines "w \<equiv> \<lambda>v. dropWhile (\<lambda>b. b = 0) (blue_work_be v)"
  assumes "len_bytes (length (w v)) = len_bytes (length (w v'))" and "w v @ p = w v' @ p'"
  shows "v = v' \<and> p = p'"
proof -
  have "length (w x) \<le> 24" for x
    using length_dropWhile_le [of "\<lambda>b. b = 0" "blue_work_be x"] by (simp add: w_def)
  then have "length (w x) < 2 ^ 64" for x
    by (rule order_le_less_trans) simp
  then have "length (w v) = length (w v')"
    using assms(2) by (intro len_bytes_inj)
  then have wv: "w v = w v'" and p: "p = p'"
    using append_split [OF assms(3)] by blast+
  from wv have "blue_work_be v = blue_work_be v'"
    unfolding w_def by (rule dropWhile_zero_inj [rotated]) (simp only: length_blue_work_be)
  with p show ?thesis by (blast dest: blue_work_be_inj)
qed

lemma header_preimage_eq:
  "header_preimage h =
     le_bytes 2 (version h) @ len_bytes (length (parents_by_level h))
     @ concat (map level_bytes (parents_by_level h))
     @ hash_merkle_root h @ accepted_id_merkle_root h @ utxo_commitment h
     @ le_bytes 8 (0 :: u64) @ le_bytes 4 (bits h) @ le_bytes 8 (0 :: u64)
     @ le_bytes 8 (daa_score h) @ le_bytes 8 (blue_score h)
     @ len_bytes (length (dropWhile (\<lambda>b. b = 0) (blue_work_be (blue_work h))))
     @ dropWhile (\<lambda>b. b = 0) (blue_work_be (blue_work h)) @ pruning_point h"
proof -
  have "(\<lambda>level. len_bytes (length level) @ concat level) = level_bytes"
    by (simp add: fun_eq_iff level_bytes_def)
  then show ?thesis by (simp add: header_preimage_def Let_def)
qed

lemma fields_split:
  assumes "a @ b @ c @ z @ d @ z' @ e @ f @ g @ w @ p = a' @ b' @ c' @ y @ d' @ y' @ e' @ f' @ g' @ w' @ p'"
    and "length a = length a'" "length b = length b'" "length c = length c'"
    and "length z = length y" "length d = length d'" "length z' = length y'"
    and "length e = length e'" "length f = length f'" "length g = length g'"
  shows "a = a' \<and> b = b' \<and> c = c' \<and> d = d' \<and> e = e' \<and> f = f' \<and> g = g' \<and> w @ p = w' @ p'"
  using assms by simp

text \<open>
  C33: the byte stream hashed for a job determines every header field except the timestamp, the
  nonce and the cached hash, and does not depend on those three: two well-formed headers share
  a pre-image exactly when they agree on all the other fields.
\<close>

theorem header_preimage_unambiguous:
  assumes "wf_header h" and "wf_header h'"
  shows "header_preimage h = header_preimage h' \<longleftrightarrow>
           h' = h\<lparr>hdr_hash := hdr_hash h', hdr_timestamp := hdr_timestamp h', nonce := nonce h'\<rparr>"
proof
  assume "h' = h\<lparr>hdr_hash := hdr_hash h', hdr_timestamp := hdr_timestamp h', nonce := nonce h'\<rparr>"
  then have "header_preimage h' = header_preimage (h\<lparr>hdr_hash := hdr_hash h',
      hdr_timestamp := hdr_timestamp h', nonce := nonce h'\<rparr>)" by simp
  then show "header_preimage h = header_preimage h'" by (simp add: header_preimage_def)
next
  assume eq: "header_preimage h = header_preimage h'"
  let ?w = "\<lambda>h. dropWhile (\<lambda>b. b = 0) (blue_work_be (blue_work h))"
  let ?rest = "\<lambda>h. hash_merkle_root h @ accepted_id_merkle_root h @ utxo_commitment h
     @ le_bytes 8 (0 :: u64) @ le_bytes 4 (bits h) @ le_bytes 8 (0 :: u64)
     @ le_bytes 8 (daa_score h) @ le_bytes 8 (blue_score h)
     @ len_bytes (length (?w h)) @ ?w h @ pruning_point h"
  have v: "le_bytes 2 (version h) = le_bytes 2 (version h')"
    and e1: "len_bytes (length (parents_by_level h)) @ concat (map level_bytes (parents_by_level h)) @ ?rest h
      = len_bytes (length (parents_by_level h')) @ concat (map level_bytes (parents_by_level h')) @ ?rest h'"
    using append_split [OF eq [unfolded header_preimage_eq]] by simp_all
  have ln: "len_bytes (length (parents_by_level h)) = len_bytes (length (parents_by_level h'))"
    and e2: "concat (map level_bytes (parents_by_level h)) @ ?rest h
      = concat (map level_bytes (parents_by_level h')) @ ?rest h'"
    using append_split [OF e1] by simp_all
  have ll: "length (parents_by_level h) = length (parents_by_level h')"
    using ln assms by (intro len_bytes_inj) (simp_all add: wf_header_def)
  have lv: "parents_by_level h = parents_by_level h'" and rest: "?rest h = ?rest h'"
    using levels_inj [OF ll _ _ e2] assms unfolding wf_header_def by blast+
  have len: "length (hash_merkle_root h) = length (hash_merkle_root h')"
    "length (accepted_id_merkle_root h) = length (accepted_id_merkle_root h')"
    "length (utxo_commitment h) = length (utxo_commitment h')"
    using assms by (simp_all add: wf_header_def wf_hash_def)
  note f = fields_split [OF rest len, unfolded length_le_bytes length_len_bytes, OF refl refl refl refl refl refl]
  have "blue_work h = blue_work h' \<and> pruning_point h = pruning_point h'"
    by (rule blue_work_field_inj) (use f in blast)+
  moreover have "version h = version h'" "bits h = bits h'" "daa_score h = daa_score h'"
    "blue_score h = blue_score h'"
    using v f by (auto dest!: le_bytes_inj)
  ultimately show "h' = h\<lparr>hdr_hash := hdr_hash h', hdr_timestamp := hdr_timestamp h', nonce := nonce h'\<rparr>"
    using lv f by simp
qed

definition sample_header :: header where
  "sample_header = \<lparr>hdr_hash = replicate 32 7, version = 1,
     parents_by_level = [[replicate 32 1, replicate 32 2], [replicate 32 3]],
     hash_merkle_root = replicate 32 4, accepted_id_merkle_root = replicate 32 5,
     utxo_commitment = replicate 32 6, hdr_timestamp = 1000, bits = 0x1e7fffff, nonce = 0,
     daa_score = 42, blue_work = 0xABCD, blue_score = 41, pruning_point = replicate 32 8\<rparr>"

lemma wf_sample_header: "wf_header sample_header" "wf_header (sample_header\<lparr>nonce := n, hdr_timestamp := t\<rparr>)"
  by (simp_all add: wf_header_def sample_header_def wf_hash_def)

lemma header_preimage_unambiguous_witness:
  "header_preimage sample_header = header_preimage (sample_header\<lparr>nonce := 9, hdr_timestamp := 1001\<rparr>)"
  using header_preimage_unambiguous [OF wf_sample_header(1) wf_sample_header(2) [where n = 9 and t = 1001]]
  by simp

end
