(* ===== verification/MiningState.thy ===== *)
theory MiningState
  imports HashMaps Hasher
begin

text \<open>
  \<^verbatim>\<open>mining_state.rs\<close>: the jobs one connection has been given.  Jobs live in a ring of
  \<open>MAX_JOBS\<close> slots; a slot remembers the id of the job it holds, and the difficulty that was
  active when that job was published.  A \<open>Mutex\<close> field is a field of the record: every
  operation below is one critical section of the code.  The workspace is built with overflow
  checks in every profile, so the counter's increment panics (\<open>None\<close>) at the last \<^verbatim>\<open>u64\<close>.
  The abstract specification is the log of everything published.
\<close>

section \<open>State\<close>

definition max_jobs_const :: u64 where
  "max_jobs_const = 300"

text \<open>A decoded payout address, identified by its text.\<close>

datatype kaspa_address = Address string

primrec address_text :: "kaspa_address \<Rightarrow> string" where
  "address_text (Address s) = s"

text \<open>A consensus block: its header and its transactions, whose type is not part of this repository.\<close>

record 'tx block =
  block_header :: header
  transactions :: "'tx list"

record 'tx job =
  job_block :: "'tx block"
  pre_pow_hash :: hash

record 'tx mining_state =
  jobs :: "(u64, 'tx job) hash_map"
  job_ids :: "(u64, u64) hash_map"
  job_diffs :: "(u64, kaspa_diff) hash_map"
  job_counter :: u64
  big_diff :: nat
  initialized :: bool
  use_big_job :: bool
  ms_connect_time :: nat
  stratum_diff :: "kaspa_diff option"
  max_jobs :: u16
  last_header :: "header option"

definition ms_new :: "nat \<Rightarrow> 'tx mining_state" where
  "ms_new now = \<lparr>jobs = [], job_ids = [], job_diffs = [], job_counter = 0, big_diff = 0,
     initialized = False, use_big_job = False, ms_connect_time = now, stratum_diff = None,
     max_jobs = ucast max_jobs_const, last_header = None\<rparr>"

section \<open>Operations\<close>

definition slot_of :: "u64 \<Rightarrow> u64" where
  "slot_of jid = jid mod max_jobs_const"

definition add_job :: "'tx job \<Rightarrow> 'tx mining_state \<Rightarrow> (u64 \<times> 'tx mining_state) option" where
  "add_job j s =
     (if job_counter s = - 1 then None
      else let idx = job_counter s + 1;
               slot = slot_of idx
           in Some (idx, s\<lparr>job_counter := idx,
                jobs := hm_insert slot j (jobs s),
                job_ids := hm_insert slot idx (job_ids s),
                job_diffs := (case stratum_diff s of
                    Some diff \<Rightarrow> hm_insert slot diff (job_diffs s)
                  | None \<Rightarrow> hm_remove slot (job_diffs s))\<rparr>))"

definition get_job :: "'tx mining_state \<Rightarrow> u64 \<Rightarrow> 'tx job option" where
  "get_job s jid =
     (if hm_get (job_ids s) (slot_of jid) \<noteq> Some jid then None
      else hm_get (jobs s) (slot_of jid))"

definition get_job_id_at_slot :: "'tx mining_state \<Rightarrow> u64 \<Rightarrow> u64 option" where
  "get_job_id_at_slot s slot = hm_get (job_ids s) (slot_of slot)"

definition get_stored_job_ids :: "'tx mining_state \<Rightarrow> u64 list" where
  "get_stored_job_ids s = hm_values (job_ids s)"

definition latest_job :: "'tx mining_state \<Rightarrow> (u64 \<times> 'tx job) option" where
  "latest_job s =
     (case get_stored_job_ids s of
        [] \<Rightarrow> None
      | jid # jids \<Rightarrow>
          let newest = foldr max jids jid in map_option (\<lambda>j. (newest, j)) (get_job s newest))"

definition get_job_diff :: "'tx mining_state \<Rightarrow> u64 \<Rightarrow> kaspa_diff option" where
  "get_job_diff s jid =
     (if hm_get (job_ids s) (slot_of jid) \<noteq> Some jid then None
      else hm_get (job_diffs s) (slot_of jid))"

definition set_big_diff :: "nat \<Rightarrow> 'tx mining_state \<Rightarrow> 'tx mining_state" where
  "set_big_diff d s = s\<lparr>big_diff := d\<rparr>"

definition set_initialized :: "bool \<Rightarrow> 'tx mining_state \<Rightarrow> 'tx mining_state" where
  "set_initialized b s = s\<lparr>initialized := b\<rparr>"

definition set_use_big_job :: "bool \<Rightarrow> 'tx mining_state \<Rightarrow> 'tx mining_state" where
  "set_use_big_job b s = s\<lparr>use_big_job := b\<rparr>"

definition set_stratum_diff :: "kaspa_diff \<Rightarrow> 'tx mining_state \<Rightarrow> 'tx mining_state" where
  "set_stratum_diff d s = s\<lparr>stratum_diff := Some d\<rparr>"

definition set_last_header :: "header \<Rightarrow> 'tx mining_state \<Rightarrow> 'tx mining_state" where
  "set_last_header h s = s\<lparr>last_header := Some h\<rparr>"

section \<open>Histories\<close>

text \<open>
  The log of a connection: one entry per published job, oldest first, with the difficulty in
  force at that moment.  \<open>published s hist\<close> holds when the operations, in some order, lead from
  a new state to \<open>s\<close> while publishing \<open>hist\<close>.
\<close>

type_synonym 'tx job_log = "('tx job \<times> kaspa_diff option) list"

inductive published :: "'tx mining_state \<Rightarrow> 'tx job_log \<Rightarrow> bool" where
  new: "published (ms_new now) []"
| add: "published s hist \<Longrightarrow> add_job j s = Some (jid, s') \<Longrightarrow> published s' (hist @ [(j, stratum_diff s)])"
| big_diff: "published s hist \<Longrightarrow> published (set_big_diff d s) hist"
| initialized: "published s hist \<Longrightarrow> published (set_initialized b s) hist"
| use_big_job: "published s hist \<Longrightarrow> published (set_use_big_job b s) hist"
| stratum_diff: "published s hist \<Longrightarrow> published (set_stratum_diff k s) hist"
| last_header: "published s hist \<Longrightarrow> published (set_last_header h s) hist"

inductive_cases published_NilE: "published s []"

text \<open>What the log says about an id: ids count from 1, and only the newest 300 are kept.\<close>

definition ring_lookup :: "'a list \<Rightarrow> u64 \<Rightarrow> 'a option" where
  "ring_lookup hist jid =
     (if 0 < unat jid \<and> unat jid \<le> length hist \<and> length hist < unat jid + 300
      then Some (hist ! (unat jid - 1)) else None)"

lemma ring_lookup_snoc:
  assumes "Suc (length hist) < 2 ^ 64"
  shows "ring_lookup (hist @ [x]) jid =
     (if unat jid = Suc (length hist) then Some x
      else if unat jid + 300 = Suc (length hist) then None
      else ring_lookup hist jid)"
  by (auto simp: ring_lookup_def nth_append)

text \<open>The invariant that ties the ring to the log.\<close>

definition ring_inv :: "'tx mining_state \<Rightarrow> 'tx job_log \<Rightarrow> bool" where
  "ring_inv s hist \<longleftrightarrow>
     hm_wf (job_ids s) \<and> length hist < 2 ^ 64 \<and> unat (job_counter s) = length hist
     \<and> (\<forall>slot jid. hm_get (job_ids s) slot = Some jid \<longrightarrow> slot = slot_of jid)
     \<and> (\<forall>jid. hm_get (job_ids s) (slot_of jid) = Some jid \<longleftrightarrow> ring_lookup hist jid \<noteq> None)
     \<and> (\<forall>jid j d. ring_lookup hist jid = Some (j, d) \<longrightarrow>
          hm_get (jobs s) (slot_of jid) = Some j \<and> hm_get (job_diffs s) (slot_of jid) = d)"

lemma slot_of_eq_iff: "slot_of a = slot_of b \<longleftrightarrow> unat a mod 300 = unat b mod 300"
  by (simp add: slot_of_def max_jobs_const_def word_unat_eq_iff unat_mod)

lemma ring_inv_new: "ring_inv (ms_new now) []"
  by (auto simp: ring_inv_def ms_new_def ring_lookup_def)

lemma ring_inv_add:
  assumes inv: "ring_inv s hist" and add: "add_job j s = Some (jid, s')"
  shows "unat jid = Suc (length hist) \<and> ring_inv s' (hist @ [(j, stratum_diff s)])"
proof -
  let ?n = "length hist" and ?new = "job_counter s + 1"
  have c: "unat (job_counter s) = ?n" "job_counter s \<noteq> - 1" and jid: "jid = ?new"
    using inv add by (auto simp: ring_inv_def add_job_def Let_def split: if_splits)
  have new: "unat ?new = Suc ?n"
    by (rule unat_succ [OF c(2), unfolded c(1)])
  then have lt: "Suc ?n < 2 ^ 64"
    using unsigned_less [where 'a = nat, of ?new] by simp
  have s': "job_ids s' = hm_insert (slot_of ?new) ?new (job_ids s)"
    "jobs s' = hm_insert (slot_of ?new) j (jobs s)"
    "hm_get (job_diffs s') k = (if k = slot_of ?new then stratum_diff s else hm_get (job_diffs s) k)"
    "job_counter s' = ?new" for k
    using add c by (auto simp: add_job_def Let_def split: option.splits)
  have same: "i = ?new \<or> unat i + 300 = Suc ?n"
    if "slot_of i = slot_of ?new" "ring_lookup hist i \<noteq> None" for i
  proof -
    have "unat i mod 300 = Suc ?n mod 300" and "unat i \<le> ?n" "?n < unat i + 300"
      using that by (auto simp: slot_of_eq_iff new ring_lookup_def split: if_splits)
    then have "300 dvd Suc ?n - unat i" and "0 < Suc ?n - unat i" "Suc ?n - unat i \<le> 300"
      using mod_eq_dvd_iff_nat [of "unat i" "Suc ?n" 300] by simp_all
    then have "Suc ?n - unat i = 300" using dvd_imp_le by force
    then have "unat i + 300 = Suc ?n" by linarith
    then show ?thesis by simp
  qed
  have old: "slot_of i = slot_of ?new" if "unat i + 300 = Suc ?n" for i
  proof -
    have "Suc ?n mod 300 = unat i mod 300" using that by (metis mod_add_self2)
    then show ?thesis by (simp add: slot_of_eq_iff new)
  qed
  have ne: "unat i = Suc ?n \<longleftrightarrow> i = ?new" for i
    using new by (metis word_unat_eq_iff)
  note look = ring_lookup_snoc [OF lt, of "(j, stratum_diff s)", unfolded ne]
  have "ring_inv s' (hist @ [(j, stratum_diff s)])"
    unfolding ring_inv_def
  proof (intro conjI allI impI)
    show "hm_wf (job_ids s')" using inv by (simp add: s' ring_inv_def)
    show "length (hist @ [(j, stratum_diff s)]) < 2 ^ 64" using lt by simp
    show "unat (job_counter s') = length (hist @ [(j, stratum_diff s)])" by (simp add: s' new)
  next
    fix slot i assume "hm_get (job_ids s') slot = Some i"
    then show "slot = slot_of i"
      using inv by (auto simp: s' ring_inv_def split: if_splits)
  next
    fix i
    have "hm_get (job_ids s) (slot_of i) = Some i \<longleftrightarrow> ring_lookup hist i \<noteq> None"
      using inv unfolding ring_inv_def by blast
    then show "(hm_get (job_ids s') (slot_of i) = Some i)
        = (ring_lookup (hist @ [(j, stratum_diff s)]) i \<noteq> None)"
      using same [of i] old [of i] unfolding look by (auto simp: s')
  next
    fix i j' d assume l: "ring_lookup (hist @ [(j, stratum_diff s)]) i = Some (j', d)"
    have o: "ring_lookup hist i = Some (j', d) \<Longrightarrow>
        hm_get (jobs s) (slot_of i) = Some j' \<and> hm_get (job_diffs s) (slot_of i) = d"
      using inv unfolding ring_inv_def by blast
    show "hm_get (jobs s') (slot_of i) = Some j'" "hm_get (job_diffs s') (slot_of i) = d"
      using l o same [of i] unfolding look by (auto simp: s' split: if_splits)
  qed
  then show ?thesis using new jid by simp
qed

lemma ring_inv_published: "published s hist \<Longrightarrow> ring_inv s hist"
proof (induction rule: published.induct)
  case (new now) then show ?case by (rule ring_inv_new)
next
  case (add s hist j jid s') then show ?case using ring_inv_add by blast
qed (simp_all add: ring_inv_def set_big_diff_def set_initialized_def set_use_big_job_def
    set_stratum_diff_def set_last_header_def)

section \<open>The interface the share handler relies on\<close>

text \<open>
  A job store represents a log of published jobs: looking an id up consults the newest 300
  entries, and the latest job is the end of the log.
\<close>

locale job_store =
  fixes represents :: "'s \<Rightarrow> 'j list \<Rightarrow> bool"
    and get :: "'s \<Rightarrow> u64 \<Rightarrow> 'j option"
    and latest :: "'s \<Rightarrow> (u64 \<times> 'j) option"
  assumes get_log: "represents s hist \<Longrightarrow> get s jid = ring_lookup hist jid"
    and latest_log: "represents s hist \<Longrightarrow>
      latest s = (if hist = [] then None else Some (word_of_nat (length hist), last hist))"
    and log_bound: "represents s hist \<Longrightarrow> length hist < 2 ^ 64"
begin

lemma never_aliased:
  assumes "represents s hist" and "represents s' (hist @ later)" and "get s jid = Some j"
  shows "get s' jid = (if length hist + length later < unat jid + 300 then Some j else None)"
  using assms by (auto simp: get_log ring_lookup_def nth_append split: if_splits)

lemma walk_back:
  assumes "represents s hist" and "latest s = Some (newest, j)" and "k < length hist" and "k < 300"
  shows "get s (newest - word_of_nat k) = Some (hist ! (length hist - 1 - k))"
proof -
  have n: "newest = word_of_nat (length hist)" and b: "length hist < 2 ^ 64"
    using assms(1,2) latest_log [OF assms(1)] log_bound [OF assms(1)] by (simp_all split: if_splits)
  have "newest - word_of_nat k = word_of_nat (length hist - k)"
    using assms(3) by (simp add: n of_nat_diff)
  then have "unat (newest - word_of_nat k) = length hist - k"
    using b by (simp add: unat_of_nat)
  then show ?thesis
    using assms by (simp add: get_log ring_lookup_def)
qed

lemma latest_retained:
  assumes "represents s hist" and "latest s = Some (newest, j)"
  shows "get s newest = Some j"
  using walk_back [OF assms, of 0] assms(2) latest_log [OF assms(1)]
  by (auto simp: last_conv_nth split: if_splits)

end

lemma get_job_log: "published s hist \<Longrightarrow> get_job s jid = map_option fst (ring_lookup hist jid)"
  using ring_inv_published [of s hist] unfolding ring_inv_def get_job_def
  by (cases "ring_lookup hist jid") auto

lemma get_job_diff_log:
  "published s hist \<Longrightarrow> get_job_diff s jid = Option.bind (ring_lookup hist jid) snd"
  using ring_inv_published [of s hist] unfolding ring_inv_def get_job_diff_def
  by (cases "ring_lookup hist jid") auto

lemma foldr_max_greatest:
  assumes "m \<in> set (x # xs)" and "\<And>y. y \<in> set (x # xs) \<Longrightarrow> y \<le> (m :: 'a::linorder)"
  shows "foldr max xs x = m"
proof -
  have "foldr max xs x \<in> set (x # xs)" and ge: "\<forall>y\<in>set (x # xs). y \<le> foldr max xs x"
    by (induction xs) (auto simp: max_def)
  then show ?thesis using assms by (metis order_antisym)
qed

lemma latest_job_log:
  assumes "published s hist"
  shows "latest_job s = (if hist = [] then None else Some (word_of_nat (length hist), fst (last hist)))"
proof -
  let ?top = "word_of_nat (length hist) :: u64"
  have inv: "ring_inv s hist" by (rule ring_inv_published [OF assms])
  have live: "i \<in> set (get_stored_job_ids s) \<longleftrightarrow> ring_lookup hist i \<noteq> None" for i
  proof -
    have "i \<in> set (get_stored_job_ids s) \<longleftrightarrow> (\<exists>slot. hm_get (job_ids s) slot = Some i)"
      using inv hm_values_set [of "job_ids s"] unfolding ring_inv_def get_stored_job_ids_def by blast
    also have "\<dots> \<longleftrightarrow> hm_get (job_ids s) (slot_of i) = Some i"
      using inv unfolding ring_inv_def by metis
    finally show ?thesis using inv unfolding ring_inv_def by blast
  qed
  have top: "unat ?top = length hist"
    using inv by (simp add: ring_inv_def unat_of_nat)
  show ?thesis
  proof (cases "hist = []")
    case True
    then have "ring_lookup hist i = None" for i by (simp add: ring_lookup_def) linarith
    then have "i \<notin> set (get_stored_job_ids s)" for i by (simp only: live) simp
    then have "get_stored_job_ids s = []" by (cases "get_stored_job_ids s") auto
    then show ?thesis using True by (simp add: latest_job_def)
  next
    case False
    have newest: "ring_lookup hist ?top = Some (last hist)"
      using False by (simp add: ring_lookup_def top last_conv_nth)
    then have mem: "?top \<in> set (get_stored_job_ids s)" using live by simp
    have le: "i \<le> ?top" if "i \<in> set (get_stored_job_ids s)" for i
      using that live [of i] by (auto simp: ring_lookup_def word_le_nat_alt top split: if_splits)
    obtain x xs where xs: "get_stored_job_ids s = x # xs" using mem by (cases "get_stored_job_ids s") auto
    have "foldr max xs x = ?top"
      using mem le unfolding xs by (rule foldr_max_greatest)
    then show ?thesis
      using False newest get_job_log [OF assms, of ?top] by (simp add: latest_job_def xs Let_def)
  qed
qed

interpretation ring: job_store
  "\<lambda>s hist. \<exists>pub. published s pub \<and> hist = map fst pub" get_job latest_job
proof
  fix s :: "'a mining_state" and hist jid
  assume "\<exists>pub. published s pub \<and> hist = map fst pub"
  then obtain pub where pub: "published s pub" "hist = map fst pub" by blast
  show "get_job s jid = ring_lookup hist jid"
    using get_job_log [OF pub(1)] by (auto simp: pub(2) ring_lookup_def)
  show "latest_job s = (if hist = [] then None else Some (word_of_nat (length hist), last hist))"
    using latest_job_log [OF pub(1)] by (simp add: pub(2) last_map)
  show "length hist < 2 ^ 64"
    using ring_inv_published [OF pub(1)] by (simp add: pub(2) ring_inv_def)
qed

section \<open>Properties\<close>

text \<open>
  C16: the slot ring refines the log of published jobs: an id finds its own job and the
  difficulty in force when it was published as long as it is among the newest 300, and finds
  nothing otherwise; the latest job is the last one published.
\<close>

theorem job_ring_refines_log:
  assumes "published s hist"
  shows "get_job s jid = map_option fst (ring_lookup hist jid)
    \<and> get_job_diff s jid = Option.bind (ring_lookup hist jid) snd
    \<and> latest_job s = (if hist = [] then None else Some (word_of_nat (length hist), fst (last hist)))"
  using get_job_log [OF assms] get_job_diff_log [OF assms] latest_job_log [OF assms] by simp

definition sample_job :: "u8 \<Rightarrow> unit job" where
  "sample_job b = \<lparr>job_block = \<lparr>block_header = sample_header, transactions = [()]\<rparr>,
     pre_pow_hash = [b]\<rparr>"

definition one_job :: "unit mining_state" where
  "one_job = (ms_new 0)\<lparr>job_counter := 1, jobs := [(1, sample_job 1)], job_ids := [(1, 1)]\<rparr>"

definition two_jobs :: "unit mining_state" where
  "two_jobs = one_job\<lparr>job_counter := 2, jobs := [(1, sample_job 1), (2, sample_job 2)],
     job_ids := [(1, 1), (2, 2)]\<rparr>"

lemma published_one_job: "published one_job [(sample_job 1, None)]"
proof -
  have "add_job (sample_job 1) (ms_new 0) = Some (1, one_job)"
    by (simp add: add_job_def ms_new_def one_job_def slot_of_def max_jobs_const_def)
  from published.add [OF published.new this] show ?thesis by (simp add: ms_new_def)
qed

lemma published_two_jobs: "published two_jobs ([(sample_job 1, None)] @ [(sample_job 2, None)])"
proof -
  have "add_job (sample_job 2) one_job = Some (2, two_jobs)"
    by (simp add: add_job_def ms_new_def one_job_def two_jobs_def slot_of_def max_jobs_const_def)
  from published.add [OF published_one_job this] show ?thesis by (simp add: one_job_def ms_new_def)
qed

lemma job_ring_refines_log_witness:
  "get_job two_jobs 1 = Some (sample_job 1) \<and> get_job two_jobs 301 = None
   \<and> latest_job two_jobs = Some (2, sample_job 2)"
  using job_ring_refines_log [OF published_two_jobs, of 1]
    job_ring_refines_log [OF published_two_jobs, of 301]
  by (simp add: ring_lookup_def)

text \<open>
  An id never changes its meaning: whatever is published later, it names the same job
  until 300 newer ids exist, and then it names nothing.
\<close>

lemma job_id_never_aliased:
  assumes "published s hist" and "published s' (hist @ later)" and "get_job s jid = Some j"
  shows "get_job s' jid = (if length hist + length later < unat jid + 300 then Some j else None)"
proof -
  have a: "\<exists>pub. published s pub \<and> map fst hist = map fst pub"
    and b: "\<exists>pub. published s' pub \<and> map fst hist @ map fst later = map fst pub"
    using assms(1,2) by (auto intro: exI [of _ "hist @ later"])
  show ?thesis using ring.never_aliased [OF a b assms(3)] by simp
qed

lemma job_id_never_aliased_witness: "get_job two_jobs 1 = Some (sample_job 1)"
proof -
  have "get_job one_job 1 = Some (sample_job 1)"
    by (simp add: get_job_def one_job_def slot_of_def max_jobs_const_def)
  from job_id_never_aliased [OF published_one_job published_two_jobs this] show ?thesis by simp
qed

end
