(* ===== verification/Merged.thy ===== *)
theory Merged
  imports MiningState "HOL-Library.Log_Nat"
begin

text \<open>
  \<^verbatim>\<open>merged.rs\<close>: the merged-mining engine.  It cuts a parent block that commits to a ZKAS
  block, rebuilds the auxiliary proof from a solved parent, remembers the ZKAS blocks that wait
  for a parent, and decides the pool-fee minute of a lane.  Transactions, hashing and the
  auxiliary-proof type are consensus-library code and enter as parameters, collected in one
  record; the Merkle branch, the pending store and the fee window are the bridge's own.
\<close>

section \<open>The consensus library\<close>

definition ZERO_HASH :: hash where
  "ZERO_HASH = replicate 32 0"

record 'tx aux_pow =
  parent_header :: header
  parent_coinbase :: 'tx
  aux_branch :: "hash list"

record 'tx consensus =
  tx_hash :: "'tx \<Rightarrow> hash"
  merkle_hash :: "hash \<Rightarrow> hash \<Rightarrow> hash"
  calc_hash_merkle_root :: "'tx list \<Rightarrow> hash"
  commitment_coinbase :: "hash \<Rightarrow> 'tx"
  from_u64_word :: "u64 \<Rightarrow> hash"
  from_precomputed_hash :: "hash \<Rightarrow> hash list \<Rightarrow> header"
  finalize :: "header \<Rightarrow> header"
  committed_hash :: "'tx aux_pow \<Rightarrow> hash option"
  header_hash :: "header \<Rightarrow> hash"
  check_pow :: "header \<Rightarrow> u64 \<Rightarrow> bool \<times> nat"
  address_try_from :: "string \<Rightarrow> string + kaspa_address"

section \<open>The coinbase branch\<close>

definition next_power_of_two :: "nat \<Rightarrow> nat" where
  "next_power_of_two n = 2 ^ floorlog 2 (n - 1)"

definition combine :: "(hash \<Rightarrow> hash \<Rightarrow> hash) \<Rightarrow> hash option \<Rightarrow> hash option \<Rightarrow> hash option" where
  "combine H l r = (case l of None \<Rightarrow> None | Some h \<Rightarrow> Some (H h (the_default ZERO_HASH r)))"

fun next_level :: "(hash \<Rightarrow> hash \<Rightarrow> hash) \<Rightarrow> hash option list \<Rightarrow> hash option list" where
  "next_level H [] = []"
| "next_level H [l] = [combine H l None]"
| "next_level H (l # r # rest) = combine H l r # next_level H rest"

lemma length_next_level: "length (next_level H xs) = (length xs + 1) div 2"
  by (induction H xs rule: next_level.induct) simp_all

function branch_loop :: "(hash \<Rightarrow> hash \<Rightarrow> hash) \<Rightarrow> hash option list \<Rightarrow> nat \<Rightarrow> hash list" where
  "branch_loop H level idx =
     (if 1 < length level
      then the_default ZERO_HASH (level ! (xor idx 1)) # branch_loop H (next_level H level) (idx div 2)
      else [])"
  by pat_completeness auto
termination
  by (relation "measure (\<lambda>(H, level, idx). length level)") (auto simp: length_next_level)

declare branch_loop.simps [simp del]

definition coinbase_merkle_branch :: "'tx consensus \<Rightarrow> 'tx list \<Rightarrow> hash list" where
  "coinbase_merkle_branch C txs =
     (if length txs \<le> 1 then []
      else let level = map (\<lambda>t. Some (tx_hash C t)) txs;
               level = level @ replicate (next_power_of_two (length level) - length level) None
           in branch_loop (merkle_hash C) level 0)"

section \<open>Parents and proofs\<close>

definition build_parent_block :: "'tx consensus \<Rightarrow> 'tx block \<Rightarrow> 'tx block \<times> hash" where
  "build_parent_block C fc_block =
     (let h_fc = hdr_hash (block_header fc_block);
          coinbase = commitment_coinbase C h_fc;
          root = calc_hash_merkle_root C [coinbase];
          parent = from_precomputed_hash C ZERO_HASH [from_u64_word C 0xF12ECA54];
          parent = finalize C (parent\<lparr>hash_merkle_root := root,
             bits := bits (block_header fc_block),
             hdr_timestamp := hdr_timestamp (block_header fc_block)\<rparr>)
      in (\<lparr>block_header = parent, transactions = [coinbase]\<rparr>, h_fc))"

definition committed_h_fc :: "'tx consensus \<Rightarrow> 'tx block \<Rightarrow> hash option" where
  "committed_h_fc C parent_block =
     (case transactions parent_block of
        [] \<Rightarrow> None
      | coinbase # _ \<Rightarrow> committed_hash C \<lparr>parent_header = block_header parent_block,
          parent_coinbase = coinbase, aux_branch = []\<rparr>)"

text \<open>
  \<^verbatim>\<open>Block::new(header.with_aux_pow(aux), txs)\<close>: the ZKAS block and the proof its header
  carries.  Indexing the first transaction panics on an empty parent.
\<close>

definition assemble_aux_block :: "'tx consensus \<Rightarrow> 'tx block \<Rightarrow> 'tx block \<Rightarrow> ('tx block \<times> 'tx aux_pow) option" where
  "assemble_aux_block C parent_block fc_block =
     (case transactions parent_block of
        [] \<Rightarrow> None
      | coinbase # _ \<Rightarrow>
          Some (fc_block, \<lparr>parent_header = block_header parent_block, parent_coinbase = coinbase,
            aux_branch = coinbase_merkle_branch C (transactions parent_block)\<rparr>))"

section \<open>Blocks that wait for a parent\<close>

record 'tx merged_pending =
  pending_map :: "(hash, 'tx block) hash_map"
  fee_lane :: "hash set"
  pending_order :: "hash list"
  solved :: "hash set"
  pending_cap :: nat

definition pending_new :: "nat \<Rightarrow> 'tx merged_pending" where
  "pending_new cap = \<lparr>pending_map = [], fee_lane = {}, pending_order = [], solved = {},
     pending_cap = max cap 1\<rparr>"

function evict :: "'tx merged_pending \<Rightarrow> 'tx merged_pending" where
  "evict p =
     (if pending_cap p < length (pending_order p) then
        (case pending_order p of
           old # rest \<Rightarrow> evict (p\<lparr>pending_order := rest, pending_map := hm_remove old (pending_map p),
             solved := solved p - {old}, fee_lane := fee_lane p - {old}\<rparr>)
         | [] \<Rightarrow> p)
      else p)"
  by pat_completeness auto
termination
  by (relation "measure (\<lambda>p. length (pending_order p))") auto

declare evict.simps [simp del]

definition insert_with_payee :: "hash \<Rightarrow> 'tx block \<Rightarrow> bool \<Rightarrow> 'tx merged_pending \<Rightarrow> 'tx merged_pending" where
  "insert_with_payee h_fc fc_block paid p =
     (let fresh = \<not> hm_has (pending_map p) h_fc;
          p = p\<lparr>pending_map := hm_insert h_fc fc_block (pending_map p)\<rparr>;
          p = (if fresh then evict (p\<lparr>pending_order := pending_order p @ [h_fc]\<rparr>) else p)
      in if paid then p\<lparr>fee_lane := insert h_fc (fee_lane p)\<rparr>
         else p\<lparr>fee_lane := fee_lane p - {h_fc}\<rparr>)"

definition pending_insert :: "hash \<Rightarrow> 'tx block \<Rightarrow> 'tx merged_pending \<Rightarrow> 'tx merged_pending" where
  "pending_insert h_fc fc_block p = insert_with_payee h_fc fc_block False p"

definition paid_pool :: "'tx merged_pending \<Rightarrow> hash \<Rightarrow> bool" where
  "paid_pool p h_fc \<longleftrightarrow> h_fc \<in> fee_lane p"

definition pending_get :: "'tx merged_pending \<Rightarrow> hash \<Rightarrow> 'tx block option" where
  "pending_get p h_fc = hm_get (pending_map p) h_fc"

definition claim_solution :: "hash \<Rightarrow> 'tx merged_pending \<Rightarrow> bool \<times> 'tx merged_pending" where
  "claim_solution h_fc p =
     (if hm_has (pending_map p) h_fc
      then (h_fc \<notin> solved p, p\<lparr>solved := insert h_fc (solved p)\<rparr>)
      else (False, p))"

definition is_unsolved :: "'tx merged_pending \<Rightarrow> hash \<Rightarrow> bool" where
  "is_unsolved p h_fc \<longleftrightarrow> hm_has (pending_map p) h_fc \<and> h_fc \<notin> solved p"

section \<open>The fee minute\<close>

definition POOL_FEE_MINUTES_PER_HOUR :: nat where
  "POOL_FEE_MINUTES_PER_HOUR = 1"

definition lane_start :: "u64 \<Rightarrow> u64" where
  "lane_start lane_id =
     (let z = lane_id + 0x9E3779B97F4A7C15;
          z = xor z (drop_bit 30 z) * 0xBF58476D1CE4E5B9;
          z = xor z (drop_bit 27 z) * 0x94D049BB133111EB;
          z = xor z (drop_bit 31 z)
      in z mod 60)"

definition is_pool_fee_minute :: "u64 \<Rightarrow> u64 \<Rightarrow> bool" where
  "is_pool_fee_minute lane_id minute_of_hour =
     list_ex (\<lambda>k. (lane_start lane_id + word_of_nat k) mod 60 = minute_of_hour)
       [0..<POOL_FEE_MINUTES_PER_HOUR]"

section \<open>The branch folds to the root\<close>

text \<open>
  The reference: the root of a full binary tree of \<open>2^k\<close> leaves, from the top down, where an
  absent right subtree counts as the zero hash and an absent left one makes the tree absent.
\<close>

fun tree_root :: "(hash \<Rightarrow> hash \<Rightarrow> hash) \<Rightarrow> nat \<Rightarrow> hash option list \<Rightarrow> hash option" where
  "tree_root H 0 xs = hd xs"
| "tree_root H (Suc k) xs = combine H (tree_root H k (take (2 ^ k) xs)) (tree_root H k (drop (2 ^ k) xs))"

definition merkle_root :: "'tx consensus \<Rightarrow> 'tx list \<Rightarrow> hash option" where
  "merkle_root C txs =
     tree_root (merkle_hash C) (floorlog 2 (length txs - 1))
       (map (\<lambda>t. Some (tx_hash C t)) txs @ replicate (next_power_of_two (length txs) - length txs) None)"

lemma next_level_take: "take n (next_level H xs) = next_level H (take (2 * n) xs)"
proof (induction H xs arbitrary: n rule: next_level.induct)
  case (3 H l r rest)
  then show ?case by (cases n) simp_all
next
  case (2 H l)
  then show ?case by (cases n) simp_all
qed simp

lemma next_level_drop: "drop n (next_level H xs) = next_level H (drop (2 * n) xs)"
proof (induction H xs arbitrary: n rule: next_level.induct)
  case (3 H l r rest)
  then show ?case by (cases n) simp_all
next
  case (2 H l)
  then show ?case by (cases n) simp_all
qed simp

lemma tree_root_next_level:
  "length xs = 2 ^ Suc k \<Longrightarrow> tree_root H (Suc k) xs = tree_root H k (next_level H xs)"
proof (induction k arbitrary: xs)
  case 0
  then obtain l r where "xs = [l, r]" by (auto simp: length_Suc_conv numeral_2_eq_2)
  then show ?case by simp
next
  case (Suc k)
  have "tree_root H (Suc k) (take (2 ^ Suc k) xs) = tree_root H k (next_level H (take (2 ^ Suc k) xs))"
    "tree_root H (Suc k) (drop (2 ^ Suc k) xs) = tree_root H k (next_level H (drop (2 ^ Suc k) xs))"
    using Suc.prems by (intro Suc.IH; simp)+
  then show ?case
    by (subst tree_root.simps) (simp add: next_level_take next_level_drop del: tree_root.simps(2)
        add: tree_root.simps(2) [of H k "next_level H xs"])
qed

lemma branch_folds:
  assumes "length xs = 2 ^ k" and "xs ! 0 = Some h"
  shows "tree_root H k xs = Some (foldl H h (branch_loop H xs 0))"
  using assms
proof (induction k arbitrary: xs h)
  case 0
  then show ?case by (cases xs) (auto simp: branch_loop.simps)
next
  case (Suc k)
  have len: "2 \<le> length xs" using Suc.prems(1) by simp
  then obtain r rest where xs: "xs = Some h # r # rest"
    using Suc.prems(2) by (cases xs; cases "tl xs") auto
  have "tree_root H k (next_level H xs)
      = Some (foldl H (H h (the_default ZERO_HASH r)) (branch_loop H (next_level H xs) 0))"
    using Suc.prems(1) by (intro Suc.IH) (simp_all add: length_next_level xs combine_def)
  moreover have "branch_loop H xs 0 = the_default ZERO_HASH r # branch_loop H (next_level H xs) 0"
    by (subst branch_loop.simps) (simp add: xs)
  ultimately show ?case
    using tree_root_next_level [OF Suc.prems(1)] by simp
qed

lemma next_power_of_two_ge: "n \<le> next_power_of_two n"
proof (cases "n \<le> 1")
  case False
  then have "n - 1 < 2 ^ floorlog 2 (n - 1)" using floorlog_bounds [of "n - 1" 2] by simp
  then show ?thesis by (simp add: next_power_of_two_def)
qed (simp add: next_power_of_two_def floorlog_def)

lemma coinbase_branch_root:
  assumes "txs \<noteq> []"
  shows "merkle_root C txs
    = Some (foldl (merkle_hash C) (tx_hash C (hd txs)) (coinbase_merkle_branch C txs))"
proof -
  let ?xs = "map (\<lambda>t. Some (tx_hash C t)) txs
    @ replicate (next_power_of_two (length txs) - length txs) None"
  have "length ?xs = 2 ^ floorlog 2 (length txs - 1)"
    using next_power_of_two_ge [of "length txs"] by (simp add: next_power_of_two_def)
  moreover have "?xs ! 0 = Some (tx_hash C (hd txs))"
    using assms by (cases txs) simp_all
  ultimately have r: "merkle_root C txs
      = Some (foldl (merkle_hash C) (tx_hash C (hd txs)) (branch_loop (merkle_hash C) ?xs 0))"
    unfolding merkle_root_def by (rule branch_folds)
  show ?thesis
  proof (cases "length txs \<le> 1")
    case True
    then have "length ?xs = 1" using assms by (cases txs) (auto simp: next_power_of_two_def floorlog_def)
    then have "branch_loop (merkle_hash C) ?xs 0 = []" by (subst branch_loop.simps) simp
    with r True show ?thesis by (simp add: coinbase_merkle_branch_def)
  next
    case False
    with r show ?thesis by (simp add: coinbase_merkle_branch_def Let_def)
  qed
qed

text \<open>
  C5: for a parent with any number of transactions, the proof assembled for the ZKAS block
  folds the coinbase hash, sibling by sibling, to exactly the Merkle root the parent header
  carries, when that root is the one of the padded transaction tree.
\<close>

theorem aux_proof_includes_coinbase:
  assumes "transactions parent \<noteq> []"
    and "merkle_root C (transactions parent) = Some (hash_merkle_root (block_header parent))"
  shows "\<exists>aux. assemble_aux_block C parent fc = Some (fc, aux)
    \<and> parent_header aux = block_header parent
    \<and> foldl (merkle_hash C) (tx_hash C (parent_coinbase aux)) (aux_branch aux)
        = hash_merkle_root (parent_header aux)"
  using assms coinbase_branch_root [OF assms(1), of C]
  by (cases "transactions parent") (simp_all add: assemble_aux_block_def)

definition demo_consensus :: "nat consensus" where
  "demo_consensus = \<lparr>tx_hash = (\<lambda>t. [word_of_nat t]), merkle_hash = (\<lambda>a b. [hd a * 3 + hd b]),
     calc_hash_merkle_root = (\<lambda>ts. []), commitment_coinbase = (\<lambda>h. 0), from_u64_word = (\<lambda>w. []),
     from_precomputed_hash = (\<lambda>h ps. sample_header), finalize = (\<lambda>h. h), committed_hash = (\<lambda>a. None),
     header_hash = hash_merkle_root, check_pow = (\<lambda>h n. (True, 0)), address_try_from = (\<lambda>s. Inr (Address s))\<rparr>"

lemma aux_proof_includes_coinbase_witness:
  "\<exists>aux. assemble_aux_block demo_consensus
       \<lparr>block_header = sample_header\<lparr>hash_merkle_root := [84]\<rparr>, transactions = [5, 6, 7]\<rparr>
       \<lparr>block_header = sample_header, transactions = []\<rparr>
     = Some (\<lparr>block_header = sample_header, transactions = []\<rparr>, aux)
     \<and> foldl (merkle_hash demo_consensus) (tx_hash demo_consensus (parent_coinbase aux)) (aux_branch aux) = [84]"
proof -
  have "merkle_root demo_consensus [5, 6, 7] = Some [84]" by code_simp
  then show ?thesis
    using aux_proof_includes_coinbase
      [of "\<lparr>block_header = sample_header\<lparr>hash_merkle_root := [84]\<rparr>, transactions = [5, 6, 7]\<rparr>"
          demo_consensus "\<lparr>block_header = sample_header, transactions = []\<rparr>"]
    by auto
qed

section \<open>Pending blocks over time\<close>

definition pending_inv :: "'tx merged_pending \<Rightarrow> bool" where
  "pending_inv p \<longleftrightarrow> hm_wf (pending_map p) \<and> distinct (pending_order p)
     \<and> (\<forall>h. hm_has (pending_map p) h \<longleftrightarrow> h \<in> set (pending_order p))
     \<and> length (pending_order p) \<le> pending_cap p \<and> 1 \<le> pending_cap p
     \<and> solved p \<subseteq> set (pending_order p) \<and> fee_lane p \<subseteq> set (pending_order p)"

lemma pending_inv_new: "pending_inv (pending_new cap)"
  by (simp add: pending_inv_def pending_new_def)

text \<open>From a good state at most one block leaves when one enters, and it is the oldest.\<close>

lemma evict_id: "length (pending_order p) \<le> pending_cap p \<Longrightarrow> evict p = p"
  by (subst evict.simps) simp

lemma evict_one:
  assumes "pending_order p = old # rest" and "length rest = pending_cap p"
  shows "evict p = p\<lparr>pending_order := rest, pending_map := hm_remove old (pending_map p),
           solved := solved p - {old}, fee_lane := fee_lane p - {old}\<rparr>"
  using assms by (subst evict.simps) (simp add: evict_id)

lemma insert_with_payee_cases:
  assumes "pending_inv p"
  obtains
    (again) "hm_has (pending_map p) h" "insert_with_payee h b f p =
      p\<lparr>pending_map := hm_insert h b (pending_map p),
        fee_lane := (if f then insert h (fee_lane p) else fee_lane p - {h})\<rparr>"
  | (room) "\<not> hm_has (pending_map p) h" "length (pending_order p) < pending_cap p"
      "insert_with_payee h b f p =
      p\<lparr>pending_map := hm_insert h b (pending_map p), pending_order := pending_order p @ [h],
        fee_lane := (if f then insert h (fee_lane p) else fee_lane p - {h})\<rparr>"
  | (full) old rest where "\<not> hm_has (pending_map p) h" "pending_order p = old # rest"
      "length (pending_order p) = pending_cap p" "insert_with_payee h b f p =
      p\<lparr>pending_map := hm_remove old (hm_insert h b (pending_map p)), pending_order := rest @ [h],
        solved := solved p - {old},
        fee_lane := (if f then insert h (fee_lane p - {old}) else fee_lane p - {old} - {h})\<rparr>"
proof (cases "hm_has (pending_map p) h")
  case True
  then show ?thesis by (intro again) (simp_all add: insert_with_payee_def Let_def)
next
  case False
  show ?thesis
  proof (cases "length (pending_order p) < pending_cap p")
    case True
    then show ?thesis using False
      by (intro room) (simp_all add: insert_with_payee_def Let_def evict_id)
  next
    case full': False
    then have eq: "length (pending_order p) = pending_cap p" and ne: "pending_order p \<noteq> []"
      using assms by (auto simp: pending_inv_def)
    then obtain old rest where o: "pending_order p = old # rest" by (cases "pending_order p") auto
    show ?thesis
    proof (rule full [OF False o eq])
      have e: "evict (p\<lparr>pending_map := hm_insert h b (pending_map p), pending_order := pending_order p @ [h]\<rparr>)
          = p\<lparr>pending_map := hm_remove old (hm_insert h b (pending_map p)), pending_order := rest @ [h],
              solved := solved p - {old}, fee_lane := fee_lane p - {old}\<rparr>"
        using o eq by (subst evict_one [of _ old "rest @ [h]"]) simp_all
      then show "insert_with_payee h b f p =
          p\<lparr>pending_map := hm_remove old (hm_insert h b (pending_map p)), pending_order := rest @ [h],
            solved := solved p - {old},
            fee_lane := (if f then insert h (fee_lane p - {old}) else fee_lane p - {old} - {h})\<rparr>"
        using False by (simp add: insert_with_payee_def Let_def)
    qed
  qed
qed

lemma pending_inv_insert: "pending_inv p \<Longrightarrow> pending_inv (insert_with_payee h b f p)"
proof (rule insert_with_payee_cases [of p h b f])
  fix old rest
  assume "pending_inv p" "\<not> hm_has (pending_map p) h" "pending_order p = old # rest"
    "length (pending_order p) = pending_cap p" "insert_with_payee h b f p =
      p\<lparr>pending_map := hm_remove old (hm_insert h b (pending_map p)), pending_order := rest @ [h],
        solved := solved p - {old},
        fee_lane := (if f then insert h (fee_lane p - {old}) else fee_lane p - {old} - {h})\<rparr>"
  then show ?thesis by (auto simp: pending_inv_def)
qed (auto simp: pending_inv_def)

lemma pending_inv_claim: "pending_inv p \<Longrightarrow> pending_inv (snd (claim_solution h p))"
  by (auto simp: pending_inv_def claim_solution_def)

datatype 'tx pend_op = PInsert hash "'tx block" bool | PClaim hash

fun pend_step :: "'tx pend_op \<Rightarrow> 'tx merged_pending \<Rightarrow> 'tx merged_pending" where
  "pend_step (PInsert h b f) p = insert_with_payee h b f p"
| "pend_step (PClaim h) p = snd (claim_solution h p)"

fun is_insert :: "'tx pend_op \<Rightarrow> bool" where
  "is_insert (PInsert h b f) = True"
| "is_insert (PClaim h) = False"

lemma pending_inv_step: "pending_inv p \<Longrightarrow> pending_inv (pend_step op p)"
  by (cases op) (simp_all add: pending_inv_insert pending_inv_claim)

lemma pend_step_cap: "pending_inv p \<Longrightarrow> pending_cap (pend_step op p) = pending_cap p"
proof (cases op)
  case (PInsert h b f)
  assume "pending_inv p"
  then show ?thesis
    unfolding PInsert by (cases rule: insert_with_payee_cases [of p h b f]) simp_all
qed (simp add: claim_solution_def)

lemma pending_inv_run: "pending_inv p \<Longrightarrow> pending_inv (fold pend_step ops p)"
  by (induction ops arbitrary: p) (simp_all add: pending_inv_step)

lemma pending_cap_run: "pending_inv p \<Longrightarrow> pending_cap (fold pend_step ops p) = pending_cap p"
  by (induction ops arbitrary: p) (simp_all add: pending_inv_step pend_step_cap)

text \<open>One step keeps a block that has room behind it, and changes its marks as it should.\<close>

lemma pend_step_keeps:
  assumes inv: "pending_inv p" and o: "pending_order p = pre @ h # post"
    and room: "is_insert op \<longrightarrow> Suc (length post) < pending_cap p"
  shows "\<exists>pre' post'. pending_order (pend_step op p) = pre' @ h # post'
      \<and> length post' \<le> length post + (if is_insert op then 1 else 0)
      \<and> (h \<in> solved (pend_step op p) \<longleftrightarrow> h \<in> solved p \<or> op = PClaim h)
      \<and> (h \<in> fee_lane (pend_step op p) \<longleftrightarrow>
           (case op of PInsert h' b f \<Rightarrow> if h' = h then f else h \<in> fee_lane p | PClaim _ \<Rightarrow> h \<in> fee_lane p))"
proof (cases op)
  case (PClaim h')
  have "hm_has (pending_map p) h" using inv o by (simp add: pending_inv_def)
  then show ?thesis using PClaim o by (auto simp: claim_solution_def)
next
  case (PInsert h' b f)
  have has: "hm_has (pending_map p) h" and d: "distinct (pre @ h # post)"
    using inv o by (auto simp: pending_inv_def)
  from inv show ?thesis
  proof (cases rule: insert_with_payee_cases [of p h' b f])
    case again
    then show ?thesis using o
      by (intro exI [of _ pre] exI [of _ post]) (auto simp: PInsert)
  next
    case room
    then have "h' \<noteq> h" using has by auto
    moreover have "pending_order (insert_with_payee h' b f p) = pre @ h # (post @ [h'])"
      using room o by simp
    ultimately show ?thesis using room(3)
      by (intro exI [of _ pre] exI [of _ "post @ [h']"]) (auto simp: PInsert)
  next
    case (full old rest)
    then have "h' \<noteq> h" using has by auto
    have "pre \<noteq> []" using full o assms(3) PInsert by auto
    then obtain pre' where pre': "pre = old # pre'" using full(2) o by (cases pre) auto
    then have "old \<noteq> h" and "rest = pre' @ h # post" using d full(2) o by auto
    then show ?thesis using full(4) \<open>h' \<noteq> h\<close>
      by (intro exI [of _ pre'] exI [of _ "post @ [h']"]) (auto simp: PInsert)
  qed
qed

lemma pend_run_keeps:
  assumes "pending_inv p" and "pending_order p = pre @ h # post"
    and "length post + length (filter is_insert ops) < pending_cap p"
  shows "h \<in> set (pending_order (fold pend_step ops p))
      \<and> (h \<in> solved (fold pend_step ops p) \<longleftrightarrow> h \<in> solved p \<or> PClaim h \<in> set ops)
      \<and> ((\<forall>b f. PInsert h b f \<notin> set ops) \<longrightarrow> (h \<in> fee_lane (fold pend_step ops p) \<longleftrightarrow> h \<in> fee_lane p))"
  using assms
proof (induction ops arbitrary: p pre post)
  case (Cons op ops)
  have r: "is_insert op \<longrightarrow> Suc (length post) < pending_cap p" using Cons.prems(3) by auto
  obtain pre' post' where s: "pending_order (pend_step op p) = pre' @ h # post'"
    "length post' \<le> length post + (if is_insert op then 1 else 0)"
    "h \<in> solved (pend_step op p) \<longleftrightarrow> h \<in> solved p \<or> op = PClaim h"
    "h \<in> fee_lane (pend_step op p) \<longleftrightarrow>
       (case op of PInsert h' b f \<Rightarrow> if h' = h then f else h \<in> fee_lane p | PClaim _ \<Rightarrow> h \<in> fee_lane p)"
    using pend_step_keeps [OF Cons.prems(1,2) r] by blast
  have "length post' + length (filter is_insert ops) < pending_cap (pend_step op p)"
    using Cons.prems(3) s(2) pend_step_cap [OF Cons.prems(1), of op] by (auto split: if_splits)
  from Cons.IH [OF pending_inv_step [OF Cons.prems(1)] s(1) this]
  show ?case using s(3,4) by (auto split: pend_op.splits)
qed simp

text \<open>
  C6: from the moment a ZKAS block is recorded and until \<open>cap\<close> newer ones arrive, its
  solution can be claimed exactly once, whatever happens to other blocks in between, and the
  payee recorded with its template is the one read back.
\<close>

theorem solution_claimed_once:
  assumes "p = fold pend_step past (pending_new cap)" and "pending_get p h = None"
    and "length (filter is_insert ops) < max cap 1"
  shows "(fst (claim_solution h (fold pend_step ops (insert_with_payee h b paid p))) \<longleftrightarrow> PClaim h \<notin> set ops)
    \<and> ((\<forall>b f. PInsert h b f \<notin> set ops) \<longrightarrow>
         paid_pool (fold pend_step ops (insert_with_payee h b paid p)) h = paid)"
proof -
  let ?q = "insert_with_payee h b paid p"
  have p: "pending_inv p" "pending_cap p = max cap 1"
    unfolding assms(1) using pending_inv_run [OF pending_inv_new] pending_cap_run [OF pending_inv_new]
    by (simp_all add: pending_new_def)
  have no: "\<not> hm_has (pending_map p) h" using assms(2) by (simp add: pending_get_def hm_has_def)
  then have h: "h \<notin> solved p" using p(1) by (auto simp: pending_inv_def)
  have "\<exists>pre. pending_order ?q = pre @ h # []" "h \<notin> solved ?q" "h \<in> fee_lane ?q \<longleftrightarrow> paid"
    using p(1) no h by (cases rule: insert_with_payee_cases [of p h b paid]; simp)+
  then obtain pre where q: "pending_order ?q = pre @ h # []" "h \<notin> solved ?q" "h \<in> fee_lane ?q \<longleftrightarrow> paid"
    by blast
  have qi: "pending_inv ?q" by (rule pending_inv_insert [OF p(1)])
  have "length [] + length (filter is_insert ops) < pending_cap ?q"
    using assms(3) p pend_step_cap [OF p(1), of "PInsert h b paid"] by simp
  note r = pend_run_keeps [OF qi q(1) this]
  have "hm_has (pending_map (fold pend_step ops ?q)) h"
    using r pending_inv_run [OF qi, of ops] by (auto simp: pending_inv_def)
  then show ?thesis
    using r q by (auto simp: claim_solution_def paid_pool_def)
qed

definition demo_block :: "unit block" where
  "demo_block = \<lparr>block_header = sample_header, transactions = [()]\<rparr>"

lemma solution_claimed_once_witness:
  "\<not> fst (claim_solution [1] (fold pend_step [PInsert [2] demo_block False, PClaim [1]]
      (insert_with_payee [1] demo_block True (pending_new 3))))"
proof -
  have "pending_get (pending_new 3) [1] = (None :: unit block option)"
    by (simp add: pending_get_def pending_new_def)
  moreover have "length (filter is_insert [PInsert [2] demo_block False, PClaim [1]]) < max 3 1" by simp
  ultimately show ?thesis
    using solution_claimed_once [of "pending_new 3" "[]" 3 "[1]" "[PInsert [2] demo_block False, PClaim [1]]"
        demo_block True]
    by simp
qed

text \<open>
  Whatever the sequence of insertions and claims, the store holds at most \<open>max cap 1\<close>
  blocks, and its solved and fee marks belong to blocks it holds: nothing leaks.
\<close>

lemma pending_bounded:
  "let p = fold pend_step ops (pending_new cap) in
     hm_len (pending_map p) \<le> max cap 1 \<and> length (pending_order p) \<le> max cap 1
     \<and> solved p \<union> {h. paid_pool p h} \<subseteq> {h. pending_get p h \<noteq> None}"
proof -
  let ?p = "fold pend_step ops (pending_new cap)"
  have inv: "pending_inv ?p" by (rule pending_inv_run [OF pending_inv_new])
  have cap: "pending_cap ?p = max cap 1"
    using pending_cap_run [OF pending_inv_new] by (simp add: pending_new_def)
  have keys: "{h. hm_has (pending_map ?p) h} = set (pending_order ?p)" and wf: "hm_wf (pending_map ?p)"
    and d: "distinct (pending_order ?p)"
    using inv by (auto simp: pending_inv_def)
  have "hm_len (pending_map ?p) = length (pending_order ?p)"
    using hm_len_card [OF wf] distinct_card [OF d] by (simp add: keys)
  moreover have "hm_has (pending_map ?p) h \<longleftrightarrow> pending_get ?p h \<noteq> None" for h
    by (simp add: pending_get_def hm_has_def)
  ultimately show ?thesis
    using inv cap by (auto simp: pending_inv_def paid_pool_def Let_def)
qed

section \<open>Fee minutes\<close>

text \<open>
  Every lane has exactly one fee minute, and it lies within the hour.
\<close>

lemma one_fee_minute: "\<exists>m. unat m < 60 \<and> (\<forall>m'. is_pool_fee_minute lane m' \<longleftrightarrow> m' = m)"
proof -
  have m: "unat (w mod 60 :: u64) < 60" for w by (simp add: unat_mod)
  then have "unat (lane_start lane) < 60" by (simp only: lane_start_def Let_def)
  moreover from this have "lane_start lane mod 60 = lane_start lane"
    by (simp add: word_unat_eq_iff unat_mod)
  ultimately show ?thesis
    by (auto simp: is_pool_fee_minute_def POOL_FEE_MINUTES_PER_HOUR_def)
qed

end
