(* ===== verification/Vardiff.thy ===== *)
theory Vardiff
  imports Float64
begin

text \<open>
  The difficulty controller of \<^verbatim>\<open>share_handler.rs\<close>: from the shares a worker found in a
  window it computes the next share difficulty, or nothing when the present one is to stay.
  \<^verbatim>\<open>f64::log2\<close> has no specified rounding, so it is a parameter; what the controller relies
  on is \<open>log2_laws\<close>.
\<close>

section \<open>Tunables\<close>

definition VARDIFF_MIN_ELAPSED_SECS :: f64 where "VARDIFF_MIN_ELAPSED_SECS = Fin 30"
definition VARDIFF_MAX_ELAPSED_SECS_NO_SHARES :: f64 where "VARDIFF_MAX_ELAPSED_SECS_NO_SHARES = Fin 15"
definition VARDIFF_MAX_ELAPSED_SECS_SPARSE_SHARES :: f64 where "VARDIFF_MAX_ELAPSED_SECS_SPARSE_SHARES = Fin 90"
definition VARDIFF_MIN_DIFF :: f64 where "VARDIFF_MIN_DIFF = Fin 64"
definition VARDIFF_MIN_SHARES :: f64 where "VARDIFF_MIN_SHARES = Fin 3"
definition VARDIFF_LOWER_RATIO :: f64 where "VARDIFF_LOWER_RATIO = Fin (3 / 4)"
definition VARDIFF_UPPER_RATIO :: f64 where "VARDIFF_UPPER_RATIO = Fin (5 / 4)"
definition VARDIFF_MAX_STEP_UP :: f64 where "VARDIFF_MAX_STEP_UP = Fin 128"
definition VARDIFF_MAX_STEP_DOWN :: f64 where "VARDIFF_MAX_STEP_DOWN = Fin (1 / 2)"
definition f64_EPSILON :: f64 where "f64_EPSILON = Fin (1 / 2 ^ 52)"

lemmas vardiff_consts = VARDIFF_MIN_ELAPSED_SECS_def VARDIFF_MAX_ELAPSED_SECS_NO_SHARES_def
  VARDIFF_MAX_ELAPSED_SECS_SPARSE_SHARES_def VARDIFF_MIN_DIFF_def VARDIFF_MIN_SHARES_def
  VARDIFF_LOWER_RATIO_def VARDIFF_UPPER_RATIO_def VARDIFF_MAX_STEP_UP_def VARDIFF_MAX_STEP_DOWN_def
  f64_EPSILON_def

section \<open>The controller\<close>

definition fceil :: "f64 \<Rightarrow> f64" where
  "fceil x = (case x of Fin q \<Rightarrow> Fin (of_int \<lceil>q\<rceil>) | _ \<Rightarrow> x)"

definition ffloor :: "f64 \<Rightarrow> f64" where
  "ffloor x = (case x of Fin q \<Rightarrow> Fin (of_int \<lfloor>q\<rfloor>) | _ \<Rightarrow> x)"

text \<open>The saturating cast \<^verbatim>\<open>as i32\<close>.\<close>

definition to_i32 :: "f64 \<Rightarrow> int" where
  "to_i32 x = (case x of
      Fin q \<Rightarrow> max (- (2 ^ 31)) (min (if 0 \<le> q then \<lfloor>q\<rfloor> else \<lceil>q\<rceil>) (2 ^ 31 - 1))
    | PInf \<Rightarrow> 2 ^ 31 - 1
    | NInf \<Rightarrow> - (2 ^ 31)
    | NaN \<Rightarrow> 0)"

definition vardiff_pow2_clamp_towards :: "(f64 \<Rightarrow> f64) \<Rightarrow> f64 \<Rightarrow> f64 \<Rightarrow> f64" where
  "vardiff_pow2_clamp_towards log2 current next =
     (if \<not> is_finite next \<or> fle next (Fin 0) then Fin 1
      else let exp = (if fle current next then fceil (log2 next) else ffloor (log2 next));
               clamped = fpow2 (to_i32 exp)
           in if flt clamped (Fin 1) then Fin 1 else clamped)"

definition vardiff_compute_next_diff ::
    "(f64 \<Rightarrow> f64) \<Rightarrow> f64 \<Rightarrow> f64 \<Rightarrow> f64 \<Rightarrow> f64 \<Rightarrow> bool \<Rightarrow> f64 option" where
  "vardiff_compute_next_diff log2 current shares elapsed_secs expected_spm clamp_pow2 =
     (if \<not> is_finite current \<or> fle current (Fin 0) then None
      else if \<not> is_finite elapsed_secs \<or> fle elapsed_secs (Fin 0) then None
      else if feq shares (Fin 0) \<and> fle VARDIFF_MAX_ELAPSED_SECS_NO_SHARES elapsed_secs then
        (let next = fmul current VARDIFF_MAX_STEP_DOWN;
             next = (if flt next VARDIFF_MIN_DIFF then VARDIFF_MIN_DIFF else next);
             next = (if clamp_pow2 then vardiff_pow2_clamp_towards log2 current next else next)
         in if flt f64_EPSILON (fabs (fsub next current)) then Some next else None)
      else if flt elapsed_secs VARDIFF_MIN_ELAPSED_SECS
           \<or> flt shares VARDIFF_MIN_SHARES \<and> flt elapsed_secs VARDIFF_MAX_ELAPSED_SECS_SPARSE_SHARES
      then None
      else
        (let observed_spm = fmul (fdiv shares elapsed_secs) (Fin 60);
             ratio = fdiv observed_spm (fmax expected_spm (Fin 1))
         in if \<not> is_finite ratio \<or> fle ratio (Fin 0) then None
            else if flt VARDIFF_LOWER_RATIO ratio \<and> flt ratio VARDIFF_UPPER_RATIO then None
            else
              (let step = fclamp (fsqrt ratio) VARDIFF_MAX_STEP_DOWN VARDIFF_MAX_STEP_UP;
                   next = fmul current step;
                   next = (if flt next VARDIFF_MIN_DIFF then VARDIFF_MIN_DIFF else next);
                   next = (if clamp_pow2 then vardiff_pow2_clamp_towards log2 current next else next);
                   rel_change = fdiv (fabs (fsub next current)) (fmax current (Fin 1))
               in if flt rel_change (rnd (1 / 10)) then None
                  else if flt f64_EPSILON (fabs (fsub next current)) then Some next else None)))"

definition average_worker_spm :: "f64 \<Rightarrow> nat \<Rightarrow> f64" where
  "average_worker_spm sum_spm worker_count =
     (if worker_count = 0 then Fin 0 else fdiv sum_spm (of_n worker_count))"

section \<open>Bounds\<close>

text \<open>The share rate over the expected one.\<close>

definition share_ratio :: "f64 \<Rightarrow> f64 \<Rightarrow> f64 \<Rightarrow> f64" where
  "share_ratio shares elapsed expected = fdiv (fmul (fdiv shares elapsed) (Fin 60)) (fmax expected (Fin 1))"

definition floored :: "f64 \<Rightarrow> f64" where
  "floored x = (if flt x VARDIFF_MIN_DIFF then VARDIFF_MIN_DIFF else x)"

text \<open>Every proposal is the floored product of the present difficulty and a bounded step.\<close>

lemma next_diff_cases:
  assumes "vardiff_compute_next_diff log2 (Fin c) shares elapsed expected clamp = Some d"
  obtains s where "1 / 2 \<le> s" "s \<le> 128" "0 < c"
    "d = (if clamp then vardiff_pow2_clamp_towards log2 (Fin c) (floored (fmul (Fin c) (Fin s)))
          else floored (fmul (Fin c) (Fin s)))"
    "feq shares (Fin 0) \<or> fle (share_ratio shares elapsed expected) (Fin (3 / 4)) \<Longrightarrow> s \<le> 1"
    "\<not> feq shares (Fin 0) \<Longrightarrow> fle (Fin (5 / 4)) (share_ratio shares elapsed expected) \<Longrightarrow> 1 \<le> s"
proof -
  let ?r = "share_ratio shares elapsed expected"
  have c: "0 < c" using assms by (auto simp: vardiff_compute_next_diff_def is_finite_def split: if_splits)
  show ?thesis
  proof (cases "feq shares (Fin 0) \<and> fle (Fin 15) elapsed")
    case True
    then have "d = (if clamp then vardiff_pow2_clamp_towards log2 (Fin c) (floored (fmul (Fin c) (Fin (1 / 2))))
        else floored (fmul (Fin c) (Fin (1 / 2))))"
      using assms by (auto simp: vardiff_compute_next_diff_def vardiff_consts floored_def Let_def split: if_splits)
    then show ?thesis using True c by (intro that [of "1 / 2"]) auto
  next
    case False
    then obtain q where q: "?r = Fin q" "0 < q" "q \<le> 3 / 4 \<or> 5 / 4 \<le> q"
      and d: "d = (if clamp then vardiff_pow2_clamp_towards log2 (Fin c)
            (floored (fmul (Fin c) (fclamp (fsqrt (Fin q)) (Fin (1 / 2)) (Fin 128))))
          else floored (fmul (Fin c) (fclamp (fsqrt (Fin q)) (Fin (1 / 2)) (Fin 128))))"
      using assms by (cases ?r)
        (auto simp: vardiff_compute_next_diff_def vardiff_consts floored_def share_ratio_def Let_def
          is_finite_def split: if_splits)
    define s where "s = max (1 / 2) (min (sqrt_pos q) 128)"
    have "fclamp (fsqrt (Fin q)) (Fin (1 / 2)) (Fin 128) = Fin s"
      using q(2) by (auto simp: fclamp_def s_def)
    moreover have "q \<le> 3 / 4 \<Longrightarrow> s \<le> 1" "5 / 4 \<le> q \<Longrightarrow> 1 \<le> s"
      using sqrt_pos_le_1 [of q] sqrt_pos_ge_1 [of q] q(2) by (auto simp: s_def)
    moreover have "feq shares (Fin 0) \<Longrightarrow> q \<le> 0"
      using q(1) by (cases shares; cases elapsed; cases expected)
        (auto simp: share_ratio_def inf_of_def fmax_def split: if_splits)
    ultimately show ?thesis
      using d q c by (intro that [of s]) (auto simp: s_def)
  qed
qed

lemma fle_floored: "x \<noteq> NaN \<Longrightarrow> fle x (floored x) \<and> fle (Fin 64) (floored x)"
  by (cases x) (auto simp: floored_def vardiff_consts flt_def)

lemma floored_le: "x \<noteq> NaN \<Longrightarrow> fle x y \<Longrightarrow> fle (floored x) (fmax (Fin 64) y)"
  by (cases x; cases y) (auto simp: floored_def vardiff_consts flt_def fmax_def)

lemma fmul_Fin_not_NaN [simp]: "fmul (Fin a) (Fin b) \<noteq> NaN"
  by simp

lemma product_bounds:
  assumes "0 < c" "1 / 2 \<le> s" "s \<le> 128"
  shows "fle (fmul (Fin c) (Fin (1 / 2))) (fmul (Fin c) (Fin s))"
    and "fle (fmul (Fin c) (Fin s)) (fmul (Fin c) (Fin 128))"
  using assms mult_left_mono [of "1 / 2" s c] mult_left_mono [of s 128 c] by (auto intro!: rnd_mono)



section \<open>The power-of-two option\<close>

text \<open>What the controller relies on: \<open>log2\<close> is exact on powers of two and monotone.\<close>

definition log2_laws :: "(f64 \<Rightarrow> f64) \<Rightarrow> bool" where
  "log2_laws log2 \<longleftrightarrow>
     (\<forall>k. - 1074 \<le> k \<and> k < 1024 \<longrightarrow> log2 (Fin (2 powi k)) = Fin (of_int k))
     \<and> (\<forall>a b. 0 < a \<and> a \<le> b \<longrightarrow> fle (log2 (Fin a)) (log2 (Fin b)))"

lemma pow2_clamp_ge_64:
  assumes "log2_laws log2" and "64 \<le> q"
  shows "\<exists>k. 6 \<le> k \<and> vardiff_pow2_clamp_towards log2 (Fin c) (Fin q) = fpow2 k"
proof -
  have p: "(2::rat) powi 6 = 64" by (simp add: power_int_def)
  have laws: "- 1074 \<le> k \<and> k < 1024 \<Longrightarrow> log2 (Fin (2 powi k)) = Fin (of_int k)"
    "0 < a \<and> a \<le> b \<Longrightarrow> fle (log2 (Fin a)) (log2 (Fin b))" for k a b
    using assms(1) unfolding log2_laws_def by blast+
  have "log2 (Fin 64) = Fin 6" using laws(1) [of 6] unfolding p by simp
  moreover have "fle (log2 (Fin 64)) (log2 (Fin q))" by (rule laws(2)) (use assms(2) in simp)
  ultimately have l: "fle (Fin 6) (log2 (Fin q))" by simp
  let ?e = "if fle (Fin c) (Fin q) then fceil (log2 (Fin q)) else ffloor (log2 (Fin q))"
  have e: "6 \<le> to_i32 ?e"
    using l by (cases "log2 (Fin q)")
      (auto simp: to_i32_def fceil_def ffloor_def le_floor_iff intro: order_trans [OF _ le_of_int_ceiling])
  then have "fle (fpow2 6) (fpow2 (to_i32 ?e))"
    unfolding fpow2_def by (intro rnd_mono) (simp only: powi_le2)
  moreover have "fpow2 6 = Fin 64" by code_simp
  ultimately have "fle (Fin 64) (fpow2 (to_i32 ?e))" by simp
  then have "\<not> flt (fpow2 (to_i32 ?e)) (Fin 1)"
    by (cases "fpow2 (to_i32 ?e)") (auto simp: flt_def)
  then have "vardiff_pow2_clamp_towards log2 (Fin c) (Fin q) = fpow2 (to_i32 ?e)"
    using assms(2) by (auto simp: vardiff_pow2_clamp_towards_def is_finite_def Let_def)
  with e show ?thesis by blast
qed

text \<open>
  With the power-of-two option, for any present difficulty below \<open>2^1000\<close>, a new
  difficulty is a power of two and at least 64.
\<close>

lemma next_diff_pow2:
  assumes "vardiff_compute_next_diff log2 (Fin c) shares elapsed expected True = Some d"
    and "log2_laws log2" and "c < 2 ^ 1000"
  shows "\<exists>k. 6 \<le> k \<and> d = fpow2 k"
  using assms(1)
proof (rule next_diff_cases)
  fix s
  assume s: "1 / 2 \<le> s" "s \<le> 128" "0 < c"
    and d: "d = (if True then vardiff_pow2_clamp_towards log2 (Fin c) (floored (fmul (Fin c) (Fin s)))
                 else floored (fmul (Fin c) (Fin s)))"
  have "c * s \<le> 2 ^ 1000 * 128" using s assms(3) by (intro mult_mono) auto
  also have "\<dots> = (2::rat) powi 1007" by (simp add: power_int_def)
  finally have "fle (rnd (c * s)) (Fin (2 powi 1007))"
    by (intro rnd_le_repr repr_powi) simp_all
  then have "floored (fmul (Fin c) (Fin s)) \<noteq> PInf" "floored (fmul (Fin c) (Fin s)) \<noteq> NInf"
    "fle (Fin 64) (floored (fmul (Fin c) (Fin s)))"
    using fle_floored [OF fmul_Fin_not_NaN, of c s]
    by (cases "rnd (c * s)"; auto simp: floored_def vardiff_consts flt_def)+
  then obtain q where "floored (fmul (Fin c) (Fin s)) = Fin q" "64 \<le> q"
    by (cases "floored (fmul (Fin c) (Fin s))") auto
  then show ?thesis using pow2_clamp_ge_64 [OF assms(2), of q c] d by simp
qed

text \<open>An exact logarithm rounded down meets the laws.\<close>

definition floor_log2 :: "f64 \<Rightarrow> f64" where
  "floor_log2 x = (case x of Fin q \<Rightarrow> Fin (of_int (ilog2 q)) | _ \<Rightarrow> NaN)"

lemma floor_log2_laws: "log2_laws floor_log2"
  by (auto simp: log2_laws_def floor_log2_def ilog2_mono)

lemma next_diff_pow2_witness: "\<exists>k. 6 \<le> k \<and> Fin 2048 = fpow2 k"
proof -
  have "ilog2 2500 = 11" by code_simp
  moreover have "fpow2 11 = Fin 2048" by code_simp
  moreover have "rnd 2500 = Fin 2500" by code_simp
  moreover have "rnd (- 2952) = Fin (- 2952)" by code_simp
  ultimately have a: "vardiff_compute_next_diff floor_log2 (Fin 5000) (Fin 0) (Fin 15) (Fin 20) True = Some (Fin 2048)"
    by (simp add: vardiff_compute_next_diff_def vardiff_pow2_clamp_towards_def floor_log2_def
        vardiff_consts is_finite_def ffloor_def fceil_def to_i32_def fsub_def Let_def)
  have b: "(5000::rat) < 2 ^ 1000"
    by (rule less_le_trans [of _ "2 ^ 13"]) (simp, rule power_increasing, simp_all)
  show ?thesis by (rule next_diff_pow2 [OF a floor_log2_laws b])
qed

section \<open>A silent miner\<close>

text \<open>One controller tick for a worker that found nothing.\<close>

definition silent_tick :: "(f64 \<Rightarrow> f64) \<Rightarrow> f64 \<Rightarrow> f64 \<Rightarrow> f64 \<Rightarrow> f64" where
  "silent_tick log2 elapsed expected d =
     the_default d (vardiff_compute_next_diff log2 d (Fin 0) elapsed expected False)"

lemma repr_half:
  assumes "repr c" and "64 \<le> c"
  shows "repr (c / 2)"
proof -
  obtain m e where me: "c = of_int m * 2 powi e" "\<bar>m\<bar> \<le> 2 ^ 53" "- 1074 \<le> e" "\<bar>c\<bar> < f64_limit"
    using assms(1) unfolding repr_def by blast
  have "e \<noteq> - 1074"
  proof
    assume "e = - 1074"
    have "(of_int m :: rat) \<le> of_int (2 ^ 53)" using me(2) by (simp only: of_int_le_iff)
    then have "c \<le> 2 powi 53 * 2 powi (- 1074)"
      unfolding me(1) powi_consts \<open>e = - 1074\<close> by (intro mult_right_mono) simp_all
    also have "\<dots> = 2 powi (- 1021)" by (simp add: powi_add2 [symmetric])
    also have "\<dots> \<le> (2::rat) powi 0" by (simp only: powi_le2)
    finally show False using assms(2) by simp
  qed
  moreover have "c / 2 = of_int m * 2 powi (e - 1)"
    unfolding me(1) by (simp add: powi_diff2)
  moreover have "\<bar>c / 2\<bar> < f64_limit" using me(4) assms(2) by linarith
  ultimately show ?thesis unfolding repr_def using me(2,3) by fastforce
qed

text \<open>The next number after 64 is \<open>2^-46\<close> away.\<close>

lemma gap_above_64:
  assumes "repr c" and "64 < c"
  shows "2 powi (- 46) \<le> c - 64"
proof -
  obtain m e where me: "c = of_int m * 2 powi e" "\<bar>m\<bar> \<le> 2 ^ 53"
    using assms(1) unfolding repr_def by blast
  have m: "0 < m"
  proof (rule ccontr)
    assume "\<not> 0 < m"
    then have "c \<le> 0" unfolding me(1) by (intro mult_nonpos_nonneg) (simp_all add: less_imp_le)
    then show False using assms(2) by simp
  qed
  have "(of_int m :: rat) \<le> 2 powi 53" unfolding powi_consts using me(2) by (simp only: of_int_le_iff)
  then have "c \<le> 2 powi 53 * 2 powi e" unfolding me(1) by (intro mult_right_mono) simp_all
  also have "\<dots> = 2 powi (53 + e)" by (simp only: powi_add2)
  finally have "(2::rat) powi 6 < 2 powi (53 + e)" using assms(2) by (simp add: power_int_def)
  then have e: "- 46 \<le> e" by (simp only: powi_less2)
  show ?thesis
  proof (cases "e \<le> 6")
    case True
    let ?k = "m - 2 ^ nat (6 - e)"
    have "(64::rat) = 2 powi (6 - e) * 2 powi e" by (simp only: powi_add2 [symmetric]) (simp add: power_int_def)
    then have k: "c - 64 = of_int ?k * 2 powi e"
      using True by (simp add: me(1) powi_nat2 algebra_simps)
    then have "0 < (of_int ?k :: rat) * 2 powi e" using assms(2) by simp
    then have "0 < ?k" by (metis of_int_0_less_iff powi_pos2 zero_less_mult_pos2)
    then have "(1::rat) \<le> of_int ?k" by linarith
    then have "2 powi e \<le> (of_int ?k :: rat) * 2 powi e"
      using mult_right_mono [of 1 "of_int ?k" "(2::rat) powi e"] by (simp only: mult_1_left powi_pos2 less_imp_le)
    moreover have "(2::rat) powi (- 46) \<le> 2 powi e" using e by (simp only: powi_le2)
    ultimately show ?thesis using k by linarith
  next
    case False
    then have "(2::rat) powi 7 \<le> 2 powi e" by (simp only: powi_le2)
    moreover have "2 powi e \<le> c" unfolding me(1) using m by simp
    moreover have "(2::rat) powi 7 = 128" by (simp add: power_int_def)
    moreover have "(2::rat) powi (- 46) \<le> 2 powi 0" by (simp only: powi_le2)
    ultimately show ?thesis by simp
  qed
qed

lemma silent_tick_eq:
  assumes "repr c" and "64 \<le> c" and "15 \<le> e"
  shows "silent_tick log2 (Fin e) expected (Fin c) = Fin (max 64 (c / 2))"
proof -
  have h: "fmul (Fin c) (Fin (1 / 2)) = Fin (c / 2)"
    using rnd_exact [OF repr_half [OF assms(1,2)]] by simp
  have r46: "repr (2 powi (- 46))" by (rule repr_powi) simp_all
  have eps: "(1::rat) / 2 ^ 52 < 2 powi (- 46)" by (simp add: power_int_def divide_simps)
  have "flt f64_EPSILON (fabs (fsub (Fin n) (Fin c)))" if "n \<le> c - 2 powi (- 46)" for n
  proof -
    have "fle (rnd (n - c)) (Fin (- (2 powi (- 46))))"
      using that by (intro rnd_le_repr repr_minus [OF r46]) simp
    then show ?thesis
      using eps by (cases "rnd (n - c)") (auto simp: fsub_def f64_EPSILON_def flt_def)
  qed
  moreover have "max 64 (c / 2) \<le> c - 2 powi (- 46)" if "64 < c"
  proof -
    have "(2::rat) powi (- 46) \<le> 2 powi 0" by (simp only: powi_le2)
    then show ?thesis using gap_above_64 [OF assms(1) that] that by (simp add: max_def)
  qed
  moreover have "\<not> flt f64_EPSILON (fabs (fsub (Fin c) (Fin c)))"
    by (simp add: fsub_def f64_EPSILON_def)
  moreover have "(if flt (Fin (c / 2)) (Fin 64) then Fin 64 else Fin (c / 2)) = Fin (max 64 (c / 2))"
    by auto
  ultimately show ?thesis
    using assms(2,3) h
    by (cases "c = 64")
      (auto simp: silent_tick_def vardiff_compute_next_diff_def is_finite_def vardiff_consts Let_def)
qed



end
