(* ===== verification/StratumContext.thy ===== *)
theory StratumContext
  imports JsonRpc MiningState
begin

text \<open>
  \<^verbatim>\<open>stratum_context.rs\<close>: the state of one miner connection and the way frames reach it.
  Atomics and mutexes are record fields.  The socket is part of the environment: the field
  \<open>socket\<close> lists how the coming write attempts will go (an exhausted list means that they
  succeed), and \<open>wire\<close> is what has been put on the connection so far, in order: whole
  frames, and the beginnings of frames whose write was cut short.  The disconnect that a failed
  write spawns runs at once here.
\<close>

section \<open>State\<close>

datatype frame =
    Response json_rpc_response
  | Event json_rpc_event
  | Notification string "json list"
  | V1Notification string "json list"

datatype wire_item = Whole frame | Cut frame

text \<open>
  One attempt to write: another task holds the write lock, or the write ends, fails or runs into
  the five-second deadline.  The flag tells whether some bytes had gone out by then.
\<close>

datatype write_attempt = Blocked | Written | WriteFailed bool | TimedOut bool

datatype disconnected = ErrorDisconnected

record 'tx stratum_context =
  remote_addr :: string
  remote_port :: u16
  local_port :: u16
  wallet_addr :: string
  worker_name :: string
  worker_name_supplied :: bool
  canxium_addr :: string
  kas_payout :: "kaspa_address option"
  remote_app :: string
  client_id :: int
  extranonce :: string
  mstate :: "'tx mining_state"
  session_uid :: u64
  template_generation :: u64
  parent_refresh_gate :: nat
  last_parent_job_at :: "nat option"
  authorized_at :: "nat option"
  last_job_sent_at :: "nat option"
  session_opened :: bool
  vardiff_registered :: bool
  disconnecting :: bool
  read_half :: bool
  write_half :: bool
  socket :: "write_attempt list"
  wire :: "wire_item list"

definition ctx_new :: "string \<Rightarrow> u16 \<Rightarrow> u16 \<Rightarrow> 'tx mining_state \<Rightarrow> u64 \<Rightarrow> write_attempt list
    \<Rightarrow> 'tx stratum_context" where
  "ctx_new addr port lport ms uid sock =
     \<lparr>remote_addr = addr, remote_port = port, local_port = lport, wallet_addr = [], worker_name = [],
      worker_name_supplied = False, canxium_addr = [], kas_payout = None, remote_app = [],
      client_id = 0, extranonce = [], mstate = ms, session_uid = uid, template_generation = 0,
      parent_refresh_gate = 1, last_parent_job_at = None, authorized_at = None,
      last_job_sent_at = None, session_opened = False, vardiff_registered = False,
      disconnecting = False, read_half = True, write_half = True, socket = sock, wire = []\<rparr>"

section \<open>Identity and bookkeeping\<close>

definition ctx_connected :: "'tx stratum_context \<Rightarrow> bool" where
  "ctx_connected ctx = (\<not> disconnecting ctx)"

definition ctx_id :: "'tx stratum_context \<Rightarrow> int option" where
  "ctx_id ctx = (if 0 < client_id ctx then Some (client_id ctx) else None)"

definition set_id :: "int \<Rightarrow> 'tx stratum_context \<Rightarrow> 'tx stratum_context" where
  "set_id i ctx = ctx\<lparr>client_id := i\<rparr>"

text \<open>\<^verbatim>\<open>fetch_add\<close> wraps; the addition of one to its result is checked.\<close>

definition next_template_generation :: "'tx stratum_context \<Rightarrow> (u64 \<times> 'tx stratum_context) option" where
  "next_template_generation ctx =
     (if template_generation ctx = - 1 then None
      else Some (template_generation ctx + 1, ctx\<lparr>template_generation := template_generation ctx + 1\<rparr>))"

definition recent_parent :: "nat \<Rightarrow> nat \<Rightarrow> 'tx stratum_context \<Rightarrow> bool" where
  "recent_parent minimum_interval now ctx =
     (case last_parent_job_at ctx of Some sent \<Rightarrow> now - sent < minimum_interval | None \<Rightarrow> False)"

text \<open>A permit that is returned holds the gate until it is dropped.\<close>

definition try_parent_refresh :: "nat \<Rightarrow> nat \<Rightarrow> 'tx stratum_context \<Rightarrow> bool \<times> 'tx stratum_context" where
  "try_parent_refresh minimum_interval now ctx =
     (if recent_parent minimum_interval now ctx then (False, ctx)
      else if parent_refresh_gate ctx = 0 then (False, ctx)
      else if recent_parent minimum_interval now ctx then (False, ctx)
      else (True, ctx\<lparr>parent_refresh_gate := parent_refresh_gate ctx - 1\<rparr>))"

definition mark_parent_job_sent :: "nat \<Rightarrow> 'tx stratum_context \<Rightarrow> 'tx stratum_context" where
  "mark_parent_job_sent now ctx = ctx\<lparr>last_parent_job_at := Some now\<rparr>"

definition mark_authorized :: "nat \<Rightarrow> 'tx stratum_context \<Rightarrow> 'tx stratum_context" where
  "mark_authorized now ctx = ctx\<lparr>authorized_at := Some now, last_job_sent_at := None\<rparr>"

definition mark_job_sent :: "nat \<Rightarrow> 'tx stratum_context \<Rightarrow> 'tx stratum_context" where
  "mark_job_sent now ctx = ctx\<lparr>last_job_sent_at := Some now\<rparr>"

definition received_job_since_authorization :: "'tx stratum_context \<Rightarrow> bool" where
  "received_job_since_authorization ctx =
     (case (authorized_at ctx, last_job_sent_at ctx) of (Some a, Some j) \<Rightarrow> a \<le> j | _ \<Rightarrow> False)"

definition claim_session_open :: "'tx stratum_context \<Rightarrow> bool \<times> 'tx stratum_context" where
  "claim_session_open ctx = (\<not> session_opened ctx, ctx\<lparr>session_opened := True\<rparr>)"

definition claim_vardiff_registration :: "'tx stratum_context \<Rightarrow> bool \<times> 'tx stratum_context" where
  "claim_vardiff_registration ctx = (\<not> vardiff_registered ctx, ctx\<lparr>vardiff_registered := True\<rparr>)"

definition release_vardiff_registration :: "'tx stratum_context \<Rightarrow> bool \<times> 'tx stratum_context" where
  "release_vardiff_registration ctx = (vardiff_registered ctx, ctx\<lparr>vardiff_registered := False\<rparr>)"

definition show_int :: "int \<Rightarrow> string" where
  "show_int i = (if i < 0 then CHR ''-'' # show_nat (nat (- i)) else show_nat (nat i))"

definition ensure_default_worker_name :: "'tx stratum_context \<Rightarrow> 'tx stratum_context" where
  "ensure_default_worker_name ctx =
     (if trim (worker_name ctx) \<noteq> [] then ctx
      else ctx\<lparr>worker_name := (case ctx_id ctx of
             Some i \<Rightarrow> ''asic-'' @ show_int i
           | None \<Rightarrow> ''asic-'' @ show_nat (unat (remote_port ctx)))\<rparr>)"

definition set_authorized_worker_name :: "string \<Rightarrow> 'tx stratum_context \<Rightarrow> 'tx stratum_context" where
  "set_authorized_worker_name w ctx =
     ensure_default_worker_name (ctx\<lparr>worker_name_supplied := (trim w \<noteq> []), worker_name := w\<rparr>)"

definition vardiff_worker_identity :: "'tx stratum_context \<Rightarrow> string" where
  "vardiff_worker_identity ctx = (if worker_name_supplied ctx then worker_name ctx else [])"

definition effective_worker_name :: "'tx stratum_context \<Rightarrow> string \<times> 'tx stratum_context" where
  "effective_worker_name ctx =
     (let ctx = ensure_default_worker_name ctx in (worker_name ctx, ctx))"

section \<open>Disconnecting and writing\<close>

definition disconnect :: "'tx stratum_context \<Rightarrow> 'tx stratum_context" where
  "disconnect ctx =
     (if disconnecting ctx then ctx
      else ctx\<lparr>disconnecting := True, write_half := False, read_half := False\<rparr>)"

definition check_disconnect :: "'tx stratum_context \<Rightarrow> 'tx stratum_context" where
  "check_disconnect ctx = (if disconnecting ctx then ctx else disconnect ctx)"

definition next_attempt :: "'tx stratum_context \<Rightarrow> write_attempt \<times> 'tx stratum_context" where
  "next_attempt ctx = (case socket ctx of [] \<Rightarrow> (Written, ctx) | a # rest \<Rightarrow> (a, ctx\<lparr>socket := rest\<rparr>))"

definition put :: "wire_item \<Rightarrow> 'tx stratum_context \<Rightarrow> 'tx stratum_context" where
  "put item ctx = ctx\<lparr>wire := wire ctx @ [item]\<rparr>"

definition put_cut :: "bool \<Rightarrow> frame \<Rightarrow> 'tx stratum_context \<Rightarrow> 'tx stratum_context" where
  "put_cut some f ctx = (if some then put (Cut f) ctx else ctx)"

fun write_loop :: "nat \<Rightarrow> frame \<Rightarrow> 'tx stratum_context \<Rightarrow> (disconnected + unit) \<times> 'tx stratum_context" where
  "write_loop 0 f ctx = (Inl ErrorDisconnected, ctx)"
| "write_loop (Suc left) f ctx =
     (let (a, ctx) = next_attempt ctx
      in if a = Blocked then write_loop left f ctx
         else if \<not> write_half ctx then (Inl ErrorDisconnected, ctx)
         else (case a of
             WriteFailed some \<Rightarrow> (Inl ErrorDisconnected, check_disconnect (put_cut some f ctx))
           | TimedOut some \<Rightarrow>
               (if 0 < left then write_loop left f (put_cut some f ctx)
                else (Inl ErrorDisconnected, check_disconnect (put_cut some f ctx)))
           | _ \<Rightarrow> (Inr (), put (Whole f) ctx)))"

definition write_data :: "frame \<Rightarrow> 'tx stratum_context \<Rightarrow> (disconnected + unit) \<times> 'tx stratum_context" where
  "write_data f ctx =
     (if disconnecting ctx then (Inl ErrorDisconnected, ctx) else write_loop 3 f ctx)"

definition reply :: "json_rpc_response \<Rightarrow> 'tx stratum_context \<Rightarrow> (disconnected + unit) \<times> 'tx stratum_context" where
  "reply response ctx =
     (if disconnecting ctx then (Inl ErrorDisconnected, ctx) else write_data (Response response) ctx)"

definition ctx_send :: "json_rpc_event \<Rightarrow> 'tx stratum_context \<Rightarrow> (disconnected + unit) \<times> 'tx stratum_context" where
  "ctx_send event ctx =
     (if disconnecting ctx then (Inl ErrorDisconnected, ctx) else write_data (Event event) ctx)"

definition send_notification :: "string \<Rightarrow> json list \<Rightarrow> 'tx stratum_context
    \<Rightarrow> (disconnected + unit) \<times> 'tx stratum_context" where
  "send_notification m ps ctx =
     (if disconnecting ctx then (Inl ErrorDisconnected, ctx) else write_data (Notification m ps) ctx)"

definition send_v1_notification :: "string \<Rightarrow> json list \<Rightarrow> 'tx stratum_context
    \<Rightarrow> (disconnected + unit) \<times> 'tx stratum_context" where
  "send_v1_notification m ps ctx =
     (if disconnecting ctx then (Inl ErrorDisconnected, ctx) else write_data (V1Notification m ps) ctx)"

definition send_reconnect_hint :: "string \<Rightarrow> u16 \<Rightarrow> u64 \<Rightarrow> 'tx stratum_context
    \<Rightarrow> (disconnected + unit) \<times> 'tx stratum_context" where
  "send_reconnect_hint host port wait_secs ctx =
     ctx_send \<lparr>ev_id = None, jsonrpc = ''2.0'', ev_method = ''client.reconnect'',
       params = [JStr host, JNum (NumInt (uint port)), JNum (NumInt (uint wait_secs))]\<rparr> ctx"

definition reply_stale_share :: "json option \<Rightarrow> 'tx stratum_context \<Rightarrow> (disconnected + unit) \<times> 'tx stratum_context" where
  "reply_stale_share i = reply (response_error i 21 ''Job not found'' None)"

definition reply_dupe_share :: "json option \<Rightarrow> 'tx stratum_context \<Rightarrow> (disconnected + unit) \<times> 'tx stratum_context" where
  "reply_dupe_share i = reply (response_error i 22 ''Duplicate share submitted'' None)"

definition reply_bad_share :: "json option \<Rightarrow> 'tx stratum_context \<Rightarrow> (disconnected + unit) \<times> 'tx stratum_context" where
  "reply_bad_share i = reply (response_error i 20 ''Unknown problem'' None)"

definition reply_low_diff_share :: "json \<Rightarrow> 'tx stratum_context \<Rightarrow> (disconnected + unit) \<times> 'tx stratum_context" where
  "reply_low_diff_share i = reply (response_error (Some i) 23 ''Invalid difficulty'' None)"

section \<open>What a write does\<close>

text \<open>A write touches the socket script, the wire and the connection flags, nothing else.\<close>

definition same_session :: "'tx stratum_context \<Rightarrow> 'tx stratum_context \<Rightarrow> bool" where
  "same_session ctx ctx' \<longleftrightarrow>
     ctx' = ctx\<lparr>disconnecting := disconnecting ctx', read_half := read_half ctx',
                write_half := write_half ctx', socket := socket ctx', wire := wire ctx'\<rparr>"

lemma same_session_refl [simp]: "same_session ctx ctx"
  by (simp add: same_session_def)

lemma same_session_trans: "same_session a b \<Longrightarrow> same_session b c \<Longrightarrow> same_session a c"
  by (cases a; cases b; cases c) (simp add: same_session_def)

lemma same_session_fields:
  assumes "same_session a b"
  shows "mstate b = mstate a" "wallet_addr b = wallet_addr a" "worker_name b = worker_name a"
    "client_id b = client_id a" "extranonce b = extranonce a" "remote_app b = remote_app a"
    "kas_payout b = kas_payout a" "session_uid b = session_uid a" "local_port b = local_port a"
    "worker_name_supplied b = worker_name_supplied a" "vardiff_registered b = vardiff_registered a"
    "session_opened b = session_opened a" "remote_addr b = remote_addr a" "remote_port b = remote_port a"
  using assms by (cases a; cases b; simp add: same_session_def)+

lemma same_session_steps [simp]:
  "same_session ctx (snd (next_attempt ctx))" "same_session ctx (put item ctx)"
  "same_session ctx (put_cut some f ctx)" "same_session ctx (check_disconnect ctx)"
  "same_session ctx (disconnect ctx)"
  by (simp_all add: same_session_def next_attempt_def put_def put_cut_def check_disconnect_def
      disconnect_def split: list.splits)

lemma wire_steps [simp]:
  "wire (snd (next_attempt ctx)) = wire ctx" "wire (check_disconnect ctx) = wire ctx"
  "wire (put item ctx) = wire ctx @ [item]"
  "wire (put_cut some f ctx) = wire ctx @ (if some then [Cut f] else [])"
  "wire (disconnect ctx) = wire ctx"
  by (simp_all add: next_attempt_def put_def put_cut_def check_disconnect_def disconnect_def split: list.splits)

lemma write_loop_effect:
  "write_loop n f ctx = (r, ctx') \<Longrightarrow>
     same_session ctx ctx'
     \<and> (\<exists>k\<le>n. wire ctx' = wire ctx @ replicate k (Cut f) @ (if r = Inr () then [Whole f] else []))"
proof (induction n f ctx arbitrary: r ctx' rule: write_loop.induct)
  case (1 f ctx)
  then show ?case by auto
next
  case (2 left f ctx)
  obtain a c where a: "next_attempt ctx = (a, c)" by fastforce
  have c: "same_session ctx c" "wire c = wire ctx"
    using same_session_steps(1) [of ctx] wire_steps(1) [of ctx] by (simp_all add: a)
  have retry: ?case if w: "write_loop left f c' = (r, ctx')" and s: "same_session c c'"
    and cut: "wire c' = wire ctx @ (if b then [Cut f] else [])"
    and IH: "same_session c' ctx' \<and> (\<exists>k\<le>left. wire ctx' = wire c' @ replicate k (Cut f)
        @ (if r = Inr () then [Whole f] else []))" for c' b
  proof -
    obtain k where k: "k \<le> left" "wire ctx' = wire c' @ replicate k (Cut f) @ (if r = Inr () then [Whole f] else [])"
      using IH by blast
    have "same_session ctx ctx'" using c(1) s IH same_session_trans by blast
    moreover have "wire ctx' = wire ctx @ replicate (k + (if b then 1 else 0)) (Cut f)
        @ (if r = Inr () then [Whole f] else [])"
      using k(2) cut by (simp add: replicate_append_same [symmetric])
    ultimately show ?thesis
      using k(1) by (intro conjI exI [of _ "k + (if b then 1 else 0)"]) auto
  qed
  have stop: ?case if "same_session c ctx'" "wire ctx' = wire ctx @ replicate k (Cut f) @ (if r = Inr () then [Whole f] else [])"
    "k \<le> 1" for k
    using that c(1) same_session_trans by (intro conjI exI [of _ k]) auto
  show ?case
  proof (cases a)
    case Blocked
    then have w: "write_loop left f c = (r, ctx')" using "2.prems" a by simp
    have "same_session c ctx' \<and> (\<exists>k\<le>left. wire ctx' = wire c @ replicate k (Cut f)
        @ (if r = Inr () then [Whole f] else []))"
      by (rule "2.IH"(1) [OF a [symmetric] refl Blocked w])
    then show ?thesis using retry [OF w, of False] c(2) by simp
  next
    case Written
    then show ?thesis using "2.prems" a c(2)
      by (intro stop [of 0]) (auto split: if_splits)
  next
    case (WriteFailed b)
    then show ?thesis using "2.prems" a c(2) same_session_trans [OF same_session_steps(3,4)]
      by (intro stop [of "if b \<and> write_half c then 1 else 0"]) (auto split: if_splits)
  next
    case (TimedOut b)
    show ?thesis
    proof (cases "write_half c \<and> 0 < left")
      case True
      then have w: "write_loop left f (put_cut b f c) = (r, ctx')" using "2.prems" a TimedOut by simp
      have "same_session (put_cut b f c) ctx' \<and> (\<exists>k\<le>left. wire ctx' = wire (put_cut b f c) @ replicate k (Cut f)
          @ (if r = Inr () then [Whole f] else []))"
        using True TimedOut by (intro "2.IH"(2) [OF a [symmetric] refl _ _ TimedOut _ w]) auto
      then show ?thesis using retry [OF w, of b] c(2) by simp
    next
      case False
      then show ?thesis using "2.prems" a c(2) TimedOut same_session_trans [OF same_session_steps(3,4)]
        by (intro stop [of "if b \<and> write_half c then 1 else 0"]) (auto split: if_splits)
    qed
  qed
qed

text \<open>The frames that went out whole.\<close>

fun whole_frame :: "wire_item \<Rightarrow> frame option" where
  "whole_frame (Whole f) = Some f"
| "whole_frame (Cut f) = None"

definition delivered :: "'tx stratum_context \<Rightarrow> frame list" where
  "delivered ctx = List.map_filter whole_frame (wire ctx)"

lemma delivered_cong: "wire ctx' = wire ctx \<Longrightarrow> delivered ctx' = delivered ctx"
  by (simp add: delivered_def)

lemma map_filter_append [simp]: "List.map_filter f (xs @ ys) = List.map_filter f xs @ List.map_filter f ys"
  by (simp add: List.map_filter_def)

lemma map_filter_cuts [simp]: "List.map_filter whole_frame (replicate k (Cut f)) = []"
  by (induction k) (simp_all add: List.map_filter_def)

section \<open>The interface for sending\<close>

text \<open>
  Every way of sending puts one frame through \<open>write_data\<close>.  The handlers rely on what
  follows: a send leaves the session alone, ends in a whole frame or an error, and is silent
  once the connection is going down.
\<close>

locale frame_sender =
  fixes send :: "'m \<Rightarrow> 'tx stratum_context \<Rightarrow> (disconnected + unit) \<times> 'tx stratum_context"
    and frame_of :: "'m \<Rightarrow> frame"
  assumes send_is_write: "send m ctx = write_data (frame_of m) ctx"
begin

lemma same: "same_session ctx (snd (send m ctx))"
proof (cases "write_loop 3 (frame_of m) ctx")
  case (Pair r c)
  then show ?thesis using write_loop_effect [OF Pair] by (simp add: send_is_write write_data_def)
qed

lemma delivers:
  assumes "send m ctx = (r, ctx')"
  shows "\<exists>k\<le>3. wire ctx' = wire ctx @ replicate k (Cut (frame_of m))
           @ (if r = Inr () then [Whole (frame_of m)] else [])"
  using assms write_loop_effect [of 3 "frame_of m" ctx r ctx']
  by (auto simp: send_is_write write_data_def split: if_splits)

lemma silent: "disconnecting ctx \<Longrightarrow> send m ctx = (Inl ErrorDisconnected, ctx)"
  by (simp add: send_is_write write_data_def)

lemma delivered:
  "delivered (snd (send m ctx)) = delivered ctx @ (if fst (send m ctx) = Inr () then [frame_of m] else [])"
proof -
  obtain k where "wire (snd (send m ctx)) = wire ctx @ replicate k (Cut (frame_of m))
      @ (if fst (send m ctx) = Inr () then [Whole (frame_of m)] else [])"
    using delivers [of m ctx "fst (send m ctx)" "snd (send m ctx)"] by auto
  then show ?thesis by (simp add: delivered_def List.map_filter_def)
qed

lemmas keeps = same_session_fields [OF same]

end

interpretation rep: frame_sender reply Response
  by unfold_locales (simp add: reply_def write_data_def)

interpretation snd_ev: frame_sender ctx_send Event
  by unfold_locales (simp add: ctx_send_def write_data_def)

interpretation notif: frame_sender "\<lambda>(m, ps). send_notification m ps" "\<lambda>(m, ps). Notification m ps"
  by unfold_locales (auto simp: send_notification_def write_data_def)

interpretation v1: frame_sender "\<lambda>(m, ps). send_v1_notification m ps" "\<lambda>(m, ps). V1Notification m ps"
  by unfold_locales (auto simp: send_v1_notification_def write_data_def)

section \<open>Properties\<close>

text \<open>
  C36: a reply either succeeds, and then exactly one whole frame is put on the wire after at
  most three cut-off beginnings of the same frame, or fails, and then no whole frame is; and on
  a connection that is going down it fails and puts nothing on the wire.
\<close>

theorem reply_delivers_or_fails:
  "\<exists>k\<le>3. wire (snd (reply resp ctx)) = wire ctx @ replicate k (Cut (Response resp))
       @ (if fst (reply resp ctx) = Inr () then [Whole (Response resp)] else [])
     \<and> (if disconnecting ctx then reply resp ctx = (Inl ErrorDisconnected, ctx) else True)"
  using rep.delivers [of resp ctx "fst (reply resp ctx)" "snd (reply resp ctx)"] rep.silent [of ctx resp]
  by (auto split: if_splits)

text \<open>
  A write that runs into its deadline after some bytes went out is repeated from the first byte:
  the miner then receives the beginning of the frame twice on one line.
\<close>

lemma retry_repeats_cut_frame:
  "disconnecting ctx = False \<Longrightarrow> write_half ctx \<Longrightarrow> socket ctx = [TimedOut True, Written] \<Longrightarrow>
   fst (reply resp ctx) = Inr ()
   \<and> wire (snd (reply resp ctx)) = wire ctx @ [Cut (Response resp), Whole (Response resp)]"
  by (simp add: reply_def write_data_def numeral_3_eq_3 next_attempt_def put_def put_cut_def)

text \<open>The one-shot flags.\<close>

lemma session_opened_once: "fst (claim_session_open (snd (claim_session_open ctx))) = False"
  by (simp add: claim_session_open_def)

lemma template_generation_grows:
  "next_template_generation ctx = Some (g, ctx') \<Longrightarrow> template_generation ctx < g \<and> template_generation ctx' = g"
  using unat_succ [of "template_generation ctx"]
  by (auto simp: next_template_generation_def word_less_nat_alt split: if_splits)

lemma disconnect_idempotent: "disconnect (disconnect ctx) = disconnect ctx"
  by (simp add: disconnect_def)

text \<open>After authorization the label of a worker is never blank.\<close>

lemma worker_name_never_blank: "trim (worker_name (set_authorized_worker_name w ctx)) \<noteq> []"
proof -
  have "scalars (''asic-'' @ s) = ''a'' # scalars (''sic-'' @ s)" for s
    by (simp add: scalar_width_def byte_def)
  then have "trim (''asic-'' @ s) \<noteq> []" for s
    unfolding trim_eq_Nil_iff by (simp add: is_ws_def byte_def)
  then show ?thesis
    by (simp add: set_authorized_worker_name_def ensure_default_worker_name_def split: option.splits)
qed

end
