(* ===== verification/KaspaApi.thy ===== *)
theory KaspaApi
  imports Merged SubmitGuards
begin

text \<open>
  \<^verbatim>\<open>kaspaapi.rs\<close>: what the bridge asks of the ZKAS node and of the Kaspa parent node.  The
  two nodes are services: the answer a call would get is an argument of the operation, and
  what was sent to them is logged in the state (\<open>zkas_log\<close>, \<open>kas_log\<close>,
  \<open>parent_requests\<close>), so that a property can speak about it.  Times are arguments.
\<close>

section \<open>Outcomes\<close>

datatype reject_reason = BlockInvalid | IsInIBD | RouteIsFull

datatype submit_report = ReportSuccess | ReportReject reject_reason

datatype block_submit_outcome = NodeAccepted | RejectedByNode reject_reason

datatype merged_parent_submit_outcome =
    NotMerged
  | DoesNotClearKaspa
  | NoKaspaClient
  | ParentAccepted string string
  | ParentRejected string reject_reason
  | TransportError string string

fun parent_metric_label :: "merged_parent_submit_outcome \<Rightarrow> string" where
  "parent_metric_label NotMerged = ''not_merged''"
| "parent_metric_label DoesNotClearKaspa = ''does_not_clear''"
| "parent_metric_label NoKaspaClient = ''no_client''"
| "parent_metric_label (ParentAccepted h w) = ''accepted''"
| "parent_metric_label (ParentRejected h r) = ''rejected''"
| "parent_metric_label (TransportError h e) = ''transport_error''"

fun is_accepted :: "block_submit_outcome \<Rightarrow> bool" where
  "is_accepted NodeAccepted = True"
| "is_accepted (RejectedByNode r) = False"

fun submit_block_reject_label :: "reject_reason \<Rightarrow> string" where
  "submit_block_reject_label BlockInvalid = ''BlockInvalid''"
| "submit_block_reject_label IsInIBD = ''IsInIBD''"
| "submit_block_reject_label RouteIsFull = ''RouteIsFull''"

section \<open>Coinbase tags\<close>

definition STRATUM_COINBASE_TAG :: string where
  "STRATUM_COINBASE_TAG = ''RK-Stratum''"

definition MAX_COINBASE_TAG_SUFFIX_LEN :: nat where
  "MAX_COINBASE_TAG_SUFFIX_LEN = 64"

definition tag_char :: "char \<Rightarrow> bool" where
  "tag_char c \<longleftrightarrow> is_ascii_alnum c \<or> c \<in> {CHR ''.'', CHR ''_'', CHR ''-''}"

definition is_ascii_whitespace :: "char \<Rightarrow> bool" where
  "is_ascii_whitespace c \<longleftrightarrow> byte c \<in> {9, 10, 12, 13, 32}"

fun sanitize_loop :: "string \<Rightarrow> string list \<Rightarrow> string" where
  "sanitize_loop out [] = out"
| "sanitize_loop out (ch # rest) =
     (if MAX_COINBASE_TAG_SUFFIX_LEN \<le> length out then out
      else if scalar_is tag_char ch then sanitize_loop (out @ ch) rest
      else if scalar_is is_ascii_whitespace ch then sanitize_loop (out @ ''_'') rest
      else sanitize_loop out rest)"

definition sanitize_coinbase_tag_suffix :: "string \<Rightarrow> string option" where
  "sanitize_coinbase_tag_suffix sfx =
     (let sfx = dropWhile (\<lambda>c. c = CHR ''/'') (trim sfx)
      in if sfx = [] then None
         else let out = sanitize_loop [] (scalars sfx);
                  out = rev (dropWhile (\<lambda>c. c = CHR ''_'') (rev (dropWhile (\<lambda>c. c = CHR ''_'') out)))
              in if out = [] then None else Some out)"

definition build_coinbase_tag :: "string option \<Rightarrow> string" where
  "build_coinbase_tag sfx =
     STRATUM_COINBASE_TAG @
     (case Option.bind sfx sanitize_coinbase_tag_suffix of Some s \<Rightarrow> ''/'' @ s | None \<Rightarrow> [])"

definition build_lane_coinbase_tag :: "string \<Rightarrow> u64 \<Rightarrow> u64 \<Rightarrow> string" where
  "build_lane_coinbase_tag base session_uid generation =
     base @ ''/s'' @ hex16 session_uid @ ''/g'' @ hex16 generation"

section \<open>State\<close>

record 'tx kaspa_api =
  coinbase_tag :: string
  coinbase_address_override :: "kaspa_address option"
  merged_mining :: bool
  pending_fc :: "'tx merged_pending"
  kaspa_client :: bool
  kaspa_pay :: "kaspa_address option"
  kaspa_parent_cache :: "(hash \<times> string \<times> 'tx block \<times> nat) option"
  submit_guard_state :: block_submit_guard
  zkas_log :: "('tx block \<times> 'tx aux_pow option) list"
  kas_log :: "'tx block list"
  template_requests :: "(kaspa_address \<times> string) list"
  parent_requests :: "(kaspa_address \<times> hash \<times> 'tx block) list"

definition KASPA_PARENT_TTL :: nat where
  "KASPA_PARENT_TTL = 150 * 10 ^ 6"

section \<open>Parents\<close>

text \<open>\<open>rpc\<close> is what the parent node would answer, converted to a block.\<close>

definition fetch_kaspa_parent :: "nat \<Rightarrow> string + 'tx block \<Rightarrow> hash \<Rightarrow> kaspa_address option \<Rightarrow> bool
    \<Rightarrow> 'tx kaspa_api \<Rightarrow> (string + 'tx block) \<times> 'tx kaspa_api" where
  "fetch_kaspa_parent now rpc h_fc payee force api =
     (if \<not> kaspa_client api then (Inl ''no Kaspa node client'', api)
      else case (case payee of Some a \<Rightarrow> Some a | None \<Rightarrow> kaspa_pay api) of
        None \<Rightarrow> (Inl ''no Kaspa pay address'', api)
      | Some pay \<Rightarrow>
          let pay_key = address_text pay;
              hit = (case kaspa_parent_cache api of
                  Some (ch, cpay, parent, fetched) \<Rightarrow>
                    if \<not> force \<and> ch = h_fc \<and> cpay = pay_key \<and> now - fetched < KASPA_PARENT_TTL
                    then Some parent else None
                | None \<Rightarrow> None)
          in case hit of
               Some parent \<Rightarrow> (Inr parent, api)
             | None \<Rightarrow>
                 (case rpc of
                    Inl e \<Rightarrow> (Inl e, api)
                  | Inr parent \<Rightarrow>
                      (Inr parent, api\<lparr>kaspa_parent_cache := Some (h_fc, pay_key, parent, now),
                         parent_requests := parent_requests api @ [(pay, h_fc, parent)]\<rparr>)))"

definition refresh_merged_parent :: "'tx consensus \<Rightarrow> nat \<Rightarrow> string + 'tx block \<Rightarrow> 'tx block
    \<Rightarrow> kaspa_address option \<Rightarrow> 'tx kaspa_api \<Rightarrow> (string + 'tx block option) \<times> 'tx kaspa_api" where
  "refresh_merged_parent C now rpc current_parent payee api =
     (if \<not> merged_mining api \<or> \<not> kaspa_client api then (Inr None, api)
      else case committed_h_fc C current_parent of
        None \<Rightarrow> (Inl ''merged parent has no ZKMM commitment'', api)
      | Some h_fc \<Rightarrow>
          if \<not> is_unsolved (pending_fc api) h_fc then (Inr None, api)
          else (case fetch_kaspa_parent now rpc h_fc payee True api of
                  (Inr p, api) \<Rightarrow> (Inr (Some p), api)
                | (Inl e, api) \<Rightarrow> (Inl e, api)))"

definition merged_fc_target :: "'tx consensus \<Rightarrow> 'tx kaspa_api \<Rightarrow> 'tx block \<Rightarrow> nat option" where
  "merged_fc_target C api parent_block =
     (if \<not> merged_mining api then None
      else Option.bind (committed_h_fc C parent_block) (\<lambda>h_fc.
           map_option (\<lambda>fc. calculate_target (ucast (bits (block_header fc))))
             (pending_get (pending_fc api) h_fc)))"

definition merged_lane_paid_pool :: "'tx consensus \<Rightarrow> 'tx kaspa_api \<Rightarrow> 'tx block \<Rightarrow> bool" where
  "merged_lane_paid_pool C api parent_block =
     (case committed_h_fc C parent_block of
        Some h \<Rightarrow> paid_pool (pending_fc api) h
      | None \<Rightarrow> False)"

text \<open>
  The same method as the handlers reach it, through \<^verbatim>\<open>KaspaApiTrait\<close>: the implementation
  of the trait for \<^verbatim>\<open>KaspaApi\<close> does not define it, so the trait's default answers.
\<close>

definition trait_merged_lane_paid_pool :: "'tx consensus \<Rightarrow> 'tx kaspa_api \<Rightarrow> 'tx block \<Rightarrow> bool" where
  "trait_merged_lane_paid_pool C api parent_block = False"

definition merged_chain_hash :: "'tx consensus \<Rightarrow> 'tx kaspa_api \<Rightarrow> 'tx block \<Rightarrow> hash option" where
  "merged_chain_hash C api parent_block =
     (if \<not> merged_mining api then None else committed_h_fc C parent_block)"

definition claim_network_solution :: "'tx consensus \<Rightarrow> 'tx block \<Rightarrow> 'tx kaspa_api \<Rightarrow> bool \<times> 'tx kaspa_api" where
  "claim_network_solution C job_parent api =
     (if \<not> merged_mining api then (True, api)
      else case committed_h_fc C job_parent of
        None \<Rightarrow> (True, api)
      | Some h_fc \<Rightarrow>
          (let (b, p) = claim_solution h_fc (pending_fc api) in (b, api\<lparr>pending_fc := p\<rparr>)))"

definition submit_merged_parent_if_solved :: "'tx consensus \<Rightarrow> string + submit_report \<Rightarrow> 'tx block
    \<Rightarrow> 'tx kaspa_api \<Rightarrow> merged_parent_submit_outcome \<times> 'tx kaspa_api" where
  "submit_merged_parent_if_solved C rpc parent api =
     (if \<not> merged_mining api then (NotMerged, api)
      else if \<not> fst (check_pow C (block_header parent) (nonce (block_header parent)))
      then (DoesNotClearKaspa, api)
      else if \<not> kaspa_client api then (NoKaspaClient, api)
      else let kaspa_hash = hex_encode (header_hash C (block_header parent));
               payout_wallet = (case kaspa_pay api of Some a \<Rightarrow> address_text a | None \<Rightarrow> []);
               api = api\<lparr>kas_log := kas_log api @ [parent]\<rparr>
           in case rpc of
                Inr ReportSuccess \<Rightarrow> (ParentAccepted kaspa_hash payout_wallet, api)
              | Inr (ReportReject reason) \<Rightarrow> (ParentRejected kaspa_hash reason, api)
              | Inl error \<Rightarrow> (TransportError kaspa_hash error, api))"

section \<open>Submitting blocks\<close>

text \<open>
  An RPC error is wrapped with \<^verbatim>\<open>.context(...)\<close>, whose display form is the context alone.
\<close>

definition submit_error :: string where
  "submit_error = ''Failed to submit block''"

definition is_duplicate_error :: "string \<Rightarrow> bool" where
  "is_duplicate_error e \<longleftrightarrow> contains ''ErrDuplicateBlock'' e \<or> contains ''duplicate'' e"

definition block_to_submit :: "'tx consensus \<Rightarrow> 'tx kaspa_api \<Rightarrow> 'tx block
    \<Rightarrow> string + 'tx block \<times> 'tx aux_pow option" where
  "block_to_submit C api block =
     (if merged_mining api then
        (case Option.bind (committed_h_fc C block) (pending_get (pending_fc api)) of
           Some fc_block \<Rightarrow>
             (case assemble_aux_block C block fc_block of
                Some (b, aux) \<Rightarrow> Inr (b, Some aux)
              | None \<Rightarrow> Inl ''panic: index out of bounds'')
         | None \<Rightarrow> Inl ''merged: no pending ZKas block for the solved parent (stale template)'')
      else Inr (block, None))"

definition api_submit_block :: "'tx consensus \<Rightarrow> nat \<Rightarrow> string + submit_report \<Rightarrow> 'tx block
    \<Rightarrow> 'tx kaspa_api \<Rightarrow> (string + block_submit_outcome) \<times> 'tx kaspa_api" where
  "api_submit_block C now rpc block api =
     (case block_to_submit C api block of
        Inl e \<Rightarrow> (Inl e, api)
      | Inr (b, aux) \<Rightarrow>
          let block_hash = hex_encode (header_hash C (block_header b));
              (fresh, g) = try_mark block_hash now (submit_guard_state api);
              api = api\<lparr>submit_guard_state := g\<rparr>
          in if \<not> fresh then (Inl ''ErrDuplicateBlock: block already submitted'', api)
             else let api = api\<lparr>zkas_log := zkas_log api @ [(b, aux)]\<rparr>
                  in case rpc of
                       Inr ReportSuccess \<Rightarrow> (Inr NodeAccepted, api)
                     | Inr (ReportReject reason) \<Rightarrow> (Inr (RejectedByNode reason), api)
                     | Inl _ \<Rightarrow>
                         (Inl submit_error,
                          if is_duplicate_error submit_error then api
                          else api\<lparr>submit_guard_state :=
                                 guard_remove block_hash now (submit_guard_state api)\<rparr>))"

section \<open>Templates\<close>

definition resolve_coinbase_recipient :: "'tx consensus \<Rightarrow> kaspa_address option \<Rightarrow> string
    \<Rightarrow> string + kaspa_address" where
  "resolve_coinbase_recipient C override_addr wallet =
     (case override_addr of
        Some a \<Rightarrow> Inr a
      | None \<Rightarrow>
          (case address_try_from C wallet of
             Inr a \<Rightarrow> Inr a
           | Inl e \<Rightarrow> Inl (''Could not decode address '' @ wallet @ '': '' @ e)))"

text \<open>One answer of the ZKAS node to a template request, and its conversion to a block.\<close>

datatype 'tx template_reply = RpcFailed string | ConvertFailed string | Converted "'tx block"

definition odd_digits :: "string \<Rightarrow> bool" where
  "odd_digits e = contains ''Odd number of digits'' e"

definition accept_template :: "'tx consensus \<Rightarrow> nat \<Rightarrow> nat \<Rightarrow> string + 'tx block \<Rightarrow> kaspa_address option \<Rightarrow> u64
    \<Rightarrow> 'tx block \<Rightarrow> 'tx kaspa_api \<Rightarrow> 'tx block \<times> 'tx kaspa_api" where
  "accept_template C now unix_secs parent_rpc kas lane_id block api =
     (if \<not> merged_mining api then (block, api)
      else let h_fc = hdr_hash (block_header block);
               minute_of_hour = (unix_secs div 60) mod 60;
               in_fee_minute = is_pool_fee_minute lane_id (word_of_nat minute_of_hour);
               payee = (if in_fee_minute then None else kas);
               paid = (payee = None);
               (fetched, api) = fetch_kaspa_parent now parent_rpc h_fc payee False api;
               parent = (case fetched of Inr p \<Rightarrow> p | Inl e \<Rightarrow> fst (build_parent_block C block))
           in (parent, api\<lparr>pending_fc := insert_with_payee h_fc block paid (pending_fc api)\<rparr>))"

text \<open>
  The retry loop.  Each attempt either returns or leaves one attempt less; the equation for no
  attempts left is the line after the loop, which the last attempt never reaches.
\<close>

fun template_loop :: "'tx consensus \<Rightarrow> (u8 list \<Rightarrow> hash) \<Rightarrow> nat \<Rightarrow> nat \<Rightarrow> string + 'tx block
    \<Rightarrow> string \<Rightarrow> u64 \<Rightarrow> u64 \<Rightarrow> kaspa_address option \<Rightarrow> u64 \<Rightarrow> nat \<Rightarrow> 'tx template_reply list
    \<Rightarrow> 'tx kaspa_api \<Rightarrow> (string + 'tx block) \<times> 'tx kaspa_api" where
  "template_loop C H now unix_secs parent_rpc wallet uid gen kas lane_id 0 replies api =
     (Inl ''Failed to get valid block template after 3 attempts'', api)"
| "template_loop C H now unix_secs parent_rpc wallet uid gen kas lane_id (Suc left) replies api =
     (case resolve_coinbase_recipient C (coinbase_address_override api) wallet of
        Inl e \<Rightarrow> (Inl e, api)
      | Inr address \<Rightarrow>
          let api = api\<lparr>template_requests := template_requests api
                @ [(address, build_lane_coinbase_tag (coinbase_tag api) uid gen)]\<rparr>;
              (r, rest) = (case replies of r # rest \<Rightarrow> (r, rest) | [] \<Rightarrow> (RpcFailed [], []))
          in case r of
               RpcFailed e \<Rightarrow>
                 (if 0 < left
                  then template_loop C H now unix_secs parent_rpc wallet uid gen kas lane_id left rest api
                  else (Inl (''Failed to get block template after 3 attempts: '' @ e), api))
             | ConvertFailed e \<Rightarrow>
                 (if odd_digits e \<and> 0 < left
                  then template_loop C H now unix_secs parent_rpc wallet uid gen kas lane_id left rest api
                  else if odd_digits e
                  then (Inl (''Failed to convert RPC block to Block after 3 attempts: '' @ e @
                    '' - This usually indicates a malformed hash field in the block template from the Kaspa node. The block may have a hash with an odd-length hex string.''), api)
                  else (Inl (''Failed to convert RPC block to Block: '' @ e), api))
             | Converted block \<Rightarrow>
                 (case serialize_block_header H (block_header block) of
                    Inr _ \<Rightarrow>
                      (let (b, api) = accept_template C now unix_secs parent_rpc kas lane_id block api
                       in (Inr b, api))
                  | Inl e \<Rightarrow>
                      (if odd_digits e \<and> 0 < left
                       then template_loop C H now unix_secs parent_rpc wallet uid gen kas lane_id left rest api
                       else (Inl (''Failed to serialize block header: '' @ e), api))))"

definition get_block_template :: "'tx consensus \<Rightarrow> (u8 list \<Rightarrow> hash) \<Rightarrow> nat \<Rightarrow> nat \<Rightarrow> string + 'tx block
    \<Rightarrow> 'tx template_reply list \<Rightarrow> string \<Rightarrow> u64 \<Rightarrow> u64 \<Rightarrow> kaspa_address option \<Rightarrow> u64
    \<Rightarrow> 'tx kaspa_api \<Rightarrow> (string + 'tx block) \<times> 'tx kaspa_api" where
  "get_block_template C H now unix_secs parent_rpc replies wallet uid gen kas lane_id api =
     template_loop C H now unix_secs parent_rpc wallet uid gen kas lane_id 3 replies api"

section \<open>Tags\<close>

lemma hex16_inj: "hex16 v = hex16 w \<longleftrightarrow> v = w"
proof
  assume "hex16 v = hex16 w"
  then have "digits_val 16 0 (radix_digits 16 16 (unat v)) = digits_val 16 0 (radix_digits 16 16 (unat w))"
    by (simp only: hex16_def)
  then have "unat v mod 16 ^ 16 = unat w mod 16 ^ 16"
    by (simp only: digits_val_radix_digits) simp
  moreover have "unat x < 16 ^ 16" for x :: u64
    using unsigned_less [where 'a = nat, of x] by simp
  ultimately show "v = w" by (simp add: word_unat_eq_iff)
qed simp

text \<open>
  The coinbase tag of a template names its lane: two templates of the same bridge carry the
  same tag only if they were cut for the same session and the same generation.
\<close>

lemma lane_tag_unique:
  "build_lane_coinbase_tag base uid gen = build_lane_coinbase_tag base uid' gen' \<longleftrightarrow> uid = uid' \<and> gen = gen'"
proof
  assume "build_lane_coinbase_tag base uid gen = build_lane_coinbase_tag base uid' gen'"
  then have "hex16 uid @ ''/g'' @ hex16 gen = hex16 uid' @ ''/g'' @ hex16 gen'"
    by (simp add: build_lane_coinbase_tag_def)
  moreover have "length (hex16 uid) = length (hex16 uid')" by (simp add: hex16_def)
  ultimately have "hex16 uid = hex16 uid'" "hex16 gen = hex16 gen'" by simp_all
  then show "uid = uid' \<and> gen = gen'" by (simp add: hex16_inj)
qed simp

lemma sanitize_loop_ok:
  assumes "list_all tag_char out" and "length out \<le> 64"
  shows "list_all tag_char (sanitize_loop out cs) \<and> length (sanitize_loop out cs) \<le> 64"
  using assms
proof (induction out cs rule: sanitize_loop.induct)
  case (2 out ch rest)
  have one: "scalar_is p ch \<Longrightarrow> \<exists>c. ch = [c] \<and> p c" for p
    by (auto simp: scalar_is_def split: list.splits)
  have "tag_char (CHR ''_'')" by (simp add: tag_char_def)
  then show ?case
    using 2 one [of tag_char] one [of is_ascii_whitespace]
    by (auto simp: MAX_COINBASE_TAG_SUFFIX_LEN_def)
qed simp

lemma strip_both_ends:
  assumes "out' = rev (dropWhile p (rev (dropWhile p out)))" and "out' \<noteq> []"
  shows "set out' \<subseteq> set out \<and> length out' \<le> length out \<and> \<not> p (hd out') \<and> \<not> p (last out')"
proof -
  have "\<not> p (last out')"
    using assms hd_dropWhile [of p "rev (dropWhile p out)"] by (simp add: last_rev)
  moreover have "\<not> p (hd out')"
  proof -
    obtain u where u: "dropWhile p out = out' @ u"
      using assms(1) takeWhile_dropWhile_id [of p "rev (dropWhile p out)"] by (metis rev_append rev_rev_ident)
    then have "hd (dropWhile p out) = hd out'" "dropWhile p out \<noteq> []" using assms(2) by simp_all
    then show ?thesis using hd_dropWhile by metis
  qed
  moreover have "set out' \<subseteq> set out" using assms(1) by (auto dest!: set_dropWhileD)
  moreover have "length out' \<le> length out"
    using assms(1) length_dropWhile_le [of p out] length_dropWhile_le [of p "rev (dropWhile p out)"] by simp
  ultimately show ?thesis by blast
qed

text \<open>
  Whatever the operator configures, the tag suffix that reaches a coinbase is one to 64
  letters, digits, dots, underscores and dashes, and neither begins nor ends with an underscore.
\<close>

lemma tag_suffix_safe:
  assumes "sanitize_coinbase_tag_suffix s = Some out"
  shows "out \<noteq> [] \<and> length out \<le> 64 \<and> list_all tag_char out
    \<and> hd out \<noteq> CHR ''_'' \<and> last out \<noteq> CHR ''_''"
proof -
  define raw where "raw = sanitize_loop [] (scalars (dropWhile (\<lambda>c. c = CHR ''/'') (trim s)))"
  define cut where "cut = rev (dropWhile (\<lambda>c. c = CHR ''_'') (rev (dropWhile (\<lambda>c. c = CHR ''_'') raw)))"
  have "out = cut" "cut \<noteq> []"
    using assms unfolding sanitize_coinbase_tag_suffix_def Let_def raw_def [symmetric] cut_def [symmetric]
    by (auto split: if_splits)
  then have o: "out = rev (dropWhile (\<lambda>c. c = CHR ''_'') (rev (dropWhile (\<lambda>c. c = CHR ''_'') raw)))"
    "out \<noteq> []"
    by (simp_all add: cut_def)
  have "list_all tag_char raw \<and> length raw \<le> 64"
    unfolding raw_def by (rule sanitize_loop_ok) simp_all
  then show ?thesis
    using strip_both_ends [OF o] o(2) by (auto simp: list_all_iff)
qed

lemma tag_suffix_safe_witness: "length ''my_pool-1'' \<le> 64 \<and> hd ''my_pool-1'' \<noteq> CHR ''_''"
proof -
  have "sanitize_coinbase_tag_suffix ''/ my pool-1! '' = Some ''my_pool-1''" by code_simp
  from tag_suffix_safe [OF this] show ?thesis by simp
qed

section \<open>Submissions\<close>

lemma api_submit_cases:
  assumes "block_to_submit C api block = Inr (b, aux)"
  defines "h \<equiv> hex_encode (header_hash C (block_header b))"
  shows "api_submit_block C now rpc block api =
    (let (fresh, g) = try_mark h now (submit_guard_state api)
     in if \<not> fresh then (Inl ''ErrDuplicateBlock: block already submitted'', api\<lparr>submit_guard_state := g\<rparr>)
        else case rpc of
               Inr ReportSuccess \<Rightarrow> (Inr NodeAccepted, api\<lparr>submit_guard_state := g, zkas_log := zkas_log api @ [(b, aux)]\<rparr>)
             | Inr (ReportReject reason) \<Rightarrow>
                 (Inr (RejectedByNode reason), api\<lparr>submit_guard_state := g, zkas_log := zkas_log api @ [(b, aux)]\<rparr>)
             | Inl _ \<Rightarrow> (Inl submit_error, api\<lparr>submit_guard_state := guard_remove h now g,
                 zkas_log := zkas_log api @ [(b, aux)]\<rparr>))"
proof -
  have "\<not> is_duplicate_error submit_error" by code_simp
  then show ?thesis
    using assms(1) unfolding h_def
    by (auto simp: api_submit_block_def Let_def split: prod.splits sum.splits submit_report.splits)
qed


definition demo_api :: "nat kaspa_api" where
  "demo_api = \<lparr>coinbase_tag = ''RK-Stratum'', coinbase_address_override = None, merged_mining = False,
     pending_fc = pending_new 4, kaspa_client = False, kaspa_pay = Some (Address ''kaspa:pool''),
     kaspa_parent_cache = None, submit_guard_state = BLOCK_SUBMIT_GUARD, zkas_log = [], kas_log = [],
     template_requests = [], parent_requests = []\<rparr>"

definition plain_block :: "nat block" where
  "plain_block = \<lparr>block_header = sample_header, transactions = [1]\<rparr>"

lemma demo_to_submit: "merged_mining api = False \<Longrightarrow> block_to_submit C api plain_block = Inr (plain_block, None)"
  by (simp add: block_to_submit_def)


text \<open>
  A transport error does not block a retry: when the call to the node failed, the same block
  submitted again, at any later time, is sent to the node again.
\<close>

lemma transport_error_allows_retry:
  assumes "block_to_submit C api block = Inr (b, aux)"
    and "api_submit_block C t0 (Inl err) block api = (r, api1)"
    and "r \<noteq> Inl ''ErrDuplicateBlock: block already submitted''"
  shows "zkas_log api1 = zkas_log api @ [(b, aux)]
    \<and> zkas_log (snd (api_submit_block C t1 rpc block api1)) = zkas_log api1 @ [(b, aux)]"
proof -
  let ?h = "hex_encode (header_hash C (block_header b))"
  let ?g = "snd (try_mark ?h t0 (submit_guard_state api))"
  have api1: "api1 = api\<lparr>submit_guard_state := guard_remove ?h t0 ?g, zkas_log := zkas_log api @ [(b, aux)]\<rparr>"
    using assms(2,3) unfolding api_submit_cases [OF assms(1)]
    by (cases "try_mark ?h t0 (submit_guard_state api)") (auto split: if_splits)
  have "block_to_submit C api1 block = block_to_submit C api block"
    by (simp add: api1 block_to_submit_def)
  then have same: "block_to_submit C api1 block = Inr (b, aux)" using assms(1) by simp
  have "\<not> hm_has (entries (guard_remove ?h t0 ?g)) ?h"
    by (simp add: guard_remove_def Let_def)
  then have "fst (try_mark ?h t1 (guard_remove ?h t0 ?g))"
    using prune_subset unfolding try_mark_def block_prune_def Let_def by fastforce
  then show ?thesis
    unfolding api_submit_cases [OF same]
    by (cases "try_mark ?h t1 (guard_remove ?h t0 ?g)")
      (auto simp: api1 split: sum.splits submit_report.splits)
qed

lemma transport_error_allows_retry_witness:
  "zkas_log (snd (api_submit_block demo_consensus 6 (Inr ReportSuccess) plain_block
     (snd (api_submit_block demo_consensus 5 (Inl ''timeout'') plain_block demo_api))))
   = [(plain_block, None), (plain_block, None)]"
proof -
  let ?s = "api_submit_block demo_consensus 5 (Inl ''timeout'') plain_block demo_api"
  have m: "merged_mining demo_api = False" by (simp add: demo_api_def)
  have mark: "fst (try_mark h 5 BLOCK_SUBMIT_GUARD)" for h
    by (simp add: try_mark_def block_prune_def BLOCK_SUBMIT_GUARD_def block_guard_new_def prune_def
        prune_excess.simps Let_def)
  have s: "?s = (fst ?s, snd ?s)" by simp
  have "fst ?s = Inl submit_error"
    using mark [of "hex_encode (header_hash demo_consensus (block_header plain_block))"]
    unfolding api_submit_cases [OF demo_to_submit [OF m]]
    by (auto simp: demo_api_def split: prod.splits)
  then have "fst ?s \<noteq> Inl ''ErrDuplicateBlock: block already submitted''" by (simp add: submit_error_def)
  from transport_error_allows_retry [OF demo_to_submit [OF m] s this, of 6 "Inr ReportSuccess"]
  show ?thesis by (simp add: demo_api_def)
qed

text \<open>
  The test for a duplicate in the error path looks at the display form of the wrapped error,
  which is the fixed context: it never holds, whatever the node said.
\<close>

lemma rpc_duplicate_not_recognised:
  "\<not> is_duplicate_error submit_error"
  by code_simp

section \<open>Parents pay whom they should\<close>

text \<open>What the cache holds was fetched for the commitment and the payee it is filed under.\<close>

definition cache_ok :: "'tx kaspa_api \<Rightarrow> bool" where
  "cache_ok api \<longleftrightarrow> (case kaspa_parent_cache api of
      Some (h, pay, parent, fetched) \<Rightarrow> (Address pay, h, parent) \<in> set (parent_requests api)
    | None \<Rightarrow> True)"

lemma address_text_Address: "Address (address_text a) = a"
  by (cases a) simp

lemma fetch_pays:
  assumes "cache_ok api" and "fetch_kaspa_parent now rpc h_fc payee force api = (res, api')"
  shows "cache_ok api' \<and> pending_fc api' = pending_fc api \<and> merged_mining api' = merged_mining api
    \<and> kaspa_pay api' = kaspa_pay api
    \<and> (\<forall>parent. res = Inr parent \<longrightarrow>
         (\<exists>a. (case payee of Some p \<Rightarrow> Some p | None \<Rightarrow> kaspa_pay api) = Some a
            \<and> (a, h_fc, parent) \<in> set (parent_requests api')))"
proof (cases "case payee of Some p \<Rightarrow> Some p | None \<Rightarrow> kaspa_pay api")
  case None
  then show ?thesis using assms by (auto simp: fetch_kaspa_parent_def split: if_splits)
next
  case (Some pay)
  then show ?thesis
    using assms unfolding fetch_kaspa_parent_def Let_def Some
    by (auto simp: cache_ok_def address_text_Address split: if_splits option.splits sum.splits prod.splits)
qed

lemma insert_with_payee_recorded:
  assumes "pending_inv p"
  shows "pending_get (insert_with_payee h b f p) h = Some b \<and> paid_pool (insert_with_payee h b f p) h = f"
  using assms
proof (cases rule: insert_with_payee_cases [of p h b f])
  case (full old rest)
  then have "old \<noteq> h" using assms by (auto simp: pending_inv_def)
  then show ?thesis using full(4) by (simp add: pending_get_def paid_pool_def)
qed (simp_all add: pending_get_def paid_pool_def)

text \<open>The retry loop ends in one of the replies, and only the log of requests has grown.\<close>

lemma template_loop_result:
  "template_loop C H now secs parent_rpc wallet uid gen kas lane_id n replies api = (Inr parent, api') \<Longrightarrow>
   \<exists>block reqs. Converted block \<in> set replies
     \<and> (parent, api') = accept_template C now secs parent_rpc kas lane_id block (api\<lparr>template_requests := reqs\<rparr>)"
proof (induction n arbitrary: replies api)
  case (Suc left)
  obtain address where r: "resolve_coinbase_recipient C (coinbase_address_override api) wallet = Inr address"
    using Suc.prems by (auto split: sum.splits)
  let ?api = "api\<lparr>template_requests := template_requests api
      @ [(address, build_lane_coinbase_tag (coinbase_tag api) uid gen)]\<rparr>"
  obtain rep rest where rr: "(case replies of r # rest \<Rightarrow> (r, rest) | [] \<Rightarrow> (RpcFailed [], [])) = (rep, rest)"
    by fastforce
  have sub: "set rest \<subseteq> set replies" "\<And>b. rep = Converted b \<Longrightarrow> Converted b \<in> set replies"
    using rr by (auto split: list.splits)
  have again: ?case if "template_loop C H now secs parent_rpc wallet uid gen kas lane_id left rest ?api = (Inr parent, api')"
    using Suc.IH [OF that] sub(1) by auto
  show ?case
  proof (cases rep)
    case (Converted block)
    then have "(parent, api') = accept_template C now secs parent_rpc kas lane_id block ?api"
      using Suc.prems r rr by (auto simp: serialize_block_header_def split: prod.splits)
    then show ?thesis using sub(2) [OF Converted] by blast
  qed (use Suc.prems r rr again in \<open>auto simp: Let_def split: if_splits\<close>)
qed simp


text \<open>A merged template for a lane with its own address: the parent the Kaspa node built for it.\<close>

definition demo_merged_api :: "nat kaspa_api" where
  "demo_merged_api = demo_api\<lparr>merged_mining := True, kaspa_client := True\<rparr>"

definition demo_template :: "(string + nat block) \<times> nat kaspa_api" where
  "demo_template = get_block_template demo_consensus (\<lambda>b. []) 0 1200 (Inr plain_block)
     [RpcFailed ''busy'', Converted plain_block] ''kaspa:w'' 3 4 (Some (Address ''kaspa:m'')) 2 demo_merged_api"


end
