(* ===== verification/Prom.thy ===== *)
theory Prom
  imports StratumContext KaspaApi
begin

text \<open>
  \<^verbatim>\<open>prom.rs\<close>, the recording side: which series a bridge event touches.  The metrics library
  is not part of the repository: a call into it is an entry of the log \<open>calls\<close>, and reading a
  gauge back is a parameter, a function of the calls made so far (field \<open>gauge_get\<close>).  The
  statics exist once \<open>init_metrics\<close> has run (\<open>registered\<close>); until then every recording is a
  no-op.  The activity table is the bridge's own.
\<close>

section \<open>Metrics and calls\<close>

datatype metric =
    SHARE_COUNTER | SHARE_DIFF_COUNTER | INVALID_COUNTER | BLOCK_COUNTER | BLOCK_ACCEPTED_COUNTER
  | BLOCK_NOT_CONFIRMED_BLUE_COUNTER | MERGED_PARENT_SUBMIT_COUNTER | KAS_BLOCK_COUNTER | KAS_BLOCK_GAUGE
  | BLOCK_GAUGE | DISCONNECT_COUNTER | JOB_COUNTER | BALANCE_GAUGE | ERROR_BY_WALLET
  | ESTIMATED_NETWORK_HASHRATE | NETWORK_DIFFICULTY | NETWORK_BLOCK_COUNT | WORKER_START_TIME
  | ANTI_ABUSE_REJECT_COUNTER | ANTI_ABUSE_FRAME_LIMIT_COUNTER | MALFORMED_FRAME_COUNTER
  | BAD_ADDRESS_COUNTER | SHARE_ACCEPT_LATENCY | WORKER_CURRENT_DIFFICULTY

datatype metric_call =
    IncBy metric "string list" f64
  | SetTo metric "string list" f64
  | Observe metric "string list" f64

record prom =
  registered :: bool
  calls :: "metric_call list"
  last_activity :: "(string, nat) hash_map"
  gauge_get :: "metric_call list \<Rightarrow> metric \<Rightarrow> string list \<Rightarrow> f64"

definition init_metrics :: "prom \<Rightarrow> prom" where
  "init_metrics p = p\<lparr>registered := True\<rparr>"

definition call_metric :: "metric_call \<Rightarrow> prom \<Rightarrow> prom" where
  "call_metric c p = (if registered p then p\<lparr>calls := calls p @ [c]\<rparr> else p)"

definition inc :: "metric \<Rightarrow> string list \<Rightarrow> prom \<Rightarrow> prom" where
  "inc m labels = call_metric (IncBy m labels (Fin 1))"

section \<open>Workers\<close>

record worker_context =
  wc_instance_id :: string
  wc_worker_name :: string
  wc_miner :: string
  wc_wallet :: string
  wc_ip :: string

definition worker_labels :: "worker_context \<Rightarrow> string list" where
  "worker_labels w = [wc_instance_id w, wc_worker_name w, wc_miner w, wc_wallet w, wc_ip w]"

definition from_stratum_parts :: "string \<Rightarrow> string \<Rightarrow> 'tx stratum_context \<Rightarrow> string \<Rightarrow> worker_context" where
  "from_stratum_parts instance_id w ctx miner =
     \<lparr>wc_instance_id = instance_id, wc_worker_name = w, wc_miner = miner, wc_wallet = wallet_addr ctx,
      wc_ip = remote_addr ctx @ '':'' @ show_nat (unat (remote_port ctx))\<rparr>"

text \<open>
  \<^verbatim>\<open>prom_worker_id\<close> names the worker, which settles a missing name in the context.
\<close>

definition from_stratum :: "string \<Rightarrow> 'tx stratum_context \<Rightarrow> string \<Rightarrow> worker_context \<times> 'tx stratum_context" where
  "from_stratum instance_id ctx miner =
     (let (w, ctx) = effective_worker_name ctx in (from_stratum_parts instance_id w ctx miner, ctx))"

definition activity_key :: "worker_context \<Rightarrow> string" where
  "activity_key w = wc_instance_id w @ '':'' @ wc_worker_name w @ '':'' @ wc_wallet w"

definition update_worker_activity :: "worker_context \<Rightarrow> nat \<Rightarrow> prom \<Rightarrow> prom" where
  "update_worker_activity w now p = p\<lparr>last_activity := hm_insert (activity_key w) now (last_activity p)\<rparr>"

section \<open>Recording\<close>

definition observe_share_accept_latency :: "string \<Rightarrow> f64 \<Rightarrow> prom \<Rightarrow> prom" where
  "observe_share_accept_latency instance_id seconds =
     call_metric (Observe SHARE_ACCEPT_LATENCY [instance_id] seconds)"

definition record_anti_abuse_connection_reject :: "string \<Rightarrow> string \<Rightarrow> string \<Rightarrow> prom \<Rightarrow> prom" where
  "record_anti_abuse_connection_reject instance_id ip reason = inc ANTI_ABUSE_REJECT_COUNTER [instance_id, ip, reason]"

definition record_anti_abuse_frame_limited :: "string \<Rightarrow> string \<Rightarrow> prom \<Rightarrow> prom" where
  "record_anti_abuse_frame_limited instance_id ip = inc ANTI_ABUSE_FRAME_LIMIT_COUNTER [instance_id, ip]"

definition record_malformed_frame :: "string \<Rightarrow> string \<Rightarrow> prom \<Rightarrow> prom" where
  "record_malformed_frame instance_id ip = inc MALFORMED_FRAME_COUNTER [instance_id, ip]"

definition record_bad_address :: "string \<Rightarrow> string \<Rightarrow> prom \<Rightarrow> prom" where
  "record_bad_address instance_id ip = inc BAD_ADDRESS_COUNTER [instance_id, ip]"

definition record_block_accepted_by_node :: "worker_context \<Rightarrow> prom \<Rightarrow> prom" where
  "record_block_accepted_by_node w = inc BLOCK_ACCEPTED_COUNTER (worker_labels w)"

definition record_merged_parent_submit :: "worker_context \<Rightarrow> merged_parent_submit_outcome \<Rightarrow> bool \<Rightarrow> 'tx block
    \<Rightarrow> nat \<Rightarrow> prom \<Rightarrow> prom" where
  "record_merged_parent_submit w out claimed_zkas parent unix_secs p =
     (if out = NotMerged \<or> out = DoesNotClearKaspa then p
      else let p = inc MERGED_PARENT_SUBMIT_COUNTER
                 [wc_instance_id w, wc_worker_name w, wc_wallet w, parent_metric_label out,
                  if claimed_zkas then ''first'' else ''duplicate''] p
           in case out of
                ParentAccepted h payout_wallet \<Rightarrow>
                  let base = [wc_instance_id w, wc_worker_name w, wc_miner w, wc_wallet w, payout_wallet, wc_ip w];
                      p = inc KAS_BLOCK_COUNTER base p
                  in call_metric (SetTo KAS_BLOCK_GAUGE
                       (base @ [show_nat (unat (nonce (block_header parent))),
                                show_nat (unat (daa_score (block_header parent))),
                                show_nat unix_secs, h, []]) (Fin 1)) p
              | _ \<Rightarrow> p)"

definition record_block_not_confirmed_blue :: "worker_context \<Rightarrow> prom \<Rightarrow> prom" where
  "record_block_not_confirmed_blue w = inc BLOCK_NOT_CONFIRMED_BLUE_COUNTER (worker_labels w)"

definition record_share_found :: "worker_context \<Rightarrow> f64 \<Rightarrow> nat \<Rightarrow> prom \<Rightarrow> prom" where
  "record_share_found w share_diff now p =
     (let p = inc SHARE_COUNTER (worker_labels w) p;
          p = call_metric (IncBy SHARE_DIFF_COUNTER (worker_labels w) share_diff) p
      in update_worker_activity w now p)"

definition record_stale_share :: "worker_context \<Rightarrow> nat \<Rightarrow> prom \<Rightarrow> prom" where
  "record_stale_share w now p =
     update_worker_activity w now (inc INVALID_COUNTER (worker_labels w @ [''stale'']) p)"

definition record_dupe_share :: "worker_context \<Rightarrow> nat \<Rightarrow> prom \<Rightarrow> prom" where
  "record_dupe_share w now p =
     update_worker_activity w now (inc INVALID_COUNTER (worker_labels w @ [''duplicate'']) p)"

definition record_invalid_share :: "worker_context \<Rightarrow> nat \<Rightarrow> prom \<Rightarrow> prom" where
  "record_invalid_share w now p =
     update_worker_activity w now (inc INVALID_COUNTER (worker_labels w @ [''invalid'']) p)"

definition record_weak_share :: "worker_context \<Rightarrow> nat \<Rightarrow> prom \<Rightarrow> prom" where
  "record_weak_share w now p =
     update_worker_activity w now (inc INVALID_COUNTER (worker_labels w @ [''weak'']) p)"

definition record_block_found :: "worker_context \<Rightarrow> u64 \<Rightarrow> u64 \<Rightarrow> string \<Rightarrow> nat \<Rightarrow> prom \<Rightarrow> prom" where
  "record_block_found w nonce_val bluescore h unix_secs p =
     (let p = inc BLOCK_COUNTER (worker_labels w) p
      in call_metric (SetTo BLOCK_GAUGE
           (worker_labels w @ [show_nat (unat nonce_val), show_nat (unat bluescore), show_nat unix_secs, h]) (Fin 1)) p)"

definition record_disconnect :: "worker_context \<Rightarrow> prom \<Rightarrow> prom" where
  "record_disconnect w p =
     (let p = inc DISCONNECT_COUNTER (worker_labels w) p
      in p\<lparr>last_activity := hm_remove (activity_key w) (last_activity p)\<rparr>)"

definition record_new_job :: "worker_context \<Rightarrow> prom \<Rightarrow> prom" where
  "record_new_job w = inc JOB_COUNTER (worker_labels w)"

definition record_network_stats :: "u64 \<Rightarrow> u64 \<Rightarrow> f64 \<Rightarrow> prom \<Rightarrow> prom" where
  "record_network_stats hashrate block_count difficulty p =
     (let p = call_metric (SetTo ESTIMATED_NETWORK_HASHRATE [] (of_n (unat hashrate))) p;
          p = call_metric (SetTo NETWORK_BLOCK_COUNT [] (of_n (unat block_count))) p
      in call_metric (SetTo NETWORK_DIFFICULTY [] difficulty) p)"

definition record_worker_error :: "string \<Rightarrow> string \<Rightarrow> string \<Rightarrow> prom \<Rightarrow> prom" where
  "record_worker_error instance_id wallet err = inc ERROR_BY_WALLET [instance_id, wallet, err]"

definition record_balances :: "string \<Rightarrow> (string \<times> u64) list \<Rightarrow> prom \<Rightarrow> prom" where
  "record_balances instance_id balances p =
     (if registered p
      then fold (\<lambda>(address, balance). call_metric (SetTo BALANCE_GAUGE [instance_id, address]
                   (fdiv (of_n (unat balance)) (Fin 100000000)))) balances p
      else p)"

section \<open>Worker sessions\<close>

definition init_worker_counter_series :: "worker_context \<Rightarrow> prom \<Rightarrow> prom" where
  "init_worker_counter_series w p =
     (let zero = (\<lambda>m ls. call_metric (IncBy m ls (Fin 0)));
          p = zero SHARE_COUNTER (worker_labels w) p;
          p = zero SHARE_DIFF_COUNTER (worker_labels w) p;
          p = fold (\<lambda>t. zero INVALID_COUNTER (worker_labels w @ [t])) [''stale'', ''duplicate'', ''invalid'', ''weak''] p;
          p = zero BLOCK_COUNTER (worker_labels w) p;
          p = zero BLOCK_ACCEPTED_COUNTER (worker_labels w) p;
          p = zero BLOCK_NOT_CONFIRMED_BLUE_COUNTER (worker_labels w) p;
          p = zero DISCONNECT_COUNTER (worker_labels w) p;
          p = zero JOB_COUNTER (worker_labels w) p
      in if registered p \<and> fle (gauge_get p (calls p) WORKER_CURRENT_DIFFICULTY (worker_labels w)) (Fin 0)
         then call_metric (SetTo WORKER_CURRENT_DIFFICULTY (worker_labels w) (Fin 0)) p else p)"

definition ensure_worker_session_metrics :: "worker_context \<Rightarrow> f64 \<Rightarrow> nat \<Rightarrow> prom \<Rightarrow> prom" where
  "ensure_worker_session_metrics w session_start_unix now p =
     (if wc_wallet w = [] then p
      else let p = init_worker_counter_series w p;
               p = (if registered p \<and> fle (gauge_get p (calls p) WORKER_START_TIME (worker_labels w)) (Fin 0)
                    then call_metric (SetTo WORKER_START_TIME (worker_labels w) session_start_unix) p else p)
           in update_worker_activity w now p)"

definition init_worker_counters :: "worker_context \<Rightarrow> nat \<Rightarrow> nat \<Rightarrow> prom \<Rightarrow> prom" where
  "init_worker_counters w unix_secs now = ensure_worker_session_metrics w (of_n unix_secs) now"

definition update_worker_difficulty :: "worker_context \<Rightarrow> f64 \<Rightarrow> prom \<Rightarrow> prom" where
  "update_worker_difficulty w difficulty p =
     call_metric (SetTo WORKER_CURRENT_DIFFICULTY (worker_labels w) difficulty) (init_worker_counter_series w p)"

end
