(* ===== verification/WorkStats.thy ===== *)
theory WorkStats
  imports Prom Domain Vardiff
begin

text \<open>
  \<^verbatim>\<open>share_handler.rs\<close>: the handler's state, the per-worker statistics and the difficulty
  bookkeeping that hangs on them.  A \<^verbatim>\<open>WorkStats\<close> is a bundle of shared cells: cloning it
  shares the cells.  It is therefore an address into \<open>stats_heap\<close>, and the table \<open>stats\<close>
  maps a worker key to an address; an entry that the pruner drops from the table lives on for
  the tasks that still hold its address.  The \<^verbatim>\<open>i64\<close> counters are integers: they grow by
  one per share, so that their limit is out of reach.
\<close>

section \<open>Clock\<close>

text \<open>\<open>mono\<close> is \<^verbatim>\<open>Instant::now()\<close>, \<open>wall\<close> the time since the Unix epoch, in nanoseconds.\<close>

record clock =
  mono :: nat
  wall :: nat

definition wall_secs :: "clock \<Rightarrow> nat" where
  "wall_secs t = wall t div 10 ^ 9"

definition wall_millis :: "clock \<Rightarrow> nat" where
  "wall_millis t = wall t div 10 ^ 6"

section \<open>State\<close>

definition INACTIVE_VARDIFF_TTL :: nat where
  "INACTIVE_VARDIFF_TTL = 60 * 60 * 10 ^ 9"

record work_stats =
  blocks_found :: int
  shares_found :: int
  shares_diff :: f64
  stale_shares :: int
  invalid_shares :: int
  ws_worker_name :: string
  start_time :: nat
  last_share :: nat
  var_diff_start_time :: "nat option"
  var_diff_shares_found :: int
  var_diff_window :: nat
  min_diff :: f64
  active_connections :: u32
  last_session_activity :: nat

definition work_stats_new :: "string \<Rightarrow> nat \<Rightarrow> work_stats" where
  "work_stats_new w now =
     \<lparr>blocks_found = 0, shares_found = 0, shares_diff = Fin 0, stale_shares = 0, invalid_shares = 0,
      ws_worker_name = w, start_time = now, last_share = now, var_diff_start_time = None,
      var_diff_shares_found = 0, var_diff_window = 0, min_diff = Fin 0, active_connections = 0,
      last_session_activity = now\<rparr>"

definition should_retain_vardiff_stats :: "work_stats \<Rightarrow> nat \<Rightarrow> bool" where
  "should_retain_vardiff_stats st now \<longleftrightarrow>
     0 < active_connections st \<or> now - last_session_activity st < INACTIVE_VARDIFF_TTL"

text \<open>The task that waits for an accepted block to be confirmed.\<close>

record confirm_task =
  task_stats :: nat
  task_worker :: worker_context
  task_nonce :: u64
  task_blue_score :: u64
  task_hash :: string

text \<open>
  \<open>events\<close> and \<open>refreshes\<close> are what has been sent on the two broadcast channels,
  \<open>confirm_tasks\<close> the confirmation tasks spawned so far.
\<close>

record share_handler =
  stats :: "(string, nat) hash_map"
  stats_heap :: "nat \<Rightarrow> work_stats"
  next_stats :: nat
  overall :: work_stats
  sh_instance_id :: string
  duplicate_submit_guard :: duplicate_submit_guard
  event_tx :: bool
  events :: "pool_event list"
  refreshes :: "u64 list"
  confirm_tasks :: "confirm_task list"

definition share_handler_new :: "string \<Rightarrow> nat \<Rightarrow> share_handler" where
  "share_handler_new i now =
     \<lparr>stats = [], stats_heap = (\<lambda>_. work_stats_new [] now), next_stats = 0,
      overall = work_stats_new ''overall'' now, sh_instance_id = i,
      duplicate_submit_guard = dup_new (180 * 10 ^ 9) 50000, event_tx = False, events = [], refreshes = [],
      confirm_tasks = []\<rparr>"

definition with_event_bus :: "share_handler \<Rightarrow> share_handler" where
  "with_event_bus sh = sh\<lparr>event_tx := True\<rparr>"

definition emit :: "pool_event \<Rightarrow> share_handler \<Rightarrow> share_handler" where
  "emit ev sh = (if event_tx sh then sh\<lparr>events := events sh @ [ev]\<rparr> else sh)"

definition spawn_confirm :: "confirm_task \<Rightarrow> share_handler \<Rightarrow> share_handler" where
  "spawn_confirm task sh = sh\<lparr>confirm_tasks := confirm_tasks sh @ [task]\<rparr>"

definition build_share_rejected :: "string \<Rightarrow> string \<Rightarrow> share_reject_reason \<Rightarrow> timestamp \<Rightarrow> correlation_id
    \<Rightarrow> pool_event option" where
  "build_share_rejected wallet_raw worker_raw reason now cid =
     (case (wallet_new wallet_raw, worker_new worker_raw) of
        (Inr wallet, Inr worker) \<Rightarrow> Some (ShareRejected wallet worker reason now cid)
      | _ \<Rightarrow> None)"

definition emit_rejected :: "string \<Rightarrow> string \<Rightarrow> share_reject_reason \<Rightarrow> timestamp \<Rightarrow> correlation_id
    \<Rightarrow> share_handler \<Rightarrow> share_handler" where
  "emit_rejected wallet worker reason now cid sh =
     (case build_share_rejected wallet worker reason now cid of Some ev \<Rightarrow> emit ev sh | None \<Rightarrow> sh)"

text \<open>What one operation of the handler can touch.\<close>

record 'tx bridge =
  handler :: share_handler
  conn :: "'tx stratum_context"
  node :: "'tx kaspa_api"
  metrics :: prom

abbreviation upd_handler :: "(share_handler \<Rightarrow> share_handler) \<Rightarrow> 'tx bridge \<Rightarrow> 'tx bridge" where
  "upd_handler f b \<equiv> b\<lparr>handler := f (handler b)\<rparr>"

abbreviation upd_metrics :: "(prom \<Rightarrow> prom) \<Rightarrow> 'tx bridge \<Rightarrow> 'tx bridge" where
  "upd_metrics f b \<equiv> b\<lparr>metrics := f (metrics b)\<rparr>"

definition upd_stats :: "nat \<Rightarrow> (work_stats \<Rightarrow> work_stats) \<Rightarrow> 'tx bridge \<Rightarrow> 'tx bridge" where
  "upd_stats a f b =
     upd_handler (\<lambda>sh. sh\<lparr>stats_heap := (stats_heap sh)(a := f (stats_heap sh a))\<rparr>) b"

definition upd_overall :: "(work_stats \<Rightarrow> work_stats) \<Rightarrow> 'tx bridge \<Rightarrow> 'tx bridge" where
  "upd_overall f b = upd_handler (\<lambda>sh. sh\<lparr>overall := f (overall sh)\<rparr>) b"

section \<open>Looking up a worker\<close>

definition stats_key :: "'tx stratum_context \<Rightarrow> string" where
  "stats_key ctx = to_lower (trim (wallet_addr ctx)) @ [CHR 0x00] @ vardiff_worker_identity ctx"

definition get_stats_if_exists :: "'tx bridge \<Rightarrow> nat option" where
  "get_stats_if_exists b = hm_get (stats (handler b)) (stats_key (conn b))"

definition current_stratum_diff :: "'tx stratum_context \<Rightarrow> f64" where
  "current_stratum_diff ctx = (case stratum_diff (mstate ctx) of Some d \<Rightarrow> diff_value d | None \<Rightarrow> Fin 0)"

definition worker_prom_context :: "'tx bridge \<Rightarrow> string \<Rightarrow> worker_context \<times> 'tx bridge" where
  "worker_prom_context b miner =
     (let (w, ctx) = from_stratum (sh_instance_id (handler b)) (conn b) miner in (w, b\<lparr>conn := ctx\<rparr>))"

definition workstats_session_start_unix :: "clock \<Rightarrow> work_stats \<Rightarrow> f64" where
  "workstats_session_start_unix t st = fsub (as_secs_f64 (wall t)) (as_secs_f64 (mono t - start_time st))"

definition sync_worker_prom_session :: "clock \<Rightarrow> work_stats \<Rightarrow> 'tx bridge \<Rightarrow> 'tx bridge" where
  "sync_worker_prom_session t st b =
     (if wallet_addr (conn b) = [] then b
      else let (w, b) = worker_prom_context b []
           in upd_metrics (ensure_worker_session_metrics w (workstats_session_start_unix t st) (mono t)) b)"

definition get_create_stats :: "clock \<Rightarrow> 'tx bridge \<Rightarrow> nat \<times> 'tx bridge" where
  "get_create_stats t b =
     (let (worker_id, ctx) = effective_worker_name (conn b);
          b = b\<lparr>conn := ctx\<rparr>;
          key = stats_key ctx;
          (a, b) = (case hm_get (stats (handler b)) key of
              Some a \<Rightarrow> (a, b)
            | None \<Rightarrow>
                let st = work_stats_new worker_id (mono t);
                    seeded_diff = current_stratum_diff ctx;
                    st = (if flt (Fin 0) seeded_diff then st\<lparr>min_diff := seeded_diff\<rparr> else st);
                    a = next_stats (handler b)
                in (a, upd_handler (\<lambda>sh. sh\<lparr>stats := hm_insert key a (stats sh),
                         stats_heap := (stats_heap sh)(a := st), next_stats := a + 1\<rparr>) b))
      in (a, sync_worker_prom_session t (stats_heap (handler b) a) b))"

section \<open>Difficulty bookkeeping\<close>

definition sat_add1 :: "u32 \<Rightarrow> u32" where
  "sat_add1 x = (if x = - 1 then x else x + 1)"

definition sat_sub1 :: "u32 \<Rightarrow> u32" where
  "sat_sub1 x = (if x = 0 then 0 else x - 1)"

definition activate_client_vardiff :: "clock \<Rightarrow> 'tx bridge \<Rightarrow> 'tx bridge" where
  "activate_client_vardiff t b =
     (let (fresh, ctx) = claim_vardiff_registration (conn b);
          b = b\<lparr>conn := ctx\<rparr>
      in if \<not> fresh then b
         else let (a, b) = get_create_stats t b
              in upd_stats a (\<lambda>st. st\<lparr>active_connections := sat_add1 (active_connections st),
                   var_diff_start_time := Some (mono t), var_diff_shares_found := 0,
                   var_diff_window := 0, last_session_activity := mono t\<rparr>) b)"

definition deactivate_client_vardiff :: "clock \<Rightarrow> 'tx bridge \<Rightarrow> 'tx bridge" where
  "deactivate_client_vardiff t b =
     (let (held, ctx) = release_vardiff_registration (conn b);
          b = b\<lparr>conn := ctx\<rparr>
      in if \<not> held then b
         else case get_stats_if_exists b of
                Some a \<Rightarrow> upd_stats a (\<lambda>st. st\<lparr>active_connections := sat_sub1 (active_connections st),
                            last_session_activity := mono t\<rparr>) b
              | None \<Rightarrow> b)"

definition register_client_vardiff :: "clock \<Rightarrow> f64 \<Rightarrow> 'tx bridge \<Rightarrow> f64 \<times> 'tx bridge" where
  "register_client_vardiff t seed b =
     (let (a, b) = get_create_stats t b;
          current = min_diff (stats_heap (handler b) a);
          restored = (if \<not> is_finite current \<or> flt current VARDIFF_MIN_DIFF
                      then fmax seed VARDIFF_MIN_DIFF else current)
      in (restored, upd_stats a (\<lambda>st. st\<lparr>min_diff := restored,
            var_diff_start_time := (case var_diff_start_time st of None \<Rightarrow> Some (mono t) | Some s \<Rightarrow> Some s),
            last_session_activity := mono t\<rparr>) b))"

definition set_client_vardiff :: "clock \<Rightarrow> f64 \<Rightarrow> 'tx bridge \<Rightarrow> f64 \<times> 'tx bridge" where
  "set_client_vardiff t d b =
     (case get_stats_if_exists b of
        None \<Rightarrow> (current_stratum_diff (conn b), b)
      | Some a \<Rightarrow> (min_diff (stats_heap (handler b) a),
          upd_stats a (\<lambda>st. st\<lparr>min_diff := d, var_diff_start_time := Some (mono t),
            var_diff_shares_found := 0, var_diff_window := 0\<rparr>) b))"

definition get_client_vardiff :: "'tx bridge \<Rightarrow> f64" where
  "get_client_vardiff b =
     (case get_stats_if_exists b of
        Some a \<Rightarrow> min_diff (stats_heap (handler b) a)
      | None \<Rightarrow> current_stratum_diff (conn b))"

definition start_client_vardiff :: "clock \<Rightarrow> 'tx bridge \<Rightarrow> 'tx bridge" where
  "start_client_vardiff t b =
     (case get_stats_if_exists b of
        None \<Rightarrow> b
      | Some a \<Rightarrow>
          if var_diff_start_time (stats_heap (handler b) a) = None
          then upd_stats a (\<lambda>st. st\<lparr>var_diff_start_time := Some (mono t), var_diff_shares_found := 0\<rparr>) b
          else b)"

section \<open>The periodic tasks\<close>

text \<open>One tick of the pruning task.\<close>

definition prune_stats :: "nat \<Rightarrow> share_handler \<Rightarrow> share_handler" where
  "prune_stats now sh =
     sh\<lparr>stats := filter (\<lambda>(k, a). should_retain_vardiff_stats (stats_heap sh a) now) (stats sh)\<rparr>"

text \<open>One tick of the difficulty task, on one worker and on all of them.\<close>

definition vardiff_tick1 :: "(f64 \<Rightarrow> f64) \<Rightarrow> nat \<Rightarrow> f64 \<Rightarrow> bool \<Rightarrow> work_stats \<Rightarrow> work_stats" where
  "vardiff_tick1 log2 now expected_spm clamp v =
     (if active_connections v = 0 then v
      else case var_diff_start_time v of
        None \<Rightarrow> v
      | Some start \<Rightarrow>
          let elapsed = fmax (as_secs_f64 (now - start)) (Fin 0);
              shares = (if var_diff_shares_found v < 0 then fneg (of_n (nat (- var_diff_shares_found v)))
                        else of_n (nat (var_diff_shares_found v)))
          in (case vardiff_compute_next_diff log2 (min_diff v) shares elapsed expected_spm clamp of
                None \<Rightarrow> v
              | Some next \<Rightarrow> v\<lparr>min_diff := next, var_diff_start_time := Some now,
                               var_diff_shares_found := 0, var_diff_window := 0\<rparr>))"

definition expected_spm_of :: "u32 \<Rightarrow> f64" where
  "expected_spm_of rate = of_n (unat (max rate 1))"

definition vardiff_tick :: "(f64 \<Rightarrow> f64) \<Rightarrow> nat \<Rightarrow> u32 \<Rightarrow> bool \<Rightarrow> share_handler \<Rightarrow> share_handler" where
  "vardiff_tick log2 now rate clamp sh =
     sh\<lparr>stats_heap := fold (\<lambda>(k, a) h. h(a := vardiff_tick1 log2 now (expected_spm_of rate) clamp (h a)))
          (stats sh) (stats_heap sh)\<rparr>"

section \<open>Waiting for a block to turn blue\<close>

definition BLOCK_CONFIRM_MAX_ATTEMPTS :: nat where
  "BLOCK_CONFIRM_MAX_ATTEMPTS = 30"

text \<open>
  The task spawned for an accepted block.  \<open>colors\<close> lists the node's answers, an exhausted
  list standing for errors; the result tells how many polls were made.
\<close>

fun confirm_loop :: "nat \<Rightarrow> (string + bool) list \<Rightarrow> confirm_task \<Rightarrow> nat \<Rightarrow> 'tx bridge \<Rightarrow> nat \<times> 'tx bridge" where
  "confirm_loop 0 colors task secs b =
     (0, upd_metrics (record_block_not_confirmed_blue (task_worker task)) b)"
| "confirm_loop (Suc left) colors task secs b =
     (let (c, rest) = (case colors of [] \<Rightarrow> (Inl [], []) | c # rest \<Rightarrow> (c, rest))
      in if c = Inr True then
           (1, upd_metrics (record_block_found (task_worker task) (task_nonce task) (task_blue_score task)
                              (task_hash task) secs)
                 (upd_overall (\<lambda>st. st\<lparr>blocks_found := blocks_found st + 1\<rparr>)
                   (upd_stats (task_stats task) (\<lambda>st. st\<lparr>blocks_found := blocks_found st + 1\<rparr>) b)))
         else let (n, b) = confirm_loop left rest task secs b in (n + 1, b))"

definition confirm_block :: "(string + bool) list \<Rightarrow> confirm_task \<Rightarrow> nat \<Rightarrow> 'tx bridge \<Rightarrow> nat \<times> 'tx bridge" where
  "confirm_block = confirm_loop BLOCK_CONFIRM_MAX_ATTEMPTS"

section \<open>What the helpers leave alone\<close>

named_theorems frame \<open>fields a helper does not touch\<close>

lemma ensure_default_frame [frame]:
  "mstate (ensure_default_worker_name ctx) = mstate ctx"
  "wire (ensure_default_worker_name ctx) = wire ctx"
  "wallet_addr (ensure_default_worker_name ctx) = wallet_addr ctx"
  "extranonce (ensure_default_worker_name ctx) = extranonce ctx"
  "disconnecting (ensure_default_worker_name ctx) = disconnecting ctx"
  "socket (ensure_default_worker_name ctx) = socket ctx"
  "write_half (ensure_default_worker_name ctx) = write_half ctx"
  by (simp_all add: ensure_default_worker_name_def)

lemma worker_prom_context_frame [frame]:
  "handler (snd (worker_prom_context b m)) = handler b"
  "node (snd (worker_prom_context b m)) = node b"
  "metrics (snd (worker_prom_context b m)) = metrics b"
  "conn (snd (worker_prom_context b m)) = ensure_default_worker_name (conn b)"
  by (simp_all add: worker_prom_context_def from_stratum_def effective_worker_name_def Let_def)

lemma sync_frame [frame]:
  "handler (sync_worker_prom_session t st b) = handler b"
  "node (sync_worker_prom_session t st b) = node b"
  by (simp_all add: sync_worker_prom_session_def split_beta frame)

lemma conn_sync:
  "ensure_default_worker_name (conn b) = conn b \<Longrightarrow> conn (sync_worker_prom_session t st b) = conn b"
  by (simp add: sync_worker_prom_session_def split_beta frame)

lemma get_create_frame [frame]:
  "overall (handler (snd (get_create_stats t b))) = overall (handler b)"
  "events (handler (snd (get_create_stats t b))) = events (handler b)"
  "event_tx (handler (snd (get_create_stats t b))) = event_tx (handler b)"
  "duplicate_submit_guard (handler (snd (get_create_stats t b))) = duplicate_submit_guard (handler b)"
  "sh_instance_id (handler (snd (get_create_stats t b))) = sh_instance_id (handler b)"
  "node (snd (get_create_stats t b)) = node b"
  by (simp_all add: get_create_stats_def effective_worker_name_def Let_def split_beta frame split: option.splits)

lemma ensure_default_idem [simp]:
  "ensure_default_worker_name (ensure_default_worker_name ctx) = ensure_default_worker_name ctx"
  by (simp add: ensure_default_worker_name_def ctx_id_def)

lemma conn_get_create [frame]: "conn (snd (get_create_stats t b)) = ensure_default_worker_name (conn b)"
  by (simp add: get_create_stats_def effective_worker_name_def Let_def split_beta conn_sync split: option.splits)

lemma upd_stats_frame [frame]:
  "overall (handler (upd_stats a f b)) = overall (handler b)"
  "events (handler (upd_stats a f b)) = events (handler b)"
  "event_tx (handler (upd_stats a f b)) = event_tx (handler b)"
  "duplicate_submit_guard (handler (upd_stats a f b)) = duplicate_submit_guard (handler b)"
  "sh_instance_id (handler (upd_stats a f b)) = sh_instance_id (handler b)"
  "node (upd_stats a f b) = node b" "conn (upd_stats a f b) = conn b" "metrics (upd_stats a f b) = metrics b"
  by (simp_all add: upd_stats_def)

lemma upd_overall_frame [frame]:
  "overall (handler (upd_overall f b)) = f (overall (handler b))"
  "events (handler (upd_overall f b)) = events (handler b)"
  "event_tx (handler (upd_overall f b)) = event_tx (handler b)"
  "duplicate_submit_guard (handler (upd_overall f b)) = duplicate_submit_guard (handler b)"
  "sh_instance_id (handler (upd_overall f b)) = sh_instance_id (handler b)"
  "node (upd_overall f b) = node b" "conn (upd_overall f b) = conn b" "metrics (upd_overall f b) = metrics b"
  by (simp_all add: upd_overall_def)

lemma emit_frame [frame]:
  "overall (emit ev sh) = overall sh" "event_tx (emit ev sh) = event_tx sh"
  "duplicate_submit_guard (emit ev sh) = duplicate_submit_guard sh"
  "sh_instance_id (emit ev sh) = sh_instance_id sh"
  by (simp_all add: emit_def)

section \<open>The worker table\<close>

text \<open>Keys are unique, no two workers share their cells, and fresh addresses are unused.\<close>

definition table_ok :: "share_handler \<Rightarrow> bool" where
  "table_ok sh \<longleftrightarrow> hm_wf (stats sh) \<and> distinct (map snd (stats sh)) \<and> (\<forall>a\<in>snd ` set (stats sh). a < next_stats sh)"

lemma table_ok_new: "table_ok (share_handler_new i now)"
  by (simp add: table_ok_def share_handler_new_def)

lemma update_new: "map_of m k = None \<Longrightarrow> AList.update k v m = m @ [(k, v)]"
  by (induction m) (auto split: if_splits)

lemma table_ok_insert:
  assumes "table_ok sh" and "hm_get (stats sh) k = None"
  shows "table_ok (sh\<lparr>stats := hm_insert k (next_stats sh) (stats sh), stats_heap := h, next_stats := Suc (next_stats sh)\<rparr>)"
  using assms by (fastforce simp: table_ok_def hm_wf_def map_of_eq_None_iff update_new)

lemma table_ok_get_create: "table_ok (handler b) \<Longrightarrow> table_ok (handler (snd (get_create_stats t b)))"
  by (simp add: get_create_stats_def effective_worker_name_def Let_def frame table_ok_insert split: option.splits)

text \<open>What a worker is found to be afterwards: the entry it had, or a new one.\<close>

lemma get_create_found:
  assumes "get_create_stats t b = (a, b')"
  defines "k \<equiv> stats_key (ensure_default_worker_name (conn b))"
  shows "hm_get (stats (handler b')) k = Some a"
    and "hm_get (stats (handler b)) k = Some a' \<Longrightarrow> a = a' \<and> handler b' = handler b"
    and "hm_get (stats (handler b)) k = None \<Longrightarrow> a = next_stats (handler b)"
    and "overall (handler b') = overall (handler b)"
  using assms(1) unfolding k_def
  by (auto simp: get_create_stats_def effective_worker_name_def Let_def frame split: option.splits if_splits)

lemma table_ok_prune: "table_ok sh \<Longrightarrow> table_ok (prune_stats now sh)"
  by (auto simp: table_ok_def hm_wf_def prune_stats_def distinct_map_filter)

lemma prune_get:
  assumes "table_ok sh"
  shows "hm_get (stats (prune_stats now sh)) k = (case hm_get (stats sh) k of
      Some a \<Rightarrow> if should_retain_vardiff_stats (stats_heap sh a) now then Some a else None | None \<Rightarrow> None)"
proof -
  have "distinct (map fst m) \<Longrightarrow> map_of (filter (\<lambda>(k, a). P a) m) k = (case map_of m k of Some a \<Rightarrow> if P a then Some a else None | None \<Rightarrow> None)"
    for m :: "(string \<times> nat) list" and P
    by (induction m) (auto split: option.splits dest: map_of_SomeD simp: rev_image_eqI)
  then show ?thesis using assms by (simp add: table_ok_def hm_wf_def prune_stats_def)
qed

lemma tick_heap:
  assumes "distinct (map snd m)"
  shows "fold (\<lambda>(k, a) h. h(a := f (h a))) m h a = (if a \<in> snd ` set m then f (h a) else h a)"
  using assms by (induction m arbitrary: h) (auto simp: rev_image_eqI)

lemma table_ok_tick: "table_ok sh \<Longrightarrow> table_ok (vardiff_tick log2 now rate clamp sh)"
  by (simp add: table_ok_def vardiff_tick_def)
section \<open>Properties\<close>

text \<open>
  The periodic tasks spare what must last.  The difficulty task leaves the statistics of a worker
  without a live connection exactly as they are, and of a live one it changes the difficulty and the
  observation window only; the pruning task keeps a worker exactly as long as it has a live
  connection or was active within the last hour.
\<close>

lemma periodic_tasks_spare_workers:
  assumes "table_ok sh" and "hm_get (stats sh) k = Some a"
  shows "stats_heap (vardiff_tick log2 now rate clamp sh) a =
      (if active_connections (stats_heap sh a) = 0 then stats_heap sh a
       else (stats_heap sh a)
         \<lparr>min_diff := min_diff (stats_heap (vardiff_tick log2 now rate clamp sh) a),
          var_diff_start_time := var_diff_start_time (stats_heap (vardiff_tick log2 now rate clamp sh) a),
          var_diff_shares_found := var_diff_shares_found (stats_heap (vardiff_tick log2 now rate clamp sh) a),
          var_diff_window := var_diff_window (stats_heap (vardiff_tick log2 now rate clamp sh) a)\<rparr>)
    \<and> (hm_get (stats (prune_stats now sh)) k = Some a \<longleftrightarrow>
         0 < active_connections (stats_heap sh a)
         \<or> now - last_session_activity (stats_heap sh a) < 3600 * 10 ^ 9)"
proof
  have "a \<in> snd ` set (stats sh)" using assms(2) map_of_SomeD by force
  then have t: "stats_heap (vardiff_tick log2 now rate clamp sh) a
      = vardiff_tick1 log2 now (expected_spm_of rate) clamp (stats_heap sh a)"
    using assms(1) by (simp add: table_ok_def vardiff_tick_def tick_heap)
  show "stats_heap (vardiff_tick log2 now rate clamp sh) a =
      (if active_connections (stats_heap sh a) = 0 then stats_heap sh a
       else (stats_heap sh a)
         \<lparr>min_diff := min_diff (stats_heap (vardiff_tick log2 now rate clamp sh) a),
          var_diff_start_time := var_diff_start_time (stats_heap (vardiff_tick log2 now rate clamp sh) a),
          var_diff_shares_found := var_diff_shares_found (stats_heap (vardiff_tick log2 now rate clamp sh) a),
          var_diff_window := var_diff_window (stats_heap (vardiff_tick log2 now rate clamp sh) a)\<rparr>)"
    unfolding t by (auto simp: vardiff_tick1_def Let_def split: option.splits)
  show "hm_get (stats (prune_stats now sh)) k = Some a \<longleftrightarrow>
         0 < active_connections (stats_heap sh a) \<or> now - last_session_activity (stats_heap sh a) < 3600 * 10 ^ 9"
    unfolding prune_get [OF assms(1)]
    by (simp add: assms(2) should_retain_vardiff_stats_def INACTIVE_VARDIFF_TTL_def)
qed

definition demo_handler :: share_handler where
  "demo_handler = (share_handler_new ''i1'' 0)\<lparr>stats := [(''w'', 0)], next_stats := 1\<rparr>"

lemma periodic_tasks_spare_workers_witness:
  "stats_heap (vardiff_tick (\<lambda>x. x) 5 20 False demo_handler) 0 = work_stats_new [] 0
   \<and> hm_get (stats (prune_stats 5 demo_handler)) ''w'' = Some 0
   \<and> hm_get (stats (prune_stats (3600 * 10 ^ 9) demo_handler)) ''w'' \<noteq> Some 0"
proof -
  have t: "table_ok demo_handler" and g: "hm_get (stats demo_handler) ''w'' = Some 0"
    and h: "stats_heap demo_handler 0 = work_stats_new [] 0"
    by (simp_all add: table_ok_def demo_handler_def share_handler_new_def hm_wf_def)
  note p = periodic_tasks_spare_workers [OF t g, unfolded h]
  from p [of "\<lambda>x. x" 5 20 False] p [of "\<lambda>x. x" "3600 * 10 ^ 9"] show ?thesis
    by (simp add: work_stats_new_def)
qed

text \<open>
  A difficulty survives a reconnect.  The difficulty a connection starts with is never below 64,
  and a later connection of the same wallet and worker starts with the same difficulty, whatever seed
  its port proposes, as long as the worker's entry is untouched in between.
\<close>

lemma cached_difficulty_restored:
  assumes "register_client_vardiff t seed b = (d, b1)" and "is_finite d"
    and "handler b2 = handler b1"
    and "stats_key (ensure_default_worker_name (conn b2)) = stats_key (ensure_default_worker_name (conn b))"
  shows "fle VARDIFF_MIN_DIFF d \<and> fst (register_client_vardiff t' seed' b2) = d"
proof -
  obtain a b0 where g: "get_create_stats t b = (a, b0)" by fastforce
  obtain a2 b3 where g2: "get_create_stats t' b2 = (a2, b3)" by fastforce
  let ?c = "min_diff (stats_heap (handler b0) a)"
  have d: "d = (if \<not> is_finite ?c \<or> flt ?c VARDIFF_MIN_DIFF then fmax seed VARDIFF_MIN_DIFF else ?c)"
    and h1: "stats (handler b1) = stats (handler b0)" "min_diff (stats_heap (handler b1) a) = d"
    using assms(1) by (auto simp: register_client_vardiff_def g Let_def upd_stats_def)
  have m: "fle VARDIFF_MIN_DIFF d"
    unfolding d by (cases ?c; cases seed)
      (auto simp: VARDIFF_MIN_DIFF_def fmax_def flt_def is_finite_def)
  have "a2 = a \<and> handler b3 = handler b2"
    using get_create_found(1) [OF g] get_create_found(2) [OF g2] h1(1) assms(3,4) by metis
  moreover have "\<not> flt d VARDIFF_MIN_DIFF"
    using m assms(2) by (cases d) (auto simp: flt_def VARDIFF_MIN_DIFF_def is_finite_def)
  ultimately have "fst (register_client_vardiff t' seed' b2) = d"
    using assms(2,3) h1(2) by (simp add: register_client_vardiff_def g2 Let_def)
  then show ?thesis using m by simp
qed
text \<open>A fresh connection on a fresh handler.\<close>

definition demo_session :: "nat bridge" where
  "demo_session = \<lparr>handler = share_handler_new ''i1'' 0,
     conn = (ctx_new ''10.0.0.1'' 4000 5555 (ms_new 0) 7 [])\<lparr>worker_name := ''rig'', worker_name_supplied := True\<rparr>,
     node = demo_api, metrics = \<lparr>registered = True, calls = [], last_activity = [],
       gauge_get = (\<lambda>cs m ls. Fin 0)\<rparr>\<rparr>"

lemma cached_difficulty_restored_witness:
  "fst (register_client_vardiff \<lparr>mono = 9, wall = 9\<rparr> (Fin 8192)
     (snd (register_client_vardiff \<lparr>mono = 2, wall = 2\<rparr> (Fin 4096) demo_session))) = Fin 4096"
proof -
  let ?r = "register_client_vardiff \<lparr>mono = 2, wall = 2\<rparr> (Fin 4096) demo_session"
  have name: "trim ''rig'' \<noteq> []" by code_simp
  have key: "conn (snd ?r) = conn demo_session"
    and d: "fst ?r = Fin 4096"
    using name by (simp_all add: register_client_vardiff_def get_create_stats_def effective_worker_name_def Let_def
        sync_worker_prom_session_def demo_session_def ctx_new_def ensure_default_worker_name_def upd_stats_def
        share_handler_new_def work_stats_new_def current_stratum_diff_def ms_new_def flt_def is_finite_def
        VARDIFF_MIN_DIFF_def fmax_def)
  have "?r = (Fin 4096, snd ?r)" by (metis d prod.collapse)
  from cached_difficulty_restored [OF this _ refl] show ?thesis by (simp add: key is_finite_def)
qed

text \<open>
  Activations and deactivations balance: activating a connection twice counts it once, and
  deactivating it afterwards leaves its worker with the number of live connections it had.
\<close>

lemma activation_balanced:
  assumes "\<not> vardiff_registered (conn b)" and "get_create_stats t (b\<lparr>conn := (conn b)\<lparr>vardiff_registered := True\<rparr>\<rparr>) = (a, b0)"
    and "active_connections (stats_heap (handler b0) a) \<noteq> - 1"
  shows "activate_client_vardiff t' (activate_client_vardiff t b) = activate_client_vardiff t b
    \<and> active_connections (stats_heap (handler (activate_client_vardiff t b)) a)
        = active_connections (stats_heap (handler b0) a) + 1
    \<and> active_connections (stats_heap (handler (deactivate_client_vardiff t' (activate_client_vardiff t b))) a)
        = active_connections (stats_heap (handler b0) a)
    \<and> \<not> vardiff_registered (conn (deactivate_client_vardiff t' (activate_client_vardiff t b)))"
proof -
  let ?b1 = "activate_client_vardiff t b"
  let ?old = "active_connections (stats_heap (handler b0) a)"
  have b1: "?b1 = upd_stats a (\<lambda>st. st\<lparr>active_connections := sat_add1 (active_connections st),
                   var_diff_start_time := Some (mono t), var_diff_shares_found := 0,
                   var_diff_window := 0, last_session_activity := mono t\<rparr>) b0"
    using assms(1,2) by (simp add: activate_client_vardiff_def claim_vardiff_registration_def)
  have reg: "vardiff_registered (conn ?b1)"
    using conn_get_create [of t "b\<lparr>conn := (conn b)\<lparr>vardiff_registered := True\<rparr>\<rparr>"] assms(2) unfolding b1
    by (simp add: frame ensure_default_worker_name_def)
  have n1: "active_connections (stats_heap (handler ?b1) a) = ?old + 1"
    using assms(3) unfolding b1 by (simp add: upd_stats_def sat_add1_def)
  have k: "stats_key (conn ?b1) = stats_key (ensure_default_worker_name (conn b))"
    using conn_get_create [of t "b\<lparr>conn := (conn b)\<lparr>vardiff_registered := True\<rparr>\<rparr>"] assms(2) unfolding b1
    by (simp add: frame ensure_default_worker_name_def stats_key_def vardiff_worker_identity_def ctx_id_def)
  have "get_stats_if_exists (?b1\<lparr>conn := (conn ?b1)\<lparr>vardiff_registered := False\<rparr>\<rparr>) = Some a"
    using get_create_found(1) [OF assms(2)] k
    by (simp add: get_stats_if_exists_def b1 upd_stats_def stats_key_def vardiff_worker_identity_def
        ensure_default_worker_name_def ctx_id_def split: if_splits)
  then have "deactivate_client_vardiff t' ?b1 = upd_stats a (\<lambda>st. st\<lparr>active_connections := sat_sub1 (active_connections st),
        last_session_activity := mono t'\<rparr>) (?b1\<lparr>conn := (conn ?b1)\<lparr>vardiff_registered := False\<rparr>\<rparr>)"
    using reg by (simp add: deactivate_client_vardiff_def release_vardiff_registration_def)
  moreover have "?old + 1 \<noteq> 0" using assms(3) eq_neg_iff_add_eq_0 [of ?old 1] by blast
  ultimately show ?thesis
    using reg n1 by (simp add: upd_stats_def sat_sub1_def activate_client_vardiff_def claim_vardiff_registration_def)
qed

lemma activation_balanced_witness:
  "\<not> vardiff_registered (conn (deactivate_client_vardiff \<lparr>mono = 9, wall = 9\<rparr>
      (activate_client_vardiff \<lparr>mono = 2, wall = 2\<rparr> demo_session)))"
proof -
  let ?b = "demo_session\<lparr>conn := (conn demo_session)\<lparr>vardiff_registered := True\<rparr>\<rparr>"
  obtain a b0 where g: "get_create_stats \<lparr>mono = 2, wall = 2\<rparr> ?b = (a, b0)" by fastforce
  have r: "\<not> vardiff_registered (conn demo_session)" by (simp add: demo_session_def ctx_new_def)
  have "active_connections (stats_heap (handler b0) a) = 0"
    using g by (auto simp: get_create_stats_def effective_worker_name_def Let_def frame demo_session_def
        share_handler_new_def work_stats_new_def split: if_splits)
  then have "active_connections (stats_heap (handler b0) a) \<noteq> - 1" by simp
  from activation_balanced [OF r g this] show ?thesis by blast
qed

end
