(* ===== verification/ShareHandler.thy ===== *)
theory ShareHandler
  imports WorkStats
begin

text \<open>
  \<^verbatim>\<open>share_handler.rs\<close>, \<^verbatim>\<open>handle_submit\<close>: what happens to a share.  The phases of the
  function are definitions of their own, composed in the order of the code: parameters, job id,
  job, nonce, duplicate check, the proof-of-work loop over the submitted and at most seven
  earlier jobs with its network-target branch, and the crediting.  A submission is one step of
  the model: \<open>t0\<close> is the clock until the node calls, \<open>t1\<close> the clock afterwards, and the answers of
  the two nodes are arguments.  An \<^verbatim>\<open>Err\<close> is a \<open>submit_failure\<close>; a panic is one of its values.
\<close>

section \<open>Results and the environment\<close>

datatype submit_failure =
    TooFewParams
  | JobIdNotNumber
  | JobIdOutOfRange
  | JobIdWrongType
  | JobMissing
  | NonceNotString
  | NonceUnparsable
  | ReplyFailed
  | Panicked

record submit_env =
  t0 :: clock
  t1 :: clock
  cid :: correlation_id
  kas_answer :: "string + submit_report"
  zkas_answer :: "string + submit_report"

definition MAX_COMPAT_JOB_ATTEMPTS :: nat where
  "MAX_COMPAT_JOB_ATTEMPTS = 8"

section \<open>Parameters\<close>

definition reject_submit :: "submit_env \<Rightarrow> error_short_code \<Rightarrow> share_reject_reason \<Rightarrow> 'tx bridge \<Rightarrow> 'tx bridge" where
  "reject_submit env code reason b =
     (let wallet = wallet_addr (conn b);
          worker = StratumContext.worker_name (conn b);
          b = upd_metrics (record_worker_error (sh_instance_id (handler b)) wallet (error_code_str code)) b
      in upd_handler (emit_rejected wallet worker reason (wall (t0 env)) (cid env)) b)"

definition as_u64 :: "json_num \<Rightarrow> u64 option" where
  "as_u64 n = (case n of NumInt i \<Rightarrow> if 0 \<le> i \<and> i < 2 ^ 64 then Some (word_of_int i) else None
                       | NumFloat _ \<Rightarrow> None)"

definition parse_job_id :: "json \<Rightarrow> submit_failure + u64" where
  "parse_job_id p =
     (case p of
        JStr s \<Rightarrow> (case parse_uint 10 64 s of Some v \<Rightarrow> Inr (word_of_nat v) | None \<Rightarrow> Inl JobIdNotNumber)
      | JNum n \<Rightarrow> (case as_u64 n of Some v \<Rightarrow> Inr v | None \<Rightarrow> Inl JobIdOutOfRange)
      | _ \<Rightarrow> Inl JobIdWrongType)"

text \<open>The job itself, or the newest stored one when the id is unknown.\<close>

definition lookup_job :: "u64 \<Rightarrow> 'tx mining_state \<Rightarrow> (u64 \<times> 'tx job) option" where
  "lookup_job jid ms =
     (case get_job ms jid of
        Some j \<Rightarrow> Some (jid, j)
      | None \<Rightarrow> latest_job ms)"

section \<open>The nonce\<close>

fun remove_0x :: "string \<Rightarrow> string" where
  "remove_0x (a # b # rest) =
     (if a = CHR ''0'' \<and> b = CHR ''x'' then remove_0x rest else a # remove_0x (b # rest))"
| "remove_0x s = s"

definition nonce_param :: "json list \<Rightarrow> submit_failure + string" where
  "nonce_param ps =
     (case ps ! (if 5 \<le> length ps then 4 else 2) of
        JStr s \<Rightarrow> Inr (remove_0x s)
      | _ \<Rightarrow> Inl NonceNotString)"

text \<open>
  The extranonce goes in front when there is one and the miner sent no more than its own part,
  which is padded with zeros on the left; the pad counts characters, the length counts bytes.
\<close>

definition final_nonce :: "string \<Rightarrow> string \<Rightarrow> submit_failure + string" where
  "final_nonce extra nonce_str =
     (if extra = [] then Inr nonce_str
      else if 16 < length extra then Inl Panicked
      else let extranonce2_len = 16 - length extra
           in if length nonce_str \<le> extranonce2_len
              then Inr (extra @ replicate (extranonce2_len - length (scalars nonce_str)) (CHR ''0'') @ nonce_str)
              else Inr nonce_str)"

definition parse_nonce :: "string \<Rightarrow> submit_failure + u64" where
  "parse_nonce s = (case parse_uint 16 64 s of Some v \<Rightarrow> Inr (word_of_nat v) | None \<Rightarrow> Inl NonceUnparsable)"

definition submit_key :: "string \<Rightarrow> u64 \<Rightarrow> string \<Rightarrow> string" where
  "submit_key worker jid nonce_str = worker @ ''|'' @ show_nat (unat jid) @ ''|'' @ nonce_str"

section \<open>The duplicate check\<close>

definition duplicate_check :: "clock \<Rightarrow> string \<Rightarrow> 'tx bridge \<Rightarrow> duplicate_submit_outcome option \<times> 'tx bridge" where
  "duplicate_check t key b =
     (let (found, g) = dup_get key (mono t) (duplicate_submit_guard (handler b))
      in case found of
           Some out \<Rightarrow> (Some out, upd_handler (\<lambda>sh. sh\<lparr>duplicate_submit_guard := g\<rparr>) b)
         | None \<Rightarrow> (None, upd_handler (\<lambda>sh. sh\<lparr>duplicate_submit_guard := insert_inflight key (mono t) g\<rparr>) b))"

definition settle :: "clock \<Rightarrow> string \<Rightarrow> duplicate_submit_outcome \<Rightarrow> 'tx bridge \<Rightarrow> 'tx bridge" where
  "settle t key out =
     upd_handler (\<lambda>sh. sh\<lparr>duplicate_submit_guard := set_outcome key (mono t) out (duplicate_submit_guard sh)\<rparr>)"

text \<open>A reply whose failure the handler passes on, and one whose failure it ignores.\<close>

definition answer :: "('tx stratum_context \<Rightarrow> (disconnected + unit) \<times> 'tx stratum_context) \<Rightarrow> 'tx bridge
    \<Rightarrow> (submit_failure + unit) \<times> 'tx bridge" where
  "answer f b = (let (r, ctx) = f (conn b)
                 in (case r of Inr _ \<Rightarrow> Inr () | Inl _ \<Rightarrow> Inl ReplyFailed, b\<lparr>conn := ctx\<rparr>))"

definition answer_low_diff :: "json option \<Rightarrow> 'tx bridge \<Rightarrow> 'tx bridge" where
  "answer_low_diff i b = (case i of Some v \<Rightarrow> snd (answer (reply_low_diff_share v) b) | None \<Rightarrow> b)"

definition reply_true :: "json option \<Rightarrow> 'tx stratum_context \<Rightarrow> (disconnected + unit) \<times> 'tx stratum_context" where
  "reply_true i = reply \<lparr>resp_id = i, result = Some (JBool True), resp_error = None\<rparr>"

definition answer_duplicate :: "json option \<Rightarrow> duplicate_submit_outcome \<Rightarrow> 'tx bridge
    \<Rightarrow> (submit_failure + unit) \<times> 'tx bridge" where
  "answer_duplicate i out b =
     (case out of
        Accepted \<Rightarrow> answer (reply_true i) b
      | InFlight \<Rightarrow> answer (reply_true i) b
      | duplicate_submit_outcome.Stale \<Rightarrow> answer (reply_stale_share i) b
      | LowDiff \<Rightarrow> (Inr (), answer_low_diff i b)
      | Bad \<Rightarrow> answer (reply_bad_share i) b)"

section \<open>Solved blocks\<close>

definition submit_parent_then_claim_zkas :: "'tx consensus \<Rightarrow> string + submit_report \<Rightarrow> 'tx block \<Rightarrow> 'tx block
    \<Rightarrow> bool \<Rightarrow> 'tx kaspa_api \<Rightarrow> (merged_parent_submit_outcome \<times> bool) \<times> 'tx kaspa_api" where
  "submit_parent_then_claim_zkas C rpc solved_parent job_parent clears_zkas api =
     (let (out, api) = submit_merged_parent_if_solved C rpc solved_parent api
      in if clears_zkas
         then let (claimed, api) = claim_network_solution C job_parent api in ((out, claimed), api)
         else ((out, False), api))"

text \<open>
  How the loop ends: the share counts for a job, the share is too weak, or the submission has
  been answered already.
\<close>

datatype 'tx share_verdict =
    Counts u64 "'tx job"
  | TooWeak
  | Answered "submit_failure + unit"

definition chain_hash :: "'tx consensus \<Rightarrow> 'tx kaspa_api \<Rightarrow> 'tx block \<Rightarrow> 'tx block \<Rightarrow> string" where
  "chain_hash C api job_parent sol =
     (case merged_chain_hash C api job_parent of
        Some h \<Rightarrow> hex_encode h
      | None \<Rightarrow> hex_encode (header_hash C (block_header sol)))"

definition emit_block_found :: "submit_env \<Rightarrow> string \<Rightarrow> string \<Rightarrow> string \<Rightarrow> u64 \<Rightarrow> share_handler \<Rightarrow> share_handler" where
  "emit_block_found env wallet worker h daa sh =
     (case (wallet_new wallet, worker_new worker, hash_from_hex h) of
        (Inr w, Inr n, Inr hh) \<Rightarrow> emit (BlockFound w n hh (DaaScore daa) (wall (t0 env)) (cid env)) sh
      | _ \<Rightarrow> sh)"

definition stale_template :: "clock \<Rightarrow> u64 \<Rightarrow> bool" where
  "stale_template t ts_ms \<longleftrightarrow> 10 < (wall_millis t - unat ts_ms) div 1000"

text \<open>What follows from the node's answer to a submitted block: accepted, known already, refused.\<close>

definition block_accepted :: "submit_env \<Rightarrow> 'tx block \<Rightarrow> string \<Rightarrow> 'tx bridge \<Rightarrow> 'tx bridge" where
  "block_accepted env blk h b =
     (let (a, b) = get_create_stats (t1 env) b;
          (w, b) = worker_prom_context b [];
          b = upd_metrics (record_block_accepted_by_node w) b;
          b = (case hash_from_hex h of
                 Inr hh \<Rightarrow> upd_handler (emit (BlockAccepted hh (wall (t1 env)) (cid env))) b
               | Inl _ \<Rightarrow> b)
      in upd_handler (spawn_confirm
           \<lparr>task_stats = a, task_worker = w, task_nonce = nonce (block_header blk),
            task_blue_score = blue_score (block_header blk), task_hash = h\<rparr>) b)"

definition block_stale :: "submit_env \<Rightarrow> json option \<Rightarrow> string \<Rightarrow> string \<Rightarrow> string \<Rightarrow> 'tx bridge
    \<Rightarrow> (submit_failure + unit) \<times> 'tx bridge" where
  "block_stale env i key wallet worker b =
     (let b = settle (t1 env) key duplicate_submit_outcome.Stale b;
          (a, b) = get_create_stats (t1 env) b;
          b = upd_stats a (\<lambda>st. st\<lparr>stale_shares := stale_shares st + 1\<rparr>) b;
          b = upd_overall (\<lambda>st. st\<lparr>stale_shares := stale_shares st + 1\<rparr>) b;
          (w, b) = worker_prom_context b [];
          b = upd_metrics (record_stale_share w (mono (t1 env))) b;
          b = upd_handler (emit_rejected wallet worker share_reject_reason.Stale (wall (t1 env)) (cid env)) b
      in answer (reply_stale_share i) b)"

definition block_bad :: "submit_env \<Rightarrow> json option \<Rightarrow> string \<Rightarrow> string \<Rightarrow> string \<Rightarrow> 'tx bridge
    \<Rightarrow> (submit_failure + unit) \<times> 'tx bridge" where
  "block_bad env i key wallet worker b =
     (let (a, b) = get_create_stats (t1 env) b;
          b = upd_stats a (\<lambda>st. st\<lparr>invalid_shares := invalid_shares st + 1\<rparr>) b;
          b = upd_overall (\<lambda>st. st\<lparr>invalid_shares := invalid_shares st + 1\<rparr>) b;
          (w, b) = worker_prom_context b [];
          b = upd_metrics (record_invalid_share w (mono (t1 env))) b;
          b = upd_handler (emit_rejected wallet worker BadPow (wall (t1 env)) (cid env)) b;
          b = settle (t1 env) key Bad b
      in answer (reply_bad_share i) b)"

text \<open>The submission of a ZKAS block whose solution has been claimed.\<close>

definition announce_block :: "'tx consensus \<Rightarrow> submit_env \<Rightarrow> 'tx job \<Rightarrow> 'tx block \<Rightarrow> string \<Rightarrow> string
    \<Rightarrow> 'tx bridge \<Rightarrow> string \<times> 'tx bridge" where
  "announce_block C env job blk wallet worker b =
     (let b = upd_handler (\<lambda>sh. sh\<lparr>refreshes := refreshes sh @ [session_uid (conn b)]\<rparr>) b;
          b = (if stale_template (t0 env) (hdr_timestamp (block_header blk))
               then b\<lparr>conn := disconnect (conn b)\<rparr> else b);
          h = chain_hash C (node b) (job_block job) blk
      in (h, upd_handler (emit_block_found env wallet worker h (daa_score (block_header blk))) b))"

definition submit_claimed_block :: "'tx consensus \<Rightarrow> submit_env \<Rightarrow> json option \<Rightarrow> string \<Rightarrow> u64 \<Rightarrow> 'tx job \<Rightarrow> 'tx block
    \<Rightarrow> string \<Rightarrow> string \<Rightarrow> 'tx bridge \<Rightarrow> 'tx share_verdict \<times> 'tx bridge" where
  "submit_claimed_block C env i key jid job blk wallet worker b =
     (let (h, b) = announce_block C env job blk wallet worker b;
          (r, api) = api_submit_block C (mono (t0 env)) (zkas_answer env) blk (node b);
          b = b\<lparr>node := api\<rparr>
      in case r of
           Inr (RejectedByNode _) \<Rightarrow>
             (Counts jid job, upd_metrics (record_block_not_confirmed_blue
                (from_stratum_parts (sh_instance_id (handler b)) worker (conn b) [])) b)
         | Inr NodeAccepted \<Rightarrow> (Counts jid job, block_accepted env blk h b)
         | Inl e \<Rightarrow>
             let (res, b) = (if contains ''ErrDuplicateBlock'' e
                             then block_stale env i key wallet worker b
                             else block_bad env i key wallet worker b)
             in (Answered res, b))"

text \<open>A nonce that meets the network target, or in merged mode the parent's own target.\<close>

definition network_branch :: "'tx consensus \<Rightarrow> submit_env \<Rightarrow> json option \<Rightarrow> string \<Rightarrow> u64 \<Rightarrow> 'tx job \<Rightarrow> 'tx block \<Rightarrow> bool
    \<Rightarrow> 'tx bridge \<Rightarrow> 'tx share_verdict \<times> 'tx bridge" where
  "network_branch C env i key jid job blk meets_network_target b =
     (let wallet = wallet_addr (conn b);
          (worker, ctx) = effective_worker_name (conn b);
          b = b\<lparr>conn := ctx\<rparr>;
          ((out, claimed_zkas), api) =
            submit_parent_then_claim_zkas C (kas_answer env) blk (job_block job) meets_network_target (node b);
          b = b\<lparr>node := api\<rparr>;
          (w, b) = worker_prom_context b [];
          b = upd_metrics (record_merged_parent_submit w out claimed_zkas blk (wall_secs (t0 env))) b
      in if \<not> meets_network_target then (Counts jid job, b)
         else if \<not> claimed_zkas then (Counts jid job, b)
         else submit_claimed_block C env i key jid job blk wallet worker b)"

section \<open>The proof-of-work loop\<close>

definition solved_block :: "u64 \<Rightarrow> 'tx job \<Rightarrow> 'tx block" where
  "solved_block nonce_val job =
     (job_block job)\<lparr>block_header := (block_header (job_block job))\<lparr>nonce := nonce_val\<rparr>\<rparr>"

definition network_target_of :: "'tx consensus \<Rightarrow> 'tx kaspa_api \<Rightarrow> 'tx job \<Rightarrow> nat" where
  "network_target_of C api job =
     (case merged_fc_target C api (job_block job) of
        Some target \<Rightarrow> target
      | None \<Rightarrow> calculate_target (ucast (bits (block_header (job_block job)))))"

definition job_difficulty :: "'tx mining_state \<Rightarrow> u64 \<Rightarrow> kaspa_diff option" where
  "job_difficulty ms jid = (case get_job_diff ms jid of Some d \<Rightarrow> Some d | None \<Rightarrow> stratum_diff ms)"

definition pool_target_of :: "'tx mining_state \<Rightarrow> u64 \<Rightarrow> nat" where
  "pool_target_of ms jid = (case job_difficulty ms jid of Some d \<Rightarrow> target_value d | None \<Rightarrow> 0)"

definition ring_exhausted :: "u64 \<Rightarrow> u64 \<Rightarrow> u64 \<Rightarrow> bool" where
  "ring_exhausted max_jobs_val jid cur \<longleftrightarrow>
     cur = 1 \<or> cur mod max_jobs_val = ((jid mod max_jobs_val) + 1) mod max_jobs_val"

text \<open>
  One evaluation of the hash per call; the first component of the result counts them.  \<open>left\<close> is
  the number of evaluations the compatibility window still allows.
\<close>

fun pow_loop :: "'tx consensus \<Rightarrow> submit_env \<Rightarrow> json option \<Rightarrow> string \<Rightarrow> u64 \<Rightarrow> u64 \<Rightarrow> nat \<Rightarrow> u64 \<Rightarrow> 'tx job \<Rightarrow> bool
    \<Rightarrow> 'tx bridge \<Rightarrow> nat \<times> 'tx share_verdict \<times> 'tx bridge" where
  "pow_loop C env i key nonce_val jid 0 cur job invalid b =
     (0, if invalid then TooWeak else Counts cur job, b)"
| "pow_loop C env i key nonce_val jid (Suc left) cur job invalid b =
     (let blk = solved_block nonce_val job;
          (check_passed, pow_value) = check_pow C (block_header blk) nonce_val;
          merged_mode = (merged_fc_target C (node b) (job_block job) \<noteq> None);
          meets_network_target = (pow_value \<le> network_target_of C (node b) job)
      in if meets_network_target \<or> merged_mode \<and> check_passed
         then (1, network_branch C env i key cur job blk meets_network_target b)
         else if pow_value \<le> pool_target_of (mstate (conn b)) cur then (1, Counts cur job, b)
         else
           let invalid = (if cur = jid then True else invalid);
               stop = (1, if invalid then TooWeak else Counts cur job, b)
           in if ring_exhausted (ucast (max_jobs (mstate (conn b)))) jid cur then stop
              else if left = 0 then stop
              else if cur = 0 then (1, Answered (Inl Panicked), b)
              else (case get_job (mstate (conn b)) (cur - 1) of
                      None \<Rightarrow> stop
                    | Some prev \<Rightarrow>
                        let (n, r) = pow_loop C env i key nonce_val jid left (cur - 1) prev invalid b
                        in (n + 1, r)))"

section \<open>Crediting\<close>

definition reject_weak :: "submit_env \<Rightarrow> json option \<Rightarrow> string \<Rightarrow> 'tx bridge \<Rightarrow> (submit_failure + unit) \<times> 'tx bridge" where
  "reject_weak env i key b =
     (let (a, b) = get_create_stats (t1 env) b;
          b = upd_stats a (\<lambda>st. st\<lparr>invalid_shares := invalid_shares st + 1\<rparr>) b;
          b = upd_overall (\<lambda>st. st\<lparr>invalid_shares := invalid_shares st + 1\<rparr>) b;
          wallet = wallet_addr (conn b);
          worker = StratumContext.worker_name (conn b);
          (w, b) = worker_prom_context b [];
          b = upd_metrics (record_weak_share w (mono (t1 env))) b;
          b = upd_handler (emit_rejected wallet worker LowDifficulty (wall (t1 env)) (cid env)) b;
          b = answer_low_diff i b
      in (Inr (), settle (t1 env) key LowDiff b))"

definition emit_credited :: "submit_env \<Rightarrow> string \<Rightarrow> string \<Rightarrow> f64 \<Rightarrow> u64 \<Rightarrow> share_handler \<Rightarrow> share_handler" where
  "emit_credited env wallet worker assigned_diff daa sh =
     (case (wallet_new wallet, worker_new worker, difficulty_new assigned_diff) of
        (Inr w, Inr n, Inr d) \<Rightarrow> emit (ShareCredited w n d (DaaScore daa) (wall (t1 env)) (cid env)) sh
      | _ \<Rightarrow> sh)"

definition credit_share :: "submit_env \<Rightarrow> json option \<Rightarrow> string \<Rightarrow> u64 \<Rightarrow> 'tx job \<Rightarrow> 'tx bridge
    \<Rightarrow> (submit_failure + unit) \<times> 'tx bridge" where
  "credit_share env i key cur job b =
     (let (a0, b) = get_create_stats (t1 env) b;
          (a, b) = get_create_stats (t1 env) b;
          d = job_difficulty (mstate (conn b)) cur;
          hv = (case d of Some k \<Rightarrow> hash_value k | None \<Rightarrow> Fin 0);
          b = upd_stats a (\<lambda>st. st\<lparr>shares_found := shares_found st + 1,
                var_diff_shares_found := var_diff_shares_found st + 1,
                shares_diff := fadd (shares_diff st) hv, last_share := mono (t1 env)\<rparr>) b;
          b = upd_overall (\<lambda>st. st\<lparr>shares_found := shares_found st + 1\<rparr>) b;
          wallet = wallet_addr (conn b);
          worker = StratumContext.worker_name (conn b);
          (w, b) = worker_prom_context b [];
          b = upd_metrics (record_share_found w hv (mono (t1 env))) b;
          b = upd_metrics (observe_share_accept_latency (sh_instance_id (handler b))
                (as_secs_f64 (mono (t1 env) - mono (t0 env)))) b;
          assigned = (case d of Some k \<Rightarrow> diff_value k | None \<Rightarrow> hv);
          b = upd_handler (emit_credited env wallet worker assigned (daa_score (block_header (job_block job)))) b;
          b = settle (t1 env) key Accepted b
      in answer (reply_true i) b)"

section \<open>handle_submit\<close>

text \<open>From the parsed submission on; the number of hash evaluations is returned beside the result.\<close>

definition judge_share :: "'tx consensus \<Rightarrow> submit_env \<Rightarrow> json option \<Rightarrow> string \<Rightarrow> u64 \<Rightarrow> 'tx job \<Rightarrow> u64
    \<Rightarrow> 'tx bridge \<Rightarrow> nat \<times> (submit_failure + unit) \<times> 'tx bridge" where
  "judge_share C env i final_nonce_str jid job nonce_val b =
     (let (worker_id, ctx) = effective_worker_name (conn b);
          b = b\<lparr>conn := ctx\<rparr>;
          key = submit_key worker_id jid final_nonce_str;
          (dup, b) = duplicate_check (t0 env) key b
      in case dup of
           Some out \<Rightarrow> (0, answer_duplicate i out b)
         | None \<Rightarrow>
             let (n, verdict, b) = pow_loop C env i key nonce_val jid MAX_COMPAT_JOB_ATTEMPTS jid job False b
             in (n, case verdict of
                      Answered r \<Rightarrow> (r, b)
                    | TooWeak \<Rightarrow> reject_weak env i key b
                    | Counts cur j \<Rightarrow> credit_share env i key cur j b))"

definition handle_submit :: "'tx consensus \<Rightarrow> submit_env \<Rightarrow> json_rpc_event \<Rightarrow> 'tx bridge
    \<Rightarrow> nat \<times> (submit_failure + unit) \<times> 'tx bridge" where
  "handle_submit C env ev b =
     (if length (params ev) < 3 then (0, Inl TooFewParams, reject_submit env BadDataFromMiner MalformedFrame b)
      else case parse_job_id (params ev ! 1) of
        Inl e \<Rightarrow> (0, Inl e, b)
      | Inr submitted \<Rightarrow>
          (case lookup_job submitted (mstate (conn b)) of
             None \<Rightarrow> (0, Inl JobMissing, reject_submit env ErrMissingJob MissingJob b)
           | Some (jid, job) \<Rightarrow>
               (case nonce_param (params ev) of
                  Inl e \<Rightarrow> (0, Inl e, b)
                | Inr nonce_str \<Rightarrow>
                    (case final_nonce (extranonce (conn b)) nonce_str of
                       Inl e \<Rightarrow> (0, Inl e, b)
                     | Inr final_nonce_str \<Rightarrow>
                         (case parse_nonce final_nonce_str of
                            Inl e \<Rightarrow> (0, Inl e, b)
                          | Inr nonce_val \<Rightarrow> judge_share C env (ev_id ev) final_nonce_str jid job nonce_val b)))))"

section \<open>What the steps leave alone\<close>

lemma emits_frame [frame]:
  "overall (emit_rejected wal wor r t c sh) = overall sh"
  "duplicate_submit_guard (emit_rejected wal wor r t c sh) = duplicate_submit_guard sh"
  "overall (emit_block_found env wal wor h d sh) = overall sh"
  "duplicate_submit_guard (emit_block_found env wal wor h d sh) = duplicate_submit_guard sh"
  "overall (emit_credited env wal wor x d sh) = overall sh"
  "duplicate_submit_guard (emit_credited env wal wor x d sh) = duplicate_submit_guard sh"
  "overall (spawn_confirm task sh) = overall sh" "events (spawn_confirm task sh) = events sh"
  "duplicate_submit_guard (spawn_confirm task sh) = duplicate_submit_guard sh"
  by (simp_all add: emit_rejected_def emit_block_found_def emit_credited_def spawn_confirm_def frame
      split: option.splits sum.splits)

lemma settle_frame [frame]:
  "overall (handler (settle t k out b)) = overall (handler b)"
  "events (handler (settle t k out b)) = events (handler b)"
  "conn (settle t k out b) = conn b" "node (settle t k out b) = node b" "metrics (settle t k out b) = metrics b"
  by (simp_all add: settle_def)

lemma answer_frame [frame]:
  "handler (snd (answer f b)) = handler b" "node (snd (answer f b)) = node b"
  "metrics (snd (answer f b)) = metrics b" "conn (snd (answer f b)) = snd (f (conn b))"
  by (simp_all add: answer_def split_beta)

lemma answer_low_diff_frame [frame]:
  "handler (answer_low_diff i b) = handler b" "node (answer_low_diff i b) = node b"
  by (simp_all add: answer_low_diff_def frame split: option.splits)

lemma answer_not_panicked: "fst (answer f b) \<noteq> Inl Panicked"
  by (simp add: answer_def split_beta split: sum.splits)

section \<open>Every judged share is counted once\<close>

definition counted :: "work_stats \<Rightarrow> int" where
  "counted st = shares_found st + stale_shares st + invalid_shares st"

definition settled :: "'tx share_verdict \<Rightarrow> int" where
  "settled v = (case v of Answered r \<Rightarrow> if r = Inl Panicked then 0 else 1 | _ \<Rightarrow> 0)"

lemma announce_block_frame [frame]:
  "overall (handler (snd (announce_block C env job blk wal wor b))) = overall (handler b)"
  "duplicate_submit_guard (handler (snd (announce_block C env job blk wal wor b))) = duplicate_submit_guard (handler b)"
  "node (snd (announce_block C env job blk wal wor b)) = node b"
  by (simp_all add: announce_block_def Let_def frame)

lemma block_accepted_frame [frame]:
  "overall (handler (block_accepted env blk h b)) = overall (handler b)"
  "duplicate_submit_guard (handler (block_accepted env blk h b)) = duplicate_submit_guard (handler b)"
  "node (block_accepted env blk h b) = node b"
  by (simp_all add: block_accepted_def Let_def split_beta frame split: sum.splits)

lemma block_stale_overall [frame]:
  "overall (handler (snd (block_stale env i key wal wor b)))
     = (overall (handler b))\<lparr>stale_shares := stale_shares (overall (handler b)) + 1\<rparr>"
  "fst (block_stale env i key wal wor b) \<noteq> Inl Panicked"
  by (simp_all add: block_stale_def Let_def split_beta frame answer_not_panicked)

lemma block_bad_overall [frame]:
  "overall (handler (snd (block_bad env i key wal wor b)))
     = (overall (handler b))\<lparr>invalid_shares := invalid_shares (overall (handler b)) + 1\<rparr>"
  "fst (block_bad env i key wal wor b) \<noteq> Inl Panicked"
  by (simp_all add: block_bad_def Let_def split_beta frame answer_not_panicked)

lemma submit_claimed_counts:
  assumes "submit_claimed_block C env i key jid job blk wal wor b = (v, b')"
  shows "counted (overall (handler b')) = counted (overall (handler b)) + settled v
    \<and> shares_found (overall (handler b')) = shares_found (overall (handler b))
    \<and> (\<forall>c j. v = Counts c j \<longrightarrow> c = jid \<and> j = job)"
  using assms unfolding submit_claimed_block_def Let_def split_beta
  by (auto simp: frame counted_def settled_def split: sum.splits block_submit_outcome.splits if_splits)

lemma network_branch_counts:
  assumes "network_branch C env i key jid job blk meets b = (v, b')"
  shows "counted (overall (handler b')) = counted (overall (handler b)) + settled v
    \<and> shares_found (overall (handler b')) = shares_found (overall (handler b))
    \<and> (\<forall>c j. v = Counts c j \<longrightarrow> c = jid \<and> j = job)"
  using assms unfolding network_branch_def Let_def split_beta
  by (auto simp: frame settled_def split: if_splits dest!: submit_claimed_counts)

text \<open>The work behind a credited share, on the job it is credited for.\<close>

definition meets_work :: "'tx consensus \<Rightarrow> 'tx bridge \<Rightarrow> u64 \<Rightarrow> 'tx job \<Rightarrow> u64 \<Rightarrow> bool" where
  "meets_work C b c j nonce_val \<longleftrightarrow>
     (let (passed, pow_value) = check_pow C (block_header (solved_block nonce_val j)) nonce_val
      in pow_value \<le> pool_target_of (mstate (conn b)) c
         \<or> pow_value \<le> network_target_of C (node b) j
         \<or> merged_fc_target C (node b) (job_block j) \<noteq> None \<and> passed)"

lemma pow_loop_sound:
  assumes "pow_loop C env i key nonce_val jid left cur job invalid b = (n, v, b')"
    and "get_job (mstate (conn b)) cur = Some job" and "invalid \<or> cur = jid \<and> 0 < left"
  shows "n \<le> left \<and> (v \<noteq> TooWeak \<or> 0 < left \<longrightarrow> 0 < n)
    \<and> counted (overall (handler b')) = counted (overall (handler b)) + settled v
    \<and> shares_found (overall (handler b')) = shares_found (overall (handler b))
    \<and> (\<forall>c j. v = Counts c j \<longrightarrow> get_job (mstate (conn b)) c = Some j \<and> meets_work C b c j nonce_val)"
  using assms
proof (induction left arbitrary: cur job invalid n v b')
  case 0
  then show ?case by (auto simp: settled_def)
next
  case (Suc left)
  obtain passed pow_value
    where pow: "check_pow C (block_header (solved_block nonce_val job)) nonce_val = (passed, pow_value)" by fastforce
  let ?meets = "pow_value \<le> network_target_of C (node b) job"
  let ?net = "?meets \<or> merged_fc_target C (node b) (job_block job) \<noteq> None \<and> passed"
  let ?pool = "pow_value \<le> pool_target_of (mstate (conn b)) cur"
  note eq = Suc.prems(1) [simplified pow_loop.simps Let_def pow prod.case]
  consider (net) ?net | (pool) "\<not> ?net" ?pool | (weak) "\<not> ?net" "\<not> ?pool" by blast
  then show ?case
  proof cases
    case net
    then have "network_branch C env i key cur job (solved_block nonce_val job) ?meets b = (v, b')" "n = 1"
      using eq by simp_all
    moreover have "meets_work C b cur job nonce_val"
      using net by (auto simp: meets_work_def pow)
    ultimately show ?thesis using network_branch_counts Suc.prems(2) by (metis One_nat_def Suc_leI zero_less_Suc)
  next
    case pool
    then have "n = 1" "v = Counts cur job" "b' = b" using eq by auto
    moreover have "meets_work C b cur job nonce_val" using pool by (simp add: meets_work_def pow)
    ultimately show ?thesis using Suc.prems(2) by (auto simp: settled_def)
  next
    case weak
    let ?stop = "(1, TooWeak, b)"
    have inv: "(if cur = jid then True else invalid) = True" using Suc.prems(3) by auto
    consider (stop) "(n, v, b') = ?stop" | (panic) "(n, v, b') = (1, Answered (Inl Panicked), b)"
      | (again) prev m where "left \<noteq> 0" "get_job (mstate (conn b)) (cur - 1) = Some prev" "n = m + 1"
        "pow_loop C env i key nonce_val jid left (cur - 1) prev True b = (m, v, b')"
      using eq weak inv by (auto split: if_splits option.splits prod.splits)
    then show ?thesis
    proof cases
      case (again prev m)
      from Suc.IH [OF again(4,2)] again(1,3) show ?thesis by auto
    qed (auto simp: settled_def)
  qed
qed

lemma latest_job_stored: "latest_job ms = Some (jid, j) \<Longrightarrow> get_job ms jid = Some j"
  by (auto simp: latest_job_def Let_def split: list.splits)

lemma lookup_job_stored: "lookup_job submitted ms = Some (jid, j) \<Longrightarrow> get_job ms jid = Some j"
  by (auto simp: lookup_job_def latest_job_stored split: option.splits)

lemma duplicate_check_frame [frame]:
  "overall (handler (snd (duplicate_check t k b))) = overall (handler b)"
  "events (handler (snd (duplicate_check t k b))) = events (handler b)"
  "event_tx (handler (snd (duplicate_check t k b))) = event_tx (handler b)"
  "conn (snd (duplicate_check t k b)) = conn b" "node (snd (duplicate_check t k b)) = node b"
  "metrics (snd (duplicate_check t k b)) = metrics b"
  by (simp_all add: duplicate_check_def Let_def split_beta split: option.splits)

lemma answer_duplicate_frame [frame]:
  "handler (snd (answer_duplicate i out b)) = handler b"
  "node (snd (answer_duplicate i out b)) = node b"
  "fst (answer_duplicate i out b) \<noteq> Inl Panicked"
  by (simp_all add: answer_duplicate_def frame answer_not_panicked split: duplicate_submit_outcome.splits)

lemma reject_weak_overall [frame]:
  "overall (handler (snd (reject_weak env i key b)))
     = (overall (handler b))\<lparr>invalid_shares := invalid_shares (overall (handler b)) + 1\<rparr>"
  "fst (reject_weak env i key b) = Inr ()"
  by (simp_all add: reject_weak_def Let_def split_beta frame)

lemma credit_share_overall [frame]:
  "overall (handler (snd (credit_share env i key cur job b)))
     = (overall (handler b))\<lparr>shares_found := shares_found (overall (handler b)) + 1\<rparr>"
  "fst (credit_share env i key cur job b) \<noteq> Inl Panicked"
  by (simp_all add: credit_share_def Let_def split_beta frame answer_not_panicked)

lemma judge_share_sound:
  assumes "judge_share C env i nonce_str jid job nonce_val b = (n, r, b')"
    and "get_job (mstate (conn b)) jid = Some job"
  shows "n \<le> 8
    \<and> counted (overall (handler b')) = counted (overall (handler b)) + (if 0 < n \<and> r \<noteq> Inl Panicked then 1 else 0)
    \<and> (shares_found (overall (handler b')) \<noteq> shares_found (overall (handler b)) \<longrightarrow>
        shares_found (overall (handler b')) = shares_found (overall (handler b)) + 1 \<and>
        (\<exists>c j. get_job (mstate (conn b)) c = Some j \<and> meets_work C b c j nonce_val))"
proof -
  define worker where "worker = fst (effective_worker_name (conn b))"
  define key where "key = submit_key worker jid nonce_str"
  define dup where "dup = duplicate_check (t0 env) key (b\<lparr>conn := snd (effective_worker_name (conn b))\<rparr>)"
  obtain m v b2 where loop:
    "pow_loop C env i key nonce_val jid MAX_COMPAT_JOB_ATTEMPTS jid job False (snd dup) = (m, v, b2)"
    by (metis prod.exhaust)
  have same: "conn (snd dup) = ensure_default_worker_name (conn b)" "node (snd dup) = node b"
    "overall (handler (snd dup)) = overall (handler b)"
    by (simp_all add: dup_def frame effective_worker_name_def Let_def)
  have work: "meets_work C (snd dup) c j nonce_val = meets_work C b c j nonce_val" for c j
    by (simp add: meets_work_def same frame)
  have ps: "m \<le> 8 \<and> 0 < m
    \<and> counted (overall (handler b2)) = counted (overall (handler b)) + settled v
    \<and> shares_found (overall (handler b2)) = shares_found (overall (handler b))
    \<and> (\<forall>c j. v = Counts c j \<longrightarrow> get_job (mstate (conn b)) c = Some j \<and> meets_work C b c j nonce_val)"
    using pow_loop_sound [OF loop] assms(2)
    by (simp add: same frame work MAX_COMPAT_JOB_ATTEMPTS_def)
  have J: "judge_share C env i nonce_str jid job nonce_val b =
     (case fst dup of
        Some out \<Rightarrow> (0, answer_duplicate i out (snd dup))
      | None \<Rightarrow> (m, case v of Answered r \<Rightarrow> (r, b2) | TooWeak \<Rightarrow> reject_weak env i key b2
                  | Counts cur j \<Rightarrow> credit_share env i key cur j b2))"
    unfolding judge_share_def Let_def split_beta worker_def [symmetric] key_def [symmetric] dup_def [symmetric] loop
    by (simp split: option.split share_verdict.split)
  show ?thesis
  proof (cases "fst dup")
    case (Some out)
    then have "n = 0" "b' = snd (answer_duplicate i out (snd dup))" using assms(1) J by auto
    then show ?thesis by (simp add: frame same)
  next
    case None
    let ?final = "case v of Answered r \<Rightarrow> (r, b2) | TooWeak \<Rightarrow> reject_weak env i key b2
                  | Counts cur j \<Rightarrow> credit_share env i key cur j b2"
    have "n = m" "r = fst ?final" "b' = snd ?final" using assms(1) J None by simp_all
    then show ?thesis
      using ps by (cases v) (auto simp: settled_def counted_def frame)
  qed
qed

text \<open>A fresh share within its job's target goes straight to crediting.\<close>

lemma judge_good_share:
  assumes "get_job (mstate (conn b)) jid = Some job"
    and "fst (dup_get (submit_key (fst (effective_worker_name (conn b))) jid final_str) (mono (t0 env))
           (duplicate_submit_guard (handler b))) = None"
    and "check_pow C (block_header (solved_block nonce_val job)) nonce_val = (False, pow_value)"
    and "network_target_of C (node b) job < pow_value"
    and "pow_value \<le> pool_target_of (mstate (conn b)) jid"
  shows "\<exists>r b'. judge_share C env i final_str jid job nonce_val b = (1, r, b')
    \<and> shares_found (overall (handler b')) = shares_found (overall (handler b)) + 1"
proof -
  define key where "key = submit_key (fst (effective_worker_name (conn b))) jid final_str"
  define dup where "dup = duplicate_check (t0 env) key (b\<lparr>conn := snd (effective_worker_name (conn b))\<rparr>)"
  have d: "fst dup = None" "node (snd dup) = node b" "mstate (conn (snd dup)) = mstate (conn b)"
    "overall (handler (snd dup)) = overall (handler b)"
    using assms(2) unfolding dup_def key_def
    by (simp_all add: duplicate_check_def split_beta effective_worker_name_def Let_def frame)
  have "pow_loop C env i key nonce_val jid MAX_COMPAT_JOB_ATTEMPTS jid job False (snd dup)
      = (1, Counts jid job, snd dup)"
    using assms(3-5) d by (simp add: MAX_COMPAT_JOB_ATTEMPTS_def eval_nat_numeral)
  with d have "judge_share C env i final_str jid job nonce_val b = (1, credit_share env i key jid job (snd dup))"
    unfolding judge_share_def Let_def split_beta key_def [symmetric] dup_def [symmetric] by simp
  then show ?thesis
    using d by (intro exI [of _ "fst (credit_share env i key jid job (snd dup))"]
        exI [of _ "snd (credit_share env i key jid job (snd dup))"]) (simp add: frame)
qed

section \<open>A small bridge\<close>

text \<open>One connection with one job of share difficulty 8192 and a hash that never meets the network target.\<close>

definition demo_job :: "nat job" where
  "demo_job = \<lparr>job_block = plain_block\<lparr>block_header := sample_header\<lparr>bits := 0x01000000\<rparr>\<rparr>, pre_pow_hash = []\<rparr>"

definition weak_pow :: "nat consensus" where
  "weak_pow = demo_consensus\<lparr>check_pow := (\<lambda>h n. (False, 2 + unat n))\<rparr>"

definition demo_diff :: kaspa_diff where
  "demo_diff = \<lparr>hash_value = Fin 5, diff_value = Fin 8192, target_value = 1000\<rparr>"

definition demo_ms :: "nat mining_state" where
  "demo_ms = (case add_job demo_job (set_stratum_diff demo_diff (ms_new 0)) of Some (i, s) \<Rightarrow> s | None \<Rightarrow> ms_new 0)"

definition demo_bridge :: "nat bridge" where
  "demo_bridge = \<lparr>handler = share_handler_new ''i1'' 0,
     conn = (ctx_new ''10.0.0.1'' 4000 5555 demo_ms 7 [])\<lparr>worker_name := ''rig'', wallet_addr := ''kaspa:x''\<rparr>,
     node = demo_api, metrics = \<lparr>registered = True, calls = [], last_activity = [],
       gauge_get = (\<lambda>cs m ls. Fin 0)\<rparr>\<rparr>"

definition demo_env :: submit_env where
  "demo_env = \<lparr>t0 = \<lparr>mono = 10, wall = 20\<rparr>, t1 = \<lparr>mono = 11, wall = 21\<rparr>, cid = 9,
     kas_answer = Inl [], zkas_answer = Inr ReportSuccess\<rparr>"

definition demo_submit :: "json_rpc_event" where
  "demo_submit = event_new (Some ''1'') ''mining.submit'' [JStr ''rig'', JStr ''1'', JStr ''0x2a'']"

definition demo_result :: "nat \<times> (submit_failure + unit) \<times> nat bridge" where
  "demo_result = handle_submit weak_pow demo_env demo_submit demo_bridge"

lemma demo_no_shares: "shares_found (overall (handler demo_bridge)) = 0"
  by (simp add: demo_bridge_def share_handler_new_def work_stats_new_def)

lemma demo_conn: "mstate (conn demo_bridge) = demo_ms" "extranonce (conn demo_bridge) = []"
  by (simp_all add: demo_bridge_def ctx_new_def)

lemma demo_stored: "get_job demo_ms 1 = Some demo_job"
  by (simp add: demo_ms_def add_job_def ms_new_def set_stratum_diff_def get_job_def slot_of_def max_jobs_const_def)

lemma demo_parsed:
  "3 \<le> length (params demo_submit)" "parse_job_id (params demo_submit ! 1) = Inr 1"
  "nonce_param (params demo_submit) = Inr ''2a''" "final_nonce [] ''2a'' = Inr ''2a''" "parse_nonce ''2a'' = Inr 42"
proof -
  show "3 \<le> length (params demo_submit)" by (simp add: demo_submit_def event_new_def)
  show "parse_job_id (params demo_submit ! 1) = Inr 1"
    by (simp add: demo_submit_def event_new_def parse_job_id_def parse_uint_def digit_val_def is_ascii_digit_def is_ascii_lower_def byte_def)
  show "nonce_param (params demo_submit) = Inr ''2a''" by code_simp
  show "final_nonce [] ''2a'' = Inr ''2a''" by (simp add: final_nonce_def)
  show "parse_nonce ''2a'' = Inr 42"
    by (simp add: parse_nonce_def parse_uint_def digit_val_def is_ascii_digit_def is_ascii_lower_def byte_def)
qed

lemma demo_fresh:
  "fst (dup_get k t (duplicate_submit_guard (handler demo_bridge))) = None"
  by (simp add: demo_bridge_def share_handler_new_def dup_new_def dup_get_def dup_prune_def prune_def
      prune_excess.simps Let_def)

lemma demo_work:
  "check_pow weak_pow (block_header (solved_block 42 demo_job)) 42 = (False, 44)"
  "network_target_of weak_pow (node demo_bridge) demo_job < 44" "44 \<le> pool_target_of demo_ms 1"
proof -
  show "check_pow weak_pow (block_header (solved_block 42 demo_job)) 42 = (False, 44)" by (simp add: weak_pow_def)
  have "calculate_target 0x01000000 = 0" by (simp add: calculate_target_def)
  then show "network_target_of weak_pow (node demo_bridge) demo_job < 44"
    by (simp add: network_target_of_def merged_fc_target_def demo_bridge_def demo_api_def demo_job_def)
  show "44 \<le> pool_target_of demo_ms 1"
    by (simp add: pool_target_of_def job_difficulty_def get_job_diff_def demo_ms_def add_job_def ms_new_def
        set_stratum_diff_def slot_of_def max_jobs_const_def demo_diff_def)
qed

lemma demo_judged:
  "\<exists>r b'. demo_result = (1, r, b') \<and> shares_found (overall (handler b')) = 1"
proof -
  have "demo_result = judge_share weak_pow demo_env (ev_id demo_submit) ''2a'' 1 demo_job 42 demo_bridge"
    unfolding demo_result_def handle_submit_def lookup_job_def
    using demo_parsed demo_conn demo_stored by simp
  then show ?thesis
    using judge_good_share [of demo_bridge 1 demo_job "''2a''" demo_env weak_pow 42 44 "ev_id demo_submit"]
      demo_stored demo_fresh demo_work demo_conn demo_no_shares by simp
qed

section \<open>Properties\<close>

text \<open>The handler reaches its judgement only through the parsed submission.\<close>

lemma reject_submit_frame [frame]:
  "overall (handler (reject_submit env code reason b)) = overall (handler b)"
  by (simp add: reject_submit_def Let_def frame)

lemma handle_submit_cases:
  assumes "handle_submit C env ev b = (n, r, b')"
  obtains
    (unjudged) "n = 0" "overall (handler b') = overall (handler b)"
  | (judged) jid job nonce_str final_str nonce_val where
      "get_job (mstate (conn b)) jid = Some job" "nonce_param (params ev) = Inr nonce_str"
      "final_nonce (extranonce (conn b)) nonce_str = Inr final_str" "parse_nonce final_str = Inr nonce_val"
      "judge_share C env (ev_id ev) final_str jid job nonce_val b = (n, r, b')"
  using assms unfolding handle_submit_def
  by (auto simp: frame dest: lookup_job_stored split: if_splits sum.splits option.splits)

text \<open>
  C8: every share that is judged is counted exactly once, as found, stale or invalid, and a
  submission that is turned away before, because it is malformed, its job is unknown or it
  repeats an earlier one, is counted nowhere; judging takes at most eight hash evaluations.
\<close>

theorem judged_share_counted_once:
  "case handle_submit C env ev b of (n, r, b') \<Rightarrow>
     n \<le> 8 \<and> counted (overall (handler b')) =
       counted (overall (handler b)) + (if 0 < n \<and> r \<noteq> Inl Panicked then 1 else 0)"
proof -
  obtain n r b' where h: "handle_submit C env ev b = (n, r, b')" by (metis prod.exhaust)
  then show ?thesis
  proof (cases rule: handle_submit_cases)
    case (judged jid job nonce_str final_str nonce_val)
    from judge_share_sound [OF judged(5,1)] show ?thesis by (simp add: h)
  qed (simp add: h)
qed

text \<open>
  C1: no credit without work: when a submission raises the number of shares found, the nonce it
  names, with the connection's extranonce in front, solves a job stored for that connection: its
  hash is within the target of the job's difficulty, within the network target, or, in merged
  mode, within the parent's own target; and it raises the number by one.
\<close>

theorem credited_share_has_work:
  assumes "handle_submit C env ev b = (n, r, b')"
    and "shares_found (overall (handler b')) \<noteq> shares_found (overall (handler b))"
  shows "shares_found (overall (handler b')) = shares_found (overall (handler b)) + 1
    \<and> (\<exists>c j nonce_str final_str nonce_val. get_job (mstate (conn b)) c = Some j
        \<and> nonce_param (params ev) = Inr nonce_str \<and> final_nonce (extranonce (conn b)) nonce_str = Inr final_str
        \<and> parse_nonce final_str = Inr nonce_val \<and> meets_work C b c j nonce_val)"
  using assms(1)
proof (cases rule: handle_submit_cases)
  case unjudged
  then show ?thesis using assms(2) by simp
next
  case (judged jid job nonce_str final_str nonce_val)
  from judge_share_sound [OF judged(5,1)] assms(2) judged(2-4) show ?thesis by blast
qed

lemma credited_share_has_work_witness:
  "\<exists>c j nonce_val. get_job demo_ms c = Some j \<and> meets_work weak_pow demo_bridge c j nonce_val"
proof -
  obtain r b' where d: "handle_submit weak_pow demo_env demo_submit demo_bridge = (1, r, b')"
    "shares_found (overall (handler b')) = 1" using demo_judged by (auto simp: demo_result_def)
  then have "shares_found (overall (handler b')) \<noteq> shares_found (overall (handler demo_bridge))"
    by (simp add: demo_no_shares)
  from credited_share_has_work [OF d(1) this] show ?thesis by (auto simp: demo_conn)
qed



end
