(* ===== verification/ShareSafety.thy ===== *)
theory ShareSafety
  imports ShareHandler
begin

text \<open>
  What miners and the accounting rely on in \<^verbatim>\<open>handle_submit\<close>: a submission is not credited
  twice, the Kaspa parent is paid out before the ZKAS block is claimed, the events of a
  submission form one lifecycle, and a miner gets at most one answer.
\<close>

section \<open>The duplicate guard through a submission\<close>

abbreviation guard_of :: "'tx bridge \<Rightarrow> duplicate_submit_guard" where
  "guard_of b \<equiv> duplicate_submit_guard (handler b)"

lemma settle_guard [frame]: "guard_of (settle t k out b) = set_outcome k (mono t) out (guard_of b)"
  by (simp add: settle_def)

lemma closing_guard [frame]:
  "guard_of (snd (block_stale env i key wal wor b)) = set_outcome key (mono (t1 env)) duplicate_submit_outcome.Stale (guard_of b)"
  "guard_of (snd (block_bad env i key wal wor b)) = set_outcome key (mono (t1 env)) Bad (guard_of b)"
  "guard_of (snd (reject_weak env i key b)) = set_outcome key (mono (t1 env)) LowDiff (guard_of b)"
  "guard_of (snd (credit_share env i key cur job b)) = set_outcome key (mono (t1 env)) Accepted (guard_of b)"
  by (simp_all add: block_stale_def block_bad_def reject_weak_def credit_share_def Let_def split_beta frame)

definition guard_closed :: "submit_env \<Rightarrow> string \<Rightarrow> duplicate_submit_guard \<Rightarrow> duplicate_submit_guard \<Rightarrow> bool" where
  "guard_closed env key g g' \<longleftrightarrow> (\<exists>out. g' = set_outcome key (mono (t1 env)) out g)"

lemma submit_claimed_guard:
  assumes "submit_claimed_block C env i key jid job blk wal wor b = (v, b')"
  shows "guard_of b' = guard_of b \<or> guard_closed env key (guard_of b) (guard_of b')"
  using assms unfolding submit_claimed_block_def Let_def split_beta guard_closed_def
  by (auto simp: frame split: sum.splits block_submit_outcome.splits if_splits)

lemma submit_claimed_open:
  assumes "submit_claimed_block C env i key jid job blk wal wor b = (v, b')" and "guard_of b' \<noteq> guard_of b"
  shows "\<exists>r. v = Answered r"
  using assms unfolding submit_claimed_block_def Let_def split_beta
  by (auto simp: frame split: sum.splits block_submit_outcome.splits if_splits)

lemma network_branch_guard:
  assumes "network_branch C env i key jid job blk meets b = (v, b')"
  shows "guard_of b' = guard_of b \<or> guard_closed env key (guard_of b) (guard_of b') \<and> (\<exists>r. v = Answered r)"
  using assms unfolding network_branch_def Let_def split_beta
  by (auto simp: frame split: if_splits dest: submit_claimed_guard submit_claimed_open)

lemma pow_loop_guard:
  assumes "pow_loop C env i key nonce_val jid left cur job invalid b = (n, v, b')"
  shows "guard_of b' = guard_of b \<or> guard_closed env key (guard_of b) (guard_of b') \<and> (\<exists>r. v = Answered r)"
  using assms
proof (induction left arbitrary: cur job invalid n)
  case (Suc left)
  then show ?case
    by (auto simp: Let_def split_beta split: if_splits option.splits dest: network_branch_guard)
      (metis prod.collapse)+
qed simp

text \<open>The key of a submission in its connection, when it gets as far as the duplicate check.\<close>

definition share_key :: "json_rpc_event \<Rightarrow> 'tx stratum_context \<Rightarrow> string option" where
  "share_key ev ctx =
     (if length (params ev) < 3 then None
      else case parse_job_id (params ev ! 1) of
        Inl _ \<Rightarrow> None
      | Inr submitted \<Rightarrow>
          (case lookup_job submitted (mstate ctx) of
             None \<Rightarrow> None
           | Some (jid, job) \<Rightarrow>
               (case nonce_param (params ev) of
                  Inl _ \<Rightarrow> None
                | Inr nonce_str \<Rightarrow>
                    (case final_nonce (extranonce ctx) nonce_str of
                       Inl _ \<Rightarrow> None
                     | Inr final_nonce_str \<Rightarrow>
                         (case parse_nonce final_nonce_str of
                            Inl _ \<Rightarrow> None
                          | Inr _ \<Rightarrow> Some (submit_key (fst (effective_worker_name ctx)) jid final_nonce_str))))))"

lemma judge_share_guard:
  assumes "judge_share C env i nonce_str jid job nonce_val b = (n, r, b')"
  defines "key \<equiv> submit_key (fst (effective_worker_name (conn b))) jid nonce_str"
  shows "case fst (dup_get key (mono (t0 env)) (guard_of b)) of
      Some out \<Rightarrow> n = 0 \<and> overall (handler b') = overall (handler b) \<and> events (handler b') = events (handler b)
    | None \<Rightarrow> \<exists>ops. (\<forall>p\<in>set ops. dup_time p = mono (t1 env) \<and> dup_adds p = None) \<and>
        guard_of b' = fold dup_step ops (insert_inflight key (mono (t0 env)) (snd (dup_get key (mono (t0 env)) (guard_of b))))"
proof (cases "fst (dup_get key (mono (t0 env)) (guard_of b))")
  case (Some out)
  let ?b = "snd (duplicate_check (t0 env) key (b\<lparr>conn := snd (effective_worker_name (conn b))\<rparr>))"
  have "n = 0 \<and> b' = snd (answer_duplicate i out ?b)"
    using assms(1) Some unfolding judge_share_def Let_def split_beta key_def [symmetric]
    by (auto simp: duplicate_check_def split_beta)
  then show ?thesis using Some by (simp add: frame)
next
  case None
  let ?b = "snd (duplicate_check (t0 env) key (b\<lparr>conn := snd (effective_worker_name (conn b))\<rparr>))"
  have g: "guard_of ?b = insert_inflight key (mono (t0 env)) (snd (dup_get key (mono (t0 env)) (guard_of b)))"
    and f: "fst (duplicate_check (t0 env) key (b\<lparr>conn := snd (effective_worker_name (conn b))\<rparr>)) = None"
    using None by (simp_all add: duplicate_check_def split_beta)
  obtain m v b2 where loop:
    "pow_loop C env i key nonce_val jid MAX_COMPAT_JOB_ATTEMPTS jid job False ?b = (m, v, b2)"
    by (metis prod.exhaust)
  have b': "b' = snd (case v of Answered r \<Rightarrow> (r, b2) | TooWeak \<Rightarrow> reject_weak env i key b2
                  | Counts cur j \<Rightarrow> credit_share env i key cur j b2)"
    using assms(1) f unfolding judge_share_def Let_def split_beta key_def [symmetric] loop
    by (auto split: share_verdict.splits)
  have set1: "set_outcome key (mono (t1 env)) out h = fold dup_step [DupSet key (mono (t1 env)) out] h" for out h
    by simp
  have "guard_of b' = guard_of ?b \<or> (\<exists>out. guard_of b' = set_outcome key (mono (t1 env)) out (guard_of ?b))"
    using pow_loop_guard [OF loop] b' by (cases v) (auto simp: frame guard_closed_def)
  then have "\<exists>ops. (\<forall>p\<in>set ops. dup_time p = mono (t1 env) \<and> dup_adds p = None) \<and> guard_of b' = fold dup_step ops (guard_of ?b)"
  proof
    assume "guard_of b' = guard_of ?b"
    then show ?thesis by (intro exI [of _ "[]"]) simp
  next
    assume "\<exists>out. guard_of b' = set_outcome key (mono (t1 env)) out (guard_of ?b)"
    then obtain out where "guard_of b' = fold dup_step [DupSet key (mono (t1 env)) out] (guard_of ?b)" by auto
    then show ?thesis by (intro exI [of _ "[DupSet key (mono (t1 env)) out]"]) simp
  qed
  then show ?thesis using None g by simp
qed

lemma handle_submit_key:
  assumes "handle_submit C env ev b = (n, r, b')" and "share_key ev (conn b) = Some k"
  obtains jid job str nonce_val
    where "judge_share C env (ev_id ev) str jid job nonce_val b = (n, r, b')"
      "k = submit_key (fst (effective_worker_name (conn b))) jid str"
  using assms unfolding handle_submit_def share_key_def
  by (auto split: if_splits sum.splits option.splits)

lemma judged_has_key:
  assumes "handle_submit C env ev b = (n, r, b')" and "0 < n"
  obtains k where "share_key ev (conn b) = Some k"
  using assms unfolding handle_submit_def share_key_def
  by (auto split: if_splits sum.splits option.splits)

lemma pruned_still_absent:
  assumes "fst (dup_get k t g) = None"
  shows "fst (dup_get k t (snd (dup_get k t g))) = None"
  using assms prune_subset [of ts t "prune ts t g" k] unfolding dup_get_def dup_prune_def Let_def
  by (cases "hm_get (entries (prune ts t (prune ts t g))) k") (auto simp: hm_has_def)



section \<open>The events of a submission\<close>

fun event_cid :: "pool_event \<Rightarrow> correlation_id" where
  "event_cid (ShareCredited w n d s t c) = c"
| "event_cid (ShareRejected w n r t c) = c"
| "event_cid (BlockFound w n h s t c) = c"
| "event_cid (BlockAccepted h t c) = c"
| "event_cid (SessionOpened u w n i a t c) = c"
| "event_cid (SessionClosed u w n i a t s c) = c"

text \<open>The place of an event in the life of a submission: found, accepted, verdict.\<close>

fun event_rank :: "pool_event \<Rightarrow> nat" where
  "event_rank (BlockFound w n h s t c) = 0"
| "event_rank (BlockAccepted h t c) = 1"
| "event_rank (ShareCredited w n d s t c) = 2"
| "event_rank (ShareRejected w n r t c) = 2"
| "event_rank (SessionOpened u w n i a t c) = 3"
| "event_rank (SessionClosed u w n i a t s c) = 3"

definition grows :: "submit_env \<Rightarrow> nat \<Rightarrow> nat \<Rightarrow> share_handler \<Rightarrow> share_handler \<Rightarrow> bool" where
  "grows env lo hi s s' \<longleftrightarrow> (\<exists>new. events s' = events s @ new \<and> sorted_wrt (<) (map event_rank new)
     \<and> (\<forall>e\<in>set new. event_cid e = cid env \<and> lo \<le> event_rank e \<and> event_rank e < hi
          \<and> (event_rank e = 1 \<longrightarrow> zkas_answer env = Inr ReportSuccess)))"

lemma growsI:
  assumes "events s' = events s @ new" and "sorted_wrt (<) (map event_rank new)"
    and "\<And>e. e \<in> set new \<Longrightarrow> event_cid e = cid env \<and> lo \<le> event_rank e \<and> event_rank e < hi
          \<and> (event_rank e = 1 \<longrightarrow> zkas_answer env = Inr ReportSuccess)"
  shows "grows env lo hi s s'"
  using assms unfolding grows_def by blast

lemma grows_same: "events s' = events s \<Longrightarrow> grows env lo hi s s'"
  by (rule growsI [of _ _ "[]"]) simp_all

lemma grows_trans:
  assumes "grows env lo mid a b" and "grows env mid hi b c" and "lo \<le> mid" and "mid \<le> hi"
  shows "grows env lo hi a c"
proof -
  obtain x y where x: "events b = events a @ x" "sorted_wrt (<) (map event_rank x)"
    "\<forall>e\<in>set x. event_cid e = cid env \<and> lo \<le> event_rank e \<and> event_rank e < mid
       \<and> (event_rank e = 1 \<longrightarrow> zkas_answer env = Inr ReportSuccess)"
    and y: "events c = events b @ y" "sorted_wrt (<) (map event_rank y)"
    "\<forall>e\<in>set y. event_cid e = cid env \<and> mid \<le> event_rank e \<and> event_rank e < hi
       \<and> (event_rank e = 1 \<longrightarrow> zkas_answer env = Inr ReportSuccess)"
    using assms(1,2) unfolding grows_def by blast
  show ?thesis
  proof (rule growsI [of _ _ "x @ y"])
    show "sorted_wrt (<) (map event_rank (x @ y))"
      using x(2,3) y(2,3) by (force simp: sorted_wrt_append)
  qed (use x y assms(3,4) in force)+
qed

lemma grows_mono:
  assumes "grows env lo hi a b" and "lo' \<le> lo" and "hi \<le> hi'"
  shows "grows env lo' hi' a b"
proof -
  obtain new where "events b = events a @ new" "sorted_wrt (<) (map event_rank new)"
    "\<forall>e\<in>set new. event_cid e = cid env \<and> lo \<le> event_rank e \<and> event_rank e < hi
       \<and> (event_rank e = 1 \<longrightarrow> zkas_answer env = Inr ReportSuccess)"
    using assms(1) unfolding grows_def by blast
  then show ?thesis using assms(2,3) by (intro growsI [of _ _ new]) force+
qed

lemma grows_emit:
  assumes "event_cid ev = cid env" and "event_rank ev = lo" and "hi = Suc lo"
    and "lo = 1 \<Longrightarrow> zkas_answer env = Inr ReportSuccess"
  shows "grows env lo hi s (emit ev s)"
  using assms by (auto simp: grows_def emit_def)

definition opt_list :: "'a option \<Rightarrow> 'a list" where
  "opt_list x = (case x of Some y \<Rightarrow> [y] | None \<Rightarrow> [])"

text \<open>The events each step adds when a bus is attached.\<close>

definition found_event :: "submit_env \<Rightarrow> string \<Rightarrow> string \<Rightarrow> string \<Rightarrow> u64 \<Rightarrow> pool_event option" where
  "found_event env wallet worker h daa =
     (case (wallet_new wallet, worker_new worker, hash_from_hex h) of
        (Inr w, Inr n, Inr hh) \<Rightarrow> Some (BlockFound w n hh (DaaScore daa) (wall (t0 env)) (cid env))
      | _ \<Rightarrow> None)"

definition credited_event :: "submit_env \<Rightarrow> string \<Rightarrow> string \<Rightarrow> f64 \<Rightarrow> u64 \<Rightarrow> pool_event option" where
  "credited_event env wallet worker assigned daa =
     (case (wallet_new wallet, worker_new worker, difficulty_new assigned) of
        (Inr w, Inr n, Inr d) \<Rightarrow> Some (ShareCredited w n d (DaaScore daa) (wall (t1 env)) (cid env))
      | _ \<Rightarrow> None)"

lemma events_emits [frame]:
  "events (emit ev s) = events s @ (if event_tx s then [ev] else [])"
  "events (emit_rejected wal wor r t c s) = events s @ (if event_tx s then opt_list (build_share_rejected wal wor r t c) else [])"
  "events (emit_block_found env wal wor h d s) = events s @ (if event_tx s then opt_list (found_event env wal wor h d) else [])"
  "events (emit_credited env wal wor x d s) = events s @ (if event_tx s then opt_list (credited_event env wal wor x d) else [])"
  "event_tx (emit_rejected wal wor r t c s) = event_tx s"
  "event_tx (emit_block_found env wal wor h d s) = event_tx s"
  by (simp_all add: emit_def emit_rejected_def emit_block_found_def emit_credited_def opt_list_def found_event_def
      credited_event_def frame split: option.splits sum.splits)

lemma settle_event_tx [frame]: "event_tx (handler (settle t k out b)) = event_tx (handler b)"
  by (simp add: settle_def)

lemma step_events [frame]:
  "events (handler (snd (announce_block C env job blk wal wor b))) = events (handler b) @
     (if event_tx (handler b) then opt_list (found_event env wal wor
        (fst (announce_block C env job blk wal wor b)) (daa_score (block_header blk))) else [])"
  "event_tx (handler (snd (announce_block C env job blk wal wor b))) = event_tx (handler b)"
  "events (handler (block_accepted env blk h b)) = events (handler b) @ (if event_tx (handler b)
     then (case hash_from_hex h of Inr hh \<Rightarrow> [BlockAccepted hh (wall (t1 env)) (cid env)] | Inl _ \<Rightarrow> []) else [])"
  "events (handler (snd (block_stale env i key wal wor b))) = events (handler b) @ (if event_tx (handler b)
     then opt_list (build_share_rejected wal wor share_reject_reason.Stale (wall (t1 env)) (cid env)) else [])"
  "events (handler (snd (block_bad env i key wal wor b))) = events (handler b) @ (if event_tx (handler b)
     then opt_list (build_share_rejected wal wor BadPow (wall (t1 env)) (cid env)) else [])"
  by (simp_all add: announce_block_def block_accepted_def block_stale_def block_bad_def Let_def split_beta frame
      split: sum.splits)

lemma opt_event_ranks:
  "e \<in> set (opt_list (found_event env wal wor h d)) \<Longrightarrow> event_cid e = cid env \<and> event_rank e = 0"
  "e \<in> set (opt_list (build_share_rejected wal wor r t (cid env))) \<Longrightarrow> event_cid e = cid env \<and> event_rank e = 2"
  "e \<in> set (opt_list (credited_event env wal wor x d)) \<Longrightarrow> event_cid e = cid env \<and> event_rank e = 2"
  by (auto simp: opt_list_def found_event_def build_share_rejected_def credited_event_def
      split: option.splits sum.splits)

lemma sorted_opt_list [simp]: "sorted_wrt (<) (map event_rank (opt_list x))"
  by (cases x) (simp_all add: opt_list_def)

lemma grows_by:
  assumes "events s' = events s @ (if c then new else [])" and "sorted_wrt (<) (map event_rank new)"
    and "\<And>e. e \<in> set new \<Longrightarrow> event_cid e = cid env \<and> event_rank e = lo"
    and "lo = 1 \<Longrightarrow> zkas_answer env = Inr ReportSuccess"
  shows "grows env lo (Suc lo) s s'"
  using assms by (intro growsI [of _ _ "if c then new else []"]) auto

lemma grows_announce: "grows env 0 1 (handler b) (handler (snd (announce_block C env job blk wal wor b)))"
  using grows_by [OF step_events(1) _ opt_event_ranks(1)] by simp

lemma grows_accepted:
  "zkas_answer env = Inr ReportSuccess \<Longrightarrow> grows env 1 2 (handler b) (handler (block_accepted env blk h b))"
  unfolding numeral_2_eq_2 One_nat_def by (rule grows_by [OF step_events(3)]) (auto split: sum.splits)

lemma grows_refused:
  "grows env 2 3 (handler b) (handler (snd (block_stale env i key wal wor b)))"
  "grows env 2 3 (handler b) (handler (snd (block_bad env i key wal wor b)))"
  unfolding numeral_3_eq_3 numeral_2_eq_2 [symmetric]
  by (rule grows_by [OF step_events(4) _ opt_event_ranks(2)]; simp)
    (rule grows_by [OF step_events(5) _ opt_event_ranks(2)]; simp)

text \<open>A verdict still to be given leaves room for its event.\<close>

definition room :: "'tx share_verdict \<Rightarrow> nat" where
  "room v = (case v of Answered _ \<Rightarrow> 3 | _ \<Rightarrow> 2)"

lemma submit_claimed_grows:
  assumes "submit_claimed_block C env i key jid job blk wal wor b = (v, b')"
  shows "grows env 0 (room v) (handler b) (handler b')"
proof -
  define an where "an = announce_block C env job blk wal wor b"
  define sub where "sub = api_submit_block C (mono (t0 env)) (zkas_answer env) blk (node (snd an))"
  define b1 where "b1 = (snd an)\<lparr>node := snd sub\<rparr>"
  have 1: "grows env 0 1 (handler b) (handler b1)" using grows_announce by (simp add: an_def b1_def)
  have ok: "fst sub = Inr NodeAccepted \<Longrightarrow> zkas_answer env = Inr ReportSuccess"
    unfolding sub_def api_submit_block_def Let_def
    by (auto split: sum.splits prod.splits if_splits submit_report.splits)
  consider (rej) reason where "fst sub = Inr (RejectedByNode reason)" | (acc) "fst sub = Inr NodeAccepted" | (err) e where "fst sub = Inl e"
    by (metis block_submit_outcome.exhaust sum.exhaust)
  then show ?thesis
  proof cases
    case rej
    then have "v = Counts jid job \<and> handler b' = handler b1"
      using assms unfolding submit_claimed_block_def Let_def split_beta an_def [symmetric] sub_def [symmetric] b1_def [symmetric]
      by auto
    then show ?thesis using grows_mono [OF 1] by (simp add: room_def)
  next
    case acc
    then have v: "v = Counts jid job \<and> b' = block_accepted env blk (fst an) b1"
      using assms unfolding submit_claimed_block_def Let_def split_beta an_def [symmetric] sub_def [symmetric] b1_def [symmetric]
      by auto
    show ?thesis
      using grows_trans [OF 1 grows_accepted [OF ok [OF acc]]] v by (simp add: room_def)
  next
    case (err e)
    then have v: "v = Answered (fst (if contains ''ErrDuplicateBlock'' e then block_stale env i key wal wor b1 else block_bad env i key wal wor b1))
      \<and> b' = snd (if contains ''ErrDuplicateBlock'' e then block_stale env i key wal wor b1 else block_bad env i key wal wor b1)"
      using assms unfolding submit_claimed_block_def Let_def split_beta an_def [symmetric] sub_def [symmetric] b1_def [symmetric]
      by auto
    have "grows env 0 2 (handler b) (handler b1)" by (rule grows_mono [OF 1]) simp_all
    then show ?thesis using v
      by (auto simp: room_def intro: grows_trans [OF _ grows_refused(1)] grows_trans [OF _ grows_refused(2)])
  qed
qed

lemma network_branch_grows:
  assumes "network_branch C env i key jid job blk meets b = (v, b')"
  shows "grows env 0 (room v) (handler b) (handler b')"
  using assms unfolding network_branch_def Let_def split_beta
  by (auto simp: frame grows_same split: if_splits dest!: submit_claimed_grows)

lemma pow_loop_grows:
  assumes "pow_loop C env i key nonce_val jid left cur job invalid b = (n, v, b')"
  shows "grows env 0 (room v) (handler b) (handler b')"
  using assms
proof (induction left arbitrary: cur job invalid n)
  case (Suc left)
  then show ?case
    by (auto simp: Let_def split_beta grows_same split: if_splits option.splits dest: network_branch_grows)
      (metis prod.collapse)+
qed (simp add: grows_same)

lemma closing_events [frame]:
  "events (handler (snd (reject_weak env i key b))) = events (handler b) @ (if event_tx (handler b)
     then opt_list (build_share_rejected (wallet_addr (conn b))
       (StratumContext.worker_name (ensure_default_worker_name (conn b))) LowDifficulty (wall (t1 env)) (cid env)) else [])"
  "events (handler (snd (credit_share env i key cur job b))) = events (handler b) @ (if event_tx (handler b)
     then opt_list (credited_event env (wallet_addr (conn b))
       (StratumContext.worker_name (ensure_default_worker_name (conn b)))
       (case job_difficulty (mstate (conn b)) cur of Some k \<Rightarrow> diff_value k | None \<Rightarrow> Fin 0)
       (daa_score (block_header (job_block job)))) else [])"
  by (simp_all add: reject_weak_def credit_share_def Let_def split_beta frame split: option.split)

lemma grows_closing:
  "grows env 2 3 (handler b) (handler (snd (reject_weak env i key b)))"
  "grows env 2 3 (handler b) (handler (snd (credit_share env i key cur job b)))"
  unfolding numeral_3_eq_3 numeral_2_eq_2 [symmetric]
  by (rule grows_by [OF closing_events(1) _ opt_event_ranks(2)]; simp)
    (rule grows_by [OF closing_events(2) _ opt_event_ranks(3)]; simp)

lemma judge_share_grows:
  assumes "judge_share C env i nonce_str jid job nonce_val b = (n, r, b')"
  shows "grows env 0 3 (handler b) (handler b')"
proof -
  define key where "key = submit_key (fst (effective_worker_name (conn b))) jid nonce_str"
  define dup where "dup = duplicate_check (t0 env) key (b\<lparr>conn := snd (effective_worker_name (conn b))\<rparr>)"
  have d: "grows env 0 0 (handler b) (handler (snd dup))" by (simp add: dup_def grows_same frame)
  obtain m v b2 where loop:
    "pow_loop C env i key nonce_val jid MAX_COMPAT_JOB_ATTEMPTS jid job False (snd dup) = (m, v, b2)"
    by (metis prod.exhaust)
  have J: "b' = (case fst dup of
        Some out \<Rightarrow> snd (answer_duplicate i out (snd dup))
      | None \<Rightarrow> (case v of Answered r \<Rightarrow> b2 | TooWeak \<Rightarrow> snd (reject_weak env i key b2)
                  | Counts cur j \<Rightarrow> snd (credit_share env i key cur j b2)))"
    using assms unfolding judge_share_def Let_def split_beta key_def [symmetric] dup_def [symmetric] loop
    by (auto split: option.splits share_verdict.splits)
  have l: "grows env 0 (room v) (handler b) (handler b2)"
    using grows_trans [OF d pow_loop_grows [OF loop]] by simp
  show ?thesis
  proof (cases "fst dup")
    case (Some out)
    then show ?thesis using grows_mono [OF d] J by (simp add: frame)
  next
    case None
    then show ?thesis
      using l J
      by (cases v) (auto simp: room_def intro: grows_trans [OF _ grows_closing(1)] grows_trans [OF _ grows_closing(2)])
  qed
qed

text \<open>
  C10: the events of one submission are one lifecycle: in this order and each at most once, the
  block found, the block accepted and the verdict on the share, all with the correlation id of the
  submission; a block is reported accepted only when the ZKAS node answered with success.
\<close>

theorem submission_lifecycle:
  "\<exists>new. events (handler (snd (snd (handle_submit C env ev b)))) = events (handler b) @ new
     \<and> sorted_wrt (<) (map event_rank new)
     \<and> list_all (\<lambda>e. event_cid e = cid env \<and> event_rank e \<le> 2
          \<and> (if event_rank e = 1 then zkas_answer env = Inr ReportSuccess else True)) new"
proof -
  have rej: "grows env 2 3 (handler b) (handler (reject_submit env code reason b))" for code reason
    unfolding reject_submit_def Let_def numeral_3_eq_3 numeral_2_eq_2 [symmetric]
    by (rule grows_by [OF _ _ opt_event_ranks(2)]) (simp_all add: frame)
  have judged: "grows env 0 3 (handler b) (handler (snd (snd (judge_share C env i str jid job v b))))" for i str jid job v
    by (metis judge_share_grows prod.collapse)
  have "grows env 0 3 (handler b) (handler (snd (snd (handle_submit C env ev b))))"
    unfolding handle_submit_def
    by (auto simp: grows_same judged intro: grows_mono [OF rej] split: sum.splits option.splits)
  then show ?thesis by (force simp: grows_def list_all_iff)
qed

section \<open>The answer to a submission\<close>

text \<open>At most one whole frame, a response with the id of the submission.\<close>

definition one_answer :: "json option \<Rightarrow> 'tx bridge \<Rightarrow> 'tx bridge \<Rightarrow> bool" where
  "one_answer i b b' \<longleftrightarrow> (\<exists>fs. delivered (conn b') = delivered (conn b) @ fs \<and> length fs \<le> 1
     \<and> (\<forall>f\<in>set fs. \<exists>resp. f = Response resp \<and> resp_id resp = i))"

lemma one_answer_none: "wire (conn b') = wire (conn b) \<Longrightarrow> one_answer i b b'"
  by (auto simp: one_answer_def delivered_def)

lemma one_answer_left: "wire (conn a) = wire (conn b) \<Longrightarrow> one_answer i b b' \<Longrightarrow> one_answer i a b'"
  by (simp add: one_answer_def delivered_def)

lemma reply_one_answer:
  assumes "conn b' = snd (reply resp ctx)" and "resp_id resp = i" and "wire ctx = wire (conn b)"
  shows "one_answer i b b'"
proof -
  have "delivered ctx = delivered (conn b)" using assms(3) by (rule delivered_cong)
  then show ?thesis using assms(1,2) rep.delivered [of resp ctx] by (auto simp: one_answer_def)
qed

lemma reply_ids [simp]:
  "resp_id (response_error i code msg d) = i"
  by (simp add: response_error_def)

lemmas reply_defs = reply_stale_share_def reply_bad_share_def reply_low_diff_share_def reply_true_def

lemma closing_conn [frame]:
  "conn (snd (block_stale env i key wal wor b)) = snd (reply_stale_share i (ensure_default_worker_name (conn b)))"
  "conn (snd (block_bad env i key wal wor b)) = snd (reply_bad_share i (ensure_default_worker_name (conn b)))"
  "conn (snd (credit_share env i key cur job b)) = snd (reply_true i (ensure_default_worker_name (conn b)))"
  "conn (snd (reject_weak env i key b)) = (case i of None \<Rightarrow> ensure_default_worker_name (conn b)
      | Some v \<Rightarrow> snd (reply_low_diff_share v (ensure_default_worker_name (conn b))))"
  "conn (snd (answer_duplicate i out b)) = (case out of
        duplicate_submit_outcome.Stale \<Rightarrow> snd (reply_stale_share i (conn b))
      | LowDiff \<Rightarrow> (case i of None \<Rightarrow> conn b | Some v \<Rightarrow> snd (reply_low_diff_share v (conn b)))
      | Bad \<Rightarrow> snd (reply_bad_share i (conn b))
      | _ \<Rightarrow> snd (reply_true i (conn b)))"
  by (simp_all add: block_stale_def block_bad_def credit_share_def reject_weak_def answer_low_diff_def
      answer_duplicate_def Let_def split_beta frame split: option.split duplicate_submit_outcome.split)

lemma one_answer_steps:
  "one_answer i b (snd (block_stale env i key wal wor b))"
  "one_answer i b (snd (block_bad env i key wal wor b))"
  "one_answer i b (snd (credit_share env i key cur job b))"
  "one_answer i b (snd (reject_weak env i key b))"
  "one_answer i b (snd (answer_duplicate i out b))"
proof -
  let ?c = "ensure_default_worker_name (conn b)"
  have w: "wire ?c = wire (conn b)" by (simp add: frame)
  note one = reply_one_answer [OF _ _ w] and dup = reply_one_answer [OF _ _ refl, of _ _ b]
  show "one_answer i b (snd (block_stale env i key wal wor b))"
    by (rule one [OF closing_conn(1) [unfolded reply_defs]]) simp
  show "one_answer i b (snd (block_bad env i key wal wor b))"
    by (rule one [OF closing_conn(2) [unfolded reply_defs]]) simp
  show "one_answer i b (snd (credit_share env i key cur job b))"
    by (rule one [OF closing_conn(3) [unfolded reply_defs]]) simp
  show "one_answer i b (snd (reject_weak env i key b))"
    using one [OF closing_conn(4) [of env i key b, unfolded reply_defs, THEN trans]] w
    by (cases i) (simp_all add: one_answer_none frame)
  show "one_answer i b (snd (answer_duplicate i out b))"
    using dup [OF closing_conn(5) [of i out b, unfolded reply_defs, THEN trans]]
    by (cases out; cases i) (simp_all add: one_answer_none frame)
qed

lemma quiet_steps [frame]:
  "wire (conn (snd (announce_block C env job blk wal wor b))) = wire (conn b)"
  "wire (conn (block_accepted env blk h b)) = wire (conn b)"
  "wire (conn (reject_submit env code reason b)) = wire (conn b)"
  by (simp_all add: announce_block_def block_accepted_def reject_submit_def Let_def split_beta frame split: sum.splits)

text \<open>A verdict that is still open has sent nothing yet.\<close>

definition answered_by :: "json option \<Rightarrow> 'tx share_verdict \<Rightarrow> 'tx bridge \<Rightarrow> 'tx bridge \<Rightarrow> bool" where
  "answered_by i v b b' \<longleftrightarrow>
     (case v of Answered _ \<Rightarrow> one_answer i b b' | _ \<Rightarrow> wire (conn b') = wire (conn b))"

lemma submit_claimed_answer:
  assumes "submit_claimed_block C env i key jid job blk wal wor b = (v, b')"
  shows "answered_by i v b b'"
proof -
  define b1 where "b1 = (snd (announce_block C env job blk wal wor b))\<lparr>node := snd (api_submit_block C (mono (t0 env))
      (zkas_answer env) blk (node (snd (announce_block C env job blk wal wor b))))\<rparr>"
  have w: "wire (conn b1) = wire (conn b)" by (simp add: b1_def frame)
  show ?thesis
    using assms one_answer_left [OF w [symmetric] one_answer_steps(1)] one_answer_left [OF w [symmetric] one_answer_steps(2)] w
    unfolding submit_claimed_block_def Let_def split_beta b1_def [symmetric]
    by (auto simp: answered_by_def frame split: sum.splits block_submit_outcome.splits if_splits)
qed

lemma network_branch_cases:
  assumes "network_branch C env i key jid job blk meets b = (v, b')"
  obtains b0 wal wor where "handler b0 = handler b" "wire (conn b0) = wire (conn b)"
    "node b0 = snd (submit_parent_then_claim_zkas C (kas_answer env) blk (job_block job) meets (node b))"
    "v = Counts jid job \<and> b' = b0
     \<or> meets \<and> snd (fst (submit_parent_then_claim_zkas C (kas_answer env) blk (job_block job) meets (node b)))
       \<and> submit_claimed_block C env i key jid job blk wal wor b0 = (v, b')"
proof -
  define s where "s = submit_parent_then_claim_zkas C (kas_answer env) blk (job_block job) meets (node b)"
  define p where "p = worker_prom_context (b\<lparr>conn := snd (effective_worker_name (conn b)), node := snd s\<rparr>) []"
  define b0 where "b0 = upd_metrics (record_merged_parent_submit (fst p) (fst (fst s)) (snd (fst s)) blk (wall_secs (t0 env))) (snd p)"
  show thesis
  proof (rule that [of b0 "wallet_addr (conn b)" "fst (effective_worker_name (conn b))", folded s_def])
    show "handler b0 = handler b" "wire (conn b0) = wire (conn b)" "node b0 = snd s"
      by (simp_all add: b0_def p_def frame effective_worker_name_def Let_def)
    show "v = Counts jid job \<and> b' = b0
      \<or> meets \<and> snd (fst s) \<and> submit_claimed_block C env i key jid job blk (wallet_addr (conn b))
         (fst (effective_worker_name (conn b))) b0 = (v, b')"
      using assms unfolding network_branch_def Let_def split_beta s_def [symmetric] b0_def p_def
      by (auto simp: s_def split: if_splits)
  qed
qed

lemma network_branch_answer:
  assumes "network_branch C env i key jid job blk meets b = (v, b')"
  shows "answered_by i v b b'"
  using assms
proof (rule network_branch_cases)
  fix b0 wal wor
  assume w: "wire (conn b0) = wire (conn b)" and "v = Counts jid job \<and> b' = b0
     \<or> meets \<and> snd (fst (submit_parent_then_claim_zkas C (kas_answer env) blk (job_block job) meets (node b)))
       \<and> submit_claimed_block C env i key jid job blk wal wor b0 = (v, b')"
  then have "v = Counts jid job \<and> b' = b0 \<or> answered_by i v b0 b'" using submit_claimed_answer by blast
  then show ?thesis
    using w one_answer_left [of b b0] by (auto simp: answered_by_def split: share_verdict.splits)
qed

lemma pow_loop_answer:
  assumes "pow_loop C env i key nonce_val jid left cur job invalid b = (n, v, b')"
  shows "answered_by i v b b'"
  using assms
proof (induction left arbitrary: cur job invalid n)
  case (Suc left)
  then show ?case
    by (auto simp: Let_def split_beta answered_by_def one_answer_none split: if_splits option.splits
        dest: network_branch_answer [unfolded answered_by_def])
      (metis prod.collapse)+
qed (auto simp: answered_by_def)

text \<open>
  C11: a submission is answered at most once: whatever happens to it, at most one whole frame goes
  out to the miner, a response that carries the submission's id.
\<close>

theorem submission_answered_at_most_once:
  "\<exists>fs. delivered (conn (snd (snd (handle_submit C env ev b)))) = delivered (conn b) @ fs \<and> length fs \<le> 1
     \<and> list_all (\<lambda>f. case f of Response resp \<Rightarrow> resp_id resp = ev_id ev | _ \<Rightarrow> False) fs"
proof -
  have judged: "one_answer i b (snd (snd (judge_share C env i str jid job val b)))" for i str jid job val
  proof -
    define key where "key = submit_key (fst (effective_worker_name (conn b))) jid str"
    define dup where "dup = duplicate_check (t0 env) key (b\<lparr>conn := snd (effective_worker_name (conn b))\<rparr>)"
    obtain m v b2 where loop:
      "pow_loop C env i key val jid MAX_COMPAT_JOB_ATTEMPTS jid job False (snd dup) = (m, v, b2)"
      by (metis prod.exhaust)
    have w: "wire (conn b) = wire (conn (snd dup))"
      by (simp add: dup_def frame effective_worker_name_def Let_def)
    have J: "snd (snd (judge_share C env i str jid job val b)) = (case fst dup of
        Some out \<Rightarrow> snd (answer_duplicate i out (snd dup))
      | None \<Rightarrow> (case v of Answered r \<Rightarrow> b2 | TooWeak \<Rightarrow> snd (reject_weak env i key b2)
                  | Counts cur j \<Rightarrow> snd (credit_share env i key cur j b2)))"
      unfolding judge_share_def Let_def split_beta key_def [symmetric] dup_def [symmetric] loop
      by (simp split: option.splits share_verdict.splits)
    show ?thesis
      unfolding J using pow_loop_answer [OF loop] w
      by (auto simp: answered_by_def split: option.splits share_verdict.splits
          intro: one_answer_left [OF _ one_answer_steps(3)] one_answer_left [OF _ one_answer_steps(4)]
            one_answer_left [OF _ one_answer_steps(5)] one_answer_left)
  qed
  have "one_answer (ev_id ev) b (snd (snd (handle_submit C env ev b)))"
    unfolding handle_submit_def
    by (auto simp: judged one_answer_none frame split: sum.splits option.splits)
  then show ?thesis by (fastforce simp: one_answer_def list_all_iff)
qed

section \<open>The two chains\<close>

lemma settle_parent:
  "kas_log (snd (submit_parent_then_claim_zkas C rpc blk jp meets api)) = kas_log api @
     (if merged_mining api \<and> fst (check_pow C (block_header blk) (nonce (block_header blk))) \<and> kaspa_client api then [blk] else [])"
  "zkas_log (snd (submit_parent_then_claim_zkas C rpc blk jp meets api)) = zkas_log api"
  "snd (fst (submit_parent_then_claim_zkas C rpc blk jp meets api)) \<longleftrightarrow> meets \<and> fst (claim_network_solution C jp api)"
proof -
  define p where "p = submit_merged_parent_if_solved C rpc blk api"
  have p: "kas_log (snd p) = kas_log api @ (if merged_mining api
        \<and> fst (check_pow C (block_header blk) (nonce (block_header blk))) \<and> kaspa_client api then [blk] else [])"
    "zkas_log (snd p) = zkas_log api" "pending_fc (snd p) = pending_fc api" "merged_mining (snd p) = merged_mining api"
    unfolding p_def submit_merged_parent_if_solved_def Let_def
    by (auto split: sum.splits submit_report.splits)
  have c: "kas_log (snd (claim_network_solution C jp q)) = kas_log q" "zkas_log (snd (claim_network_solution C jp q)) = zkas_log q"
    "pending_fc q = pending_fc q' \<Longrightarrow> merged_mining q = merged_mining q' \<Longrightarrow>
       fst (claim_network_solution C jp q) = fst (claim_network_solution C jp q')" for q q'
    by (auto simp: claim_network_solution_def Let_def split: option.splits prod.splits)
  show "kas_log (snd (submit_parent_then_claim_zkas C rpc blk jp meets api)) = kas_log api @
     (if merged_mining api \<and> fst (check_pow C (block_header blk) (nonce (block_header blk))) \<and> kaspa_client api then [blk] else [])"
    "zkas_log (snd (submit_parent_then_claim_zkas C rpc blk jp meets api)) = zkas_log api"
    "snd (fst (submit_parent_then_claim_zkas C rpc blk jp meets api)) \<longleftrightarrow> meets \<and> fst (claim_network_solution C jp api)"
    unfolding submit_parent_then_claim_zkas_def Let_def split_beta p_def [symmetric]
    using c(3) [OF p(3,4)] by (simp_all add: p(1,2) c(1,2))
qed

lemma api_submit_logs:
  "kas_log (snd (api_submit_block C now rpc blk api)) = kas_log api"
  "\<exists>new. zkas_log (snd (api_submit_block C now rpc blk api)) = zkas_log api @ new \<and> length new \<le> 1"
  unfolding api_submit_block_def Let_def
  by (auto split: sum.splits prod.splits submit_report.splits)

lemma closing_node [frame]:
  "node (snd (block_stale env i key wal wor b)) = node b" "node (snd (block_bad env i key wal wor b)) = node b"
  by (simp_all add: block_stale_def block_bad_def Let_def split_beta frame)

lemma submit_claimed_node:
  "node (snd (submit_claimed_block C env i key jid job blk wal wor b))
     = snd (api_submit_block C (mono (t0 env)) (zkas_answer env) blk (node b))"
  unfolding submit_claimed_block_def Let_def split_beta
  by (auto simp: frame split: sum.splits block_submit_outcome.splits)


end
