(* ===== verification/ClientHandler.thy ===== *)
theory ClientHandler
  imports WorkStats
begin

text \<open>
  \<^verbatim>\<open>client_handler.rs\<close>: the table of connected miners and the three ways a job reaches
  one of them.  Contexts are shared by reference counting, so the pool keeps them in a heap,
  \<open>ctxs\<close>, and the table maps a client id to an address.  An operation on one connection is
  a function on the \<open>bridge\<close> of that connection.  A spawned task is an operation of its own,
  cut where it waits for a node: what it does after the answer is stated for any state the
  connection may be in by then.  A task that returns early or panics ends with \<open>None\<close>.
\<close>

section \<open>Miner types\<close>

definition is_bitmain :: "string \<Rightarrow> bool" where
  "is_bitmain app =
     (let a = to_lower app in contains ''godminer'' a \<or> contains ''bitmain'' a \<or> contains ''antminer'' a)"

definition is_iceriver :: "string \<Rightarrow> bool" where
  "is_iceriver app =
     (let a = to_lower app in contains ''iceriver'' a \<or> contains ''icemining'' a \<or> contains ''icm'' a)"

text \<open>\<^verbatim>\<open>.*(BzMiner|IceRiverMiner).*\<close>, matched anywhere.\<close>

definition BIG_JOB_REGEX :: "string \<Rightarrow> bool" where
  "BIG_JOB_REGEX app \<longleftrightarrow> contains ''BzMiner'' app \<or> contains ''IceRiverMiner'' app"

section \<open>Difficulty on the wire\<close>

definition fract_is_zero :: "f64 \<Rightarrow> bool" where
  "fract_is_zero d = (case d of Fin q \<Rightarrow> of_int \<lfloor>q\<rfloor> = q | _ \<Rightarrow> False)"

definition number_from_f64 :: "f64 \<Rightarrow> json_num option" where
  "number_from_f64 d = (if is_finite d then Some (NumFloat d) else None)"

definition difficulty_to_json :: "f64 \<Rightarrow> json" where
  "difficulty_to_json d =
     (if is_finite d \<and> fle (Fin 0) d \<and> fract_is_zero d \<and> fle d (of_n (2 ^ 64 - 1))
      then JNum (NumInt (int (to_uint 64 d)))
      else JNum (the_default (NumInt (int (to_uint 64 (fmax d (Fin 0))))) (number_from_f64 d)))"

section \<open>State\<close>

definition BALANCE_DELAY :: nat where
  "BALANCE_DELAY = 60 * 10 ^ 9"

definition CLIENT_TIMEOUT :: nat where
  "CLIENT_TIMEOUT = 20 * 10 ^ 9"

definition TEMPLATE_INTERVAL :: nat where
  "TEMPLATE_INTERVAL = 250 * 10 ^ 6"

definition parent_job_interval :: "(string \<Rightarrow> string option) \<Rightarrow> string \<Rightarrow> nat" where
  "parent_job_interval env rapp =
     (let app = to_lower rapp;
          legacy_asic = (contains ''godminer'' app \<or> contains ''bitmain'' app \<or> contains ''antminer'' app
            \<or> contains ''goldshell'' app);
          (name, default_ms) = (if legacy_asic then (''ZKAS_LEGACY_PARENT_JOB_INTERVAL_MS'', 1000)
            else (''ZKAS_COMMON_PARENT_JOB_INTERVAL_MS'', 500));
          milliseconds = max 100 (min 10000 (the_default default_ms (Option.bind (env name) (parse_uint 10 64))))
      in milliseconds * 10 ^ 6)"

record client_handler =
  clients :: "(int, nat) hash_map"
  client_counter :: u32
  min_share_diff :: f64
  port_seeds :: "(u16, f64) hash_map"
  extranonce_size :: int
  max_extranonce :: int
  last_template_time :: nat
  last_balance_check :: nat
  ch_instance_id :: string
  kaspa_common_protocol :: bool

definition new_with_protocol :: "f64 \<Rightarrow> (u16, f64) hash_map \<Rightarrow> int \<Rightarrow> string \<Rightarrow> bool \<Rightarrow> nat \<Rightarrow> client_handler" where
  "new_with_protocol start_diff seeds sz iid common now =
     \<lparr>clients = [], client_counter = 0, min_share_diff = start_diff, port_seeds = seeds, extranonce_size = sz,
      max_extranonce = (if 0 < sz then 2 ^ (8 * nat (min sz 3)) - 1 else 0),
      last_template_time = now, last_balance_check = now, ch_instance_id = iid,
      kaspa_common_protocol = common\<rparr>"

definition client_handler_new :: "f64 \<Rightarrow> (u16, f64) hash_map \<Rightarrow> int \<Rightarrow> string \<Rightarrow> nat \<Rightarrow> client_handler" where
  "client_handler_new start_diff seeds sz iid now = new_with_protocol start_diff seeds sz iid False now"

definition seed_for_port :: "client_handler \<Rightarrow> u16 \<Rightarrow> f64" where
  "seed_for_port h port = the_default (min_share_diff h) (hm_get (port_seeds h) port)"

text \<open>Everything the handlers of all connections share, with the process-wide extranonce counter.\<close>

record 'tx pool =
  client_handler :: client_handler
  GLOBAL_NEXT_EXTRANONCE :: nat
  ctxs :: "nat \<Rightarrow> 'tx stratum_context"
  next_ctx :: nat
  pool_handler :: share_handler
  pool_node :: "'tx kaspa_api"
  pool_metrics :: prom

definition bridge_of :: "nat \<Rightarrow> 'tx pool \<Rightarrow> 'tx bridge" where
  "bridge_of a p = \<lparr>handler = pool_handler p, conn = ctxs p a, node = pool_node p, metrics = pool_metrics p\<rparr>"

definition put_bridge :: "nat \<Rightarrow> 'tx bridge \<Rightarrow> 'tx pool \<Rightarrow> 'tx pool" where
  "put_bridge a b p = p\<lparr>ctxs := (ctxs p)(a := conn b), pool_handler := handler b, pool_node := node b,
     pool_metrics := metrics b\<rparr>"

abbreviation upd_conn :: "('tx stratum_context \<Rightarrow> 'tx stratum_context) \<Rightarrow> 'tx bridge \<Rightarrow> 'tx bridge" where
  "upd_conn f b \<equiv> b\<lparr>conn := f (conn b)\<rparr>"

abbreviation upd_ms :: "('tx mining_state \<Rightarrow> 'tx mining_state) \<Rightarrow> 'tx bridge \<Rightarrow> 'tx bridge" where
  "upd_ms f b \<equiv> upd_conn (\<lambda>c. c\<lparr>mstate := f (mstate c)\<rparr>) b"

definition send_on :: "('tx stratum_context \<Rightarrow> (disconnected + unit) \<times> 'tx stratum_context) \<Rightarrow> 'tx bridge
    \<Rightarrow> bool \<times> 'tx bridge" where
  "send_on f b = (let (r, ctx) = f (conn b) in (is_ok r, b\<lparr>conn := ctx\<rparr>))"

definition worker_error :: "string \<Rightarrow> string \<Rightarrow> error_short_code \<Rightarrow> 'tx bridge \<Rightarrow> 'tx bridge" where
  "worker_error iid wallet code b = upd_metrics (record_worker_error iid wallet (error_code_str code)) b"

definition prom_context :: "string \<Rightarrow> string \<Rightarrow> 'tx bridge \<Rightarrow> worker_context \<times> 'tx bridge" where
  "prom_context iid miner b =
     (let (w, ctx) = from_stratum iid (conn b) miner in (w, b\<lparr>conn := ctx\<rparr>))"

section \<open>Connecting and disconnecting\<close>

text \<open>What the watchdog task does when its thirty seconds are over.\<close>

definition failover_of :: "u16 \<Rightarrow> (string \<times> u16) option" where
  "failover_of port =
     (if port = 5577 then Some (''mining-pool.zkas.info'', 5555)
      else if port = 5555 then Some (''204.10.194.28'', 5555)
      else None)"

definition first_job_watchdog :: "'tx stratum_context \<Rightarrow> 'tx stratum_context" where
  "first_job_watchdog c =
     (if \<not> ctx_connected c \<or> wallet_addr c = [] then c
      else if received_job_since_authorization c then c
      else disconnect (case failover_of (local_port c) of
             Some (host, port) \<Rightarrow> snd (send_reconnect_hint host port 3 c)
           | None \<Rightarrow> c))"

definition set_difficulty_event :: "json \<Rightarrow> json_rpc_event" where
  "set_difficulty_event v = \<lparr>ev_id = None, jsonrpc = ''2.0'', ev_method = ''mining.set_difficulty'', params = [v]\<rparr>"

definition send_subscribe_difficulty :: "client_handler \<Rightarrow> 'tx stratum_context \<Rightarrow> (disconnected + unit) \<times> 'tx stratum_context" where
  "send_subscribe_difficulty h c =
     ctx_send (set_difficulty_event (difficulty_to_json (seed_for_port h (local_port c)))) c"

definition send_subscribe_difficulty_v1 :: "client_handler \<Rightarrow> 'tx stratum_context \<Rightarrow> (disconnected + unit) \<times> 'tx stratum_context" where
  "send_subscribe_difficulty_v1 h c =
     (let d = seed_for_port h (local_port c)
      in send_v1_notification ''mining.set_difficulty''
           [JNum (the_default (NumInt (int (to_uint 64 d))) (number_from_f64 d))] c)"

definition on_connect :: "nat \<Rightarrow> 'tx pool \<Rightarrow> 'tx pool" where
  "on_connect a p =
     (let h = client_handler p;
          idx = sint (client_counter h)
      in p\<lparr>client_handler := h\<lparr>client_counter := client_counter h + 1, clients := hm_insert idx a (clients h)\<rparr>,
           ctxs := (ctxs p)(a := set_id idx ((ctxs p a)\<lparr>extranonce := []\<rparr>))\<rparr>)"

text \<open>The task that \<open>on_connect\<close> spawns, five seconds later.\<close>

definition create_stats_task :: "clock \<Rightarrow> 'tx bridge \<Rightarrow> 'tx bridge" where
  "create_stats_task t b = (if wallet_addr (conn b) = [] then b else snd (get_create_stats t b))"

definition sync_worker_prom_metrics :: "clock \<Rightarrow> 'tx bridge \<Rightarrow> 'tx bridge" where
  "sync_worker_prom_metrics t b = (if wallet_addr (conn b) = [] then b else activate_client_vardiff t b)"

definition prepare_worker_identity_change :: "clock \<Rightarrow> 'tx bridge \<Rightarrow> 'tx bridge" where
  "prepare_worker_identity_change = deactivate_client_vardiff"

definition bitmain_extranonce_enabled :: "(string \<Rightarrow> string option) \<Rightarrow> bool" where
  "bitmain_extranonce_enabled env =
     (case (case env ''ZKAS_BITMAIN_EXTRANONCE'' of Some v \<Rightarrow> Some v | None \<Rightarrow> env ''FIRECASH_BITMAIN_EXTRANONCE'') of
        Some v \<Rightarrow> v \<noteq> ''0''
      | None \<Rightarrow> True)"

text \<open>
  The counter is an \<^verbatim>\<open>AtomicI32\<close> that this operation alone changes; it stays between 0
  and 65535, so that \<^verbatim>\<open>{:04x}\<close> prints four digits.
\<close>

definition assign_extranonce_for_miner :: "(string \<Rightarrow> string option) \<Rightarrow> string \<Rightarrow> 'tx stratum_context \<Rightarrow> nat
    \<Rightarrow> 'tx stratum_context \<times> nat" where
  "assign_extranonce_for_miner env rapp c counter =
     (if is_bitmain rapp \<and> \<not> bitmain_extranonce_enabled env then (c\<lparr>extranonce := []\<rparr>, counter)
      else (c\<lparr>extranonce := radix_digits 16 4 counter\<rparr>, if counter < 65535 then counter + 1 else 0))"

definition opt_nonempty :: "string \<Rightarrow> string option" where
  "opt_nonempty s = (if s = [] then None else Some s)"

text \<open>
  \<open>connected_at\<close> and \<open>now\<close> are the wall-clock times of the event.
\<close>

definition on_disconnect :: "clock \<Rightarrow> correlation_id \<Rightarrow> nat \<Rightarrow> 'tx pool \<Rightarrow> 'tx pool" where
  "on_disconnect t cid a p =
     (let b = deactivate_client_vardiff t (bridge_of a p);
          b = upd_conn disconnect b;
          h = client_handler p;
          h = (case ctx_id (conn b) of Some i \<Rightarrow> h\<lparr>clients := hm_remove i (clients h)\<rparr> | None \<Rightarrow> h);
          wallet = wallet_addr (conn b);
          worker = StratumContext.worker_name (conn b);
          app = remote_app (conn b);
          b = (if wallet = [] \<and> worker = [] then b
               else let (w, b) = prom_context (ch_instance_id h) app b
                    in upd_metrics (record_disconnect w) b);
          remote_app_opt = opt_nonempty app;
          worker_opt = Option.bind (opt_nonempty worker) (\<lambda>w. ok (worker_new w));
          b = (if remote_app_opt = None \<and> worker_opt = None then b
               else upd_handler (emit (SessionClosed (session_uid (conn b))
                      (Option.bind (opt_nonempty wallet) (\<lambda>w. ok (wallet_new w))) worker_opt
                      (remote_addr (conn b)) remote_app_opt (ms_connect_time (mstate (conn b))) (wall t) cid)) b)
      in put_bridge a b (p\<lparr>client_handler := h\<rparr>))"

definition disconnect_all :: "'tx pool \<Rightarrow> 'tx pool" where
  "disconnect_all p =
     (let h = client_handler p
      in p\<lparr>ctxs := fold (\<lambda>a cs. cs(a := disconnect (cs a))) (hm_values (clients h)) (ctxs p),
           client_handler := h\<lparr>clients := []\<rparr>\<rparr>)"

definition client_by_session_uid :: "u64 \<Rightarrow> 'tx pool \<Rightarrow> nat option" where
  "client_by_session_uid uid p =
     find (\<lambda>a. session_uid (ctxs p a) = uid \<and> ctx_connected (ctxs p a)) (hm_values (clients (client_handler p)))"


section \<open>Building a job\<close>

text \<open>What one job-building task meets: the time, the answers of the nodes, the difficulty settings.\<close>

record 'tx job_env =
  je_time :: clock
  je_parent :: "string + 'tx block"
  je_replies :: "'tx template_reply list"
  je_target :: target_env

definition fetch_template :: "'tx consensus \<Rightarrow> (u8 list \<Rightarrow> hash) \<Rightarrow> 'tx job_env \<Rightarrow> string \<Rightarrow> 'tx bridge
    \<Rightarrow> 'tx block option \<times> 'tx bridge" where
  "fetch_template C H je iid b =
     (let wallet = wallet_addr (conn b) in
      case next_template_generation (conn b) of
        None \<Rightarrow> (None, b)
      | Some (gen, ctx) \<Rightarrow>
          let (r, api) = get_block_template C H (mono (je_time je)) (wall_secs (je_time je)) (je_parent je)
                (je_replies je) wallet (session_uid ctx) gen (kas_payout ctx) (session_uid ctx) (node b);
              b = b\<lparr>conn := ctx, node := api\<rparr>
          in (case r of
                Inr block \<Rightarrow> (Some block, b)
              | Inl e \<Rightarrow>
                  (None, if contains ''Could not decode address'' e
                         then upd_conn disconnect (worker_error iid wallet InvalidAddressFmt b)
                         else worker_error iid wallet FailedBlockFetch b)))"

definition store_job :: "(u8 list \<Rightarrow> hash) \<Rightarrow> string \<Rightarrow> string \<Rightarrow> 'tx block \<Rightarrow> 'tx bridge \<Rightarrow> (u64 \<times> hash) option \<times> 'tx bridge" where
  "store_job H iid wallet block b =
     (let b = upd_ms (set_big_diff (calculate_target (ucast (bits (block_header block))))) b in
      case serialize_block_header H (block_header block) of
        Inl e \<Rightarrow> (None, worker_error iid wallet BadDataFromMiner b)
      | Inr h \<Rightarrow>
          (case add_job \<lparr>job_block = block, pre_pow_hash = h\<rparr> (mstate (conn b)) of
             None \<Rightarrow> (None, b)
           | Some (jid, ms) \<Rightarrow> (Some (jid, h), upd_ms (\<lambda>_. ms) b)))"

text \<open>A difficulty for this miner becomes the one in force; converting it can panic.\<close>

definition apply_diff :: "target_env \<Rightarrow> kaspa_diff \<Rightarrow> f64 \<Rightarrow> string \<Rightarrow> 'tx bridge \<Rightarrow> bool \<times> 'tx bridge" where
  "apply_diff te k d app b =
     (case set_diff_value_for_miner te k d app of
        None \<Rightarrow> (False, b)
      | Some k' \<Rightarrow> (True, upd_ms (set_stratum_diff k') b))"

definition show_difficulty :: "string \<Rightarrow> string \<Rightarrow> f64 \<Rightarrow> 'tx bridge \<Rightarrow> 'tx bridge" where
  "show_difficulty iid app d b =
     (let (w, b) = prom_context iid app b in upd_metrics (update_worker_difficulty w d) b)"

definition send_client_diff :: "string \<Rightarrow> f64 \<Rightarrow> 'tx bridge \<Rightarrow> bool \<times> 'tx bridge" where
  "send_client_diff iid d b =
     (let (sent, b) = send_on (ctx_send (set_difficulty_event (difficulty_to_json d))) b
      in if sent then (True, b) else (False, worker_error iid (wallet_addr (conn b)) FailedSetDiff b))"

definition job_params :: "bool \<Rightarrow> string \<Rightarrow> u64 \<Rightarrow> hash \<Rightarrow> u64 \<Rightarrow> json list option" where
  "job_params big app jid h stamp =
     (let i = JStr (show_nat (unat jid)) in
      if is_iceriver app then Some [i, JStr (generate_iceriver_job_params h stamp)]
      else if big then map_option (\<lambda>s. [i, JStr s]) (generate_large_job_params h stamp)
      else Some [i, JArr (map (\<lambda>v. JNum (NumInt (uint v))) (generate_job_header h)), JNum (NumInt (uint stamp))])"

definition send_notify :: "bool \<Rightarrow> u64 \<Rightarrow> json list \<Rightarrow> 'tx stratum_context \<Rightarrow> (disconnected + unit) \<times> 'tx stratum_context" where
  "send_notify minimal jid ps =
     (if minimal then send_notification ''mining.notify'' ps
      else ctx_send \<lparr>ev_id = Some (JNum (NumInt (uint jid))), jsonrpc = ''2.0'', ev_method = ''mining.notify'', params = ps\<rparr>)"

text \<open>\<^verbatim>\<open>ErrorDisconnected\<close> displays as \<^verbatim>\<open>disconnecting\<close>.\<close>

definition display_disconnected :: string where
  "display_disconnected = ''disconnecting''"

definition send_failure_code :: error_short_code where
  "send_failure_code = (if contains ''disconnected'' display_disconnected then Disconnected else FailedSendWork)"

definition publish_job :: "clock \<Rightarrow> string \<Rightarrow> string \<Rightarrow> string \<Rightarrow> bool \<Rightarrow> u64 \<Rightarrow> hash \<Rightarrow> u64 \<Rightarrow> 'tx bridge \<Rightarrow> bool \<times> 'tx bridge" where
  "publish_job t iid wallet app minimal jid h stamp b =
     (case job_params (use_big_job (mstate (conn b))) app jid h stamp of
        None \<Rightarrow> (False, b)
      | Some ps \<Rightarrow>
          let (sent, b) = send_on (send_notify minimal jid ps) b
          in if sent
             then let b = upd_conn (mark_job_sent (mono t)) b;
                      (w, b) = prom_context iid [] b
                  in (True, upd_metrics (record_new_job w) b)
             else (False, worker_error iid wallet send_failure_code b))"

section \<open>The immediate job\<close>

text \<open>What happens before the task is spawned: the difficulty it starts with, if it starts.\<close>

definition immediate_job_start :: "client_handler \<Rightarrow> 'tx job_env \<Rightarrow> 'tx bridge \<Rightarrow> f64 option \<times> 'tx bridge" where
  "immediate_job_start h je b =
     (if wallet_addr (conn b) = [] then (None, b)
      else if \<not> ctx_connected (conn b) then (None, b)
      else let (initial_diff, b) = register_client_vardiff (je_time je) (seed_for_port h (local_port (conn b))) b;
               (done', b) = apply_diff (je_target je) kaspa_diff_new initial_diff (remote_app (conn b)) b
           in (if done' then Some initial_diff else None, b))"

text \<open>The initialisation of a connection's mining state, when it is the first job's.\<close>

definition init_mining_state :: "target_env \<Rightarrow> string \<Rightarrow> string \<Rightarrow> f64 \<Rightarrow> 'tx bridge \<Rightarrow> bool \<times> 'tx bridge" where
  "init_mining_state te iid app initial_diff b =
     (let b = upd_ms (set_initialized True) b;
          b = upd_ms (set_use_big_job (BIG_JOB_REGEX app)) b;
          (done', b) = apply_diff te kaspa_diff_new initial_diff app b
      in if done' then (True, show_difficulty iid app initial_diff b) else (False, b))"

text \<open>The task after the template has arrived.\<close>

definition immediate_job_publish :: "(u8 list \<Rightarrow> hash) \<Rightarrow> 'tx job_env \<Rightarrow> string \<Rightarrow> string \<Rightarrow> string \<Rightarrow> f64 \<Rightarrow> 'tx block
    \<Rightarrow> 'tx bridge \<Rightarrow> bool \<times> 'tx bridge" where
  "immediate_job_publish H je iid wallet app initial_diff block b =
     (let b = upd_ms (set_last_header (block_header block)) b;
          (stored, b) = store_job H iid wallet block b
      in case stored of
           None \<Rightarrow> (False, b)
         | Some (jid, h) \<Rightarrow>
             let (go, b) = (if initialized (mstate (conn b)) then (True, b)
                            else init_mining_state (je_target je) iid app initial_diff b)
             in if \<not> go then (False, b)
                else let current_diff = (case stratum_diff (mstate (conn b)) of
                           Some k \<Rightarrow> diff_value k | None \<Rightarrow> initial_diff);
                         b = show_difficulty iid app current_diff b;
                         (sent, b) = send_client_diff iid current_diff b
                     in if \<not> sent then (False, b)
                        else publish_job (je_time je) iid wallet app (is_iceriver app) jid h
                               (hdr_timestamp (block_header block)) b)"

definition immediate_job_task :: "'tx consensus \<Rightarrow> (u8 list \<Rightarrow> hash) \<Rightarrow> 'tx job_env \<Rightarrow> string \<Rightarrow> f64 \<Rightarrow> 'tx bridge
    \<Rightarrow> bool \<times> 'tx bridge" where
  "immediate_job_task C H je iid initial_diff b =
     (let wallet = wallet_addr (conn b);
          app = remote_app (conn b);
          (fetched, b) = fetch_template C H je iid b
      in case fetched of
           None \<Rightarrow> (False, b)
         | Some block \<Rightarrow> immediate_job_publish H je iid wallet app initial_diff block b)"

definition send_immediate_job_to_client :: "'tx consensus \<Rightarrow> (u8 list \<Rightarrow> hash) \<Rightarrow> client_handler \<Rightarrow> 'tx job_env
    \<Rightarrow> 'tx bridge \<Rightarrow> bool \<times> 'tx bridge" where
  "send_immediate_job_to_client C H h je b =
     (let (start, b) = immediate_job_start h je b
      in case start of
           None \<Rightarrow> (False, b)
         | Some d \<Rightarrow> immediate_job_task C H je (ch_instance_id h) d b)"


section \<open>A new block\<close>

text \<open>The connections that are served, and the wallets whose balances are asked for.\<close>

definition new_block_available :: "nat \<Rightarrow> 'tx pool \<Rightarrow> (nat list \<times> string list option) option \<times> 'tx pool" where
  "new_block_available now p =
     (let h = client_handler p in
      if now - last_template_time h < TEMPLATE_INTERVAL then (None, p)
      else let h = h\<lparr>last_template_time := now\<rparr>;
               served = filter (\<lambda>a. ctx_connected (ctxs p a)) (hm_values (clients h));
               addresses = filter (\<lambda>w. w \<noteq> []) (map (\<lambda>a. wallet_addr (ctxs p a)) served);
               due = (BALANCE_DELAY < now - last_balance_check h \<and> addresses \<noteq> []);
               h = (if due then h\<lparr>last_balance_check := now\<rparr> else h)
           in (Some (served, if due then Some addresses else None), p\<lparr>client_handler := h\<rparr>))"

definition balance_task :: "string + (string \<times> u64) list \<Rightarrow> 'tx pool \<Rightarrow> 'tx pool" where
  "balance_task answer p =
     (case answer of
        Inr balances \<Rightarrow> p\<lparr>pool_metrics := record_balances (ch_instance_id (client_handler p)) balances (pool_metrics p)\<rparr>
      | Inl e \<Rightarrow> p)"

text \<open>Bringing the connection up to the worker's difficulty; the flag tells whether to go on.\<close>

definition follow_vardiff :: "'tx job_env \<Rightarrow> string \<Rightarrow> 'tx bridge \<Rightarrow> bool \<times> 'tx bridge" where
  "follow_vardiff je iid b =
     (case stratum_diff (mstate (conn b)) of
        None \<Rightarrow> (True, b)
      | Some k \<Rightarrow>
          let current_diff = diff_value k;
              var_diff = get_client_vardiff b;
              (var_diff, b) = (if fle var_diff (Fin 0) \<and> flt (Fin 0) current_diff
                 then (current_diff,
                       start_client_vardiff (je_time je) (snd (set_client_vardiff (je_time je) current_diff b)))
                 else (var_diff, b))
          in if feq var_diff current_diff then (True, b)
             else let app = remote_app (conn b);
                      (done', b) = apply_diff (je_target je) k var_diff app b
                  in if \<not> done' then (False, b)
                     else let b = show_difficulty iid app var_diff b;
                              (sent, b) = send_client_diff iid var_diff b
                          in if \<not> sent then (False, b)
                             else (True, start_client_vardiff (je_time je) b))"

definition first_or_follow :: "'tx job_env \<Rightarrow> string \<Rightarrow> string \<Rightarrow> f64 \<Rightarrow> 'tx bridge \<Rightarrow> bool \<times> 'tx bridge" where
  "first_or_follow je iid app initial_diff b =
     (if initialized (mstate (conn b)) then follow_vardiff je iid b
      else let b = upd_ms (set_use_big_job (BIG_JOB_REGEX app)) (upd_ms (set_initialized True) b);
               (done', b) = apply_diff (je_target je) kaspa_diff_new initial_diff (remote_app (conn b)) b
           in if \<not> done' then (False, b)
              else send_client_diff iid initial_diff (show_difficulty iid (remote_app (conn b)) initial_diff b))"

definition new_block_publish :: "(u8 list \<Rightarrow> hash) \<Rightarrow> client_handler \<Rightarrow> 'tx job_env \<Rightarrow> string \<Rightarrow> string \<Rightarrow> 'tx block
    \<Rightarrow> 'tx bridge \<Rightarrow> bool \<times> 'tx bridge" where
  "new_block_publish H h je wallet app block b =
     (let (stored, b) = store_job H (ch_instance_id h) wallet block b
      in case stored of
           None \<Rightarrow> (False, b)
         | Some (jid, hash) \<Rightarrow>
             let (initial_diff, b) = register_client_vardiff (je_time je) (seed_for_port h (local_port (conn b))) b;
                 (go, b) = first_or_follow je (ch_instance_id h) app initial_diff b
             in if \<not> go then (False, b)
                else publish_job (je_time je) (ch_instance_id h) wallet (remote_app (conn b))
                       (contains ''IceRiver'' (remote_app (conn b))) jid hash (hdr_timestamp (block_header block)) b)"

text \<open>The task of one connection; \<open>busy\<close> tells whether another task is building a job for it.\<close>

definition new_block_task :: "'tx consensus \<Rightarrow> (u8 list \<Rightarrow> hash) \<Rightarrow> client_handler \<Rightarrow> 'tx job_env \<Rightarrow> bool
    \<Rightarrow> 'tx bridge \<Rightarrow> bool \<times> 'tx bridge" where
  "new_block_task C H h je busy b =
     (if busy then (False, b)
      else if wallet_addr (conn b) = [] then
        (False, if CLIENT_TIMEOUT < wall (je_time je) - ms_connect_time (mstate (conn b))
                then upd_conn disconnect (worker_error (ch_instance_id h) [] NoMinerAddress b) else b)
      else let wallet = wallet_addr (conn b);
               app = remote_app (conn b);
               (fetched, b) = fetch_template C H je (ch_instance_id h) b
           in case fetched of
                None \<Rightarrow> (False, b)
              | Some block \<Rightarrow> new_block_publish H h je wallet app block b)"

section \<open>A new parent\<close>

text \<open>
  Before the task is spawned: the job whose parent is refreshed.  The permit goes back to the
  gate when there is no job to refresh.
\<close>

definition drop_permit :: "'tx stratum_context \<Rightarrow> 'tx stratum_context" where
  "drop_permit c = c\<lparr>parent_refresh_gate := parent_refresh_gate c + 1\<rparr>"

definition parent_refresh_start :: "(string \<Rightarrow> string option) \<Rightarrow> nat \<Rightarrow> 'tx stratum_context
    \<Rightarrow> 'tx job option \<times> 'tx stratum_context" where
  "parent_refresh_start env now c =
     (if \<not> ctx_connected c then (None, c)
      else let (permit, c) = try_parent_refresh (parent_job_interval env (remote_app c)) now c
           in if \<not> permit then (None, c)
              else case latest_job (mstate c) of
                     None \<Rightarrow> (None, drop_permit c)
                   | Some (_, old_job) \<Rightarrow> (Some old_job, c))"

text \<open>The call to the parent node.\<close>

definition parent_refresh_fetch :: "'tx consensus \<Rightarrow> 'tx job_env \<Rightarrow> 'tx job \<Rightarrow> 'tx bridge \<Rightarrow> 'tx block option \<times> 'tx bridge" where
  "parent_refresh_fetch C je old_job b =
     (let payee = (if trait_merged_lane_paid_pool C (node b) (job_block old_job) then None else kas_payout (conn b));
          (r, api) = refresh_merged_parent C (mono (je_time je)) (je_parent je) (job_block old_job) payee (node b);
          b = b\<lparr>node := api\<rparr>
      in (case r of Inr (Some parent) \<Rightarrow> Some parent | _ \<Rightarrow> None, b))"

text \<open>After its answer, in whatever state the connection is by then.\<close>

definition parent_refresh_publish :: "'tx consensus \<Rightarrow> (u8 list \<Rightarrow> hash) \<Rightarrow> 'tx job_env \<Rightarrow> string \<Rightarrow> hash option \<Rightarrow> bool
    \<Rightarrow> 'tx block \<Rightarrow> 'tx bridge \<Rightarrow> bool \<times> 'tx bridge" where
  "parent_refresh_publish C H je iid expected_h_fc busy parent b =
     (if busy then (False, b)
      else case latest_job (mstate (conn b)) of
        None \<Rightarrow> (False, b)
      | Some (_, latest) \<Rightarrow>
          if committed_h_fc C (job_block latest) \<noteq> expected_h_fc then (False, b)
          else (case serialize_block_header H (block_header parent) of
            Inl e \<Rightarrow> (False, b)
          | Inr h \<Rightarrow>
              (case add_job \<lparr>job_block = parent, pre_pow_hash = h\<rparr> (mstate (conn b)) of
                 None \<Rightarrow> (False, b)
               | Some (jid, ms) \<Rightarrow>
                   let b = upd_ms (\<lambda>_. ms) b;
                       app = remote_app (conn b)
                   in (case job_params (use_big_job (mstate (conn b))) app jid h (hdr_timestamp (block_header parent)) of
                         None \<Rightarrow> (False, b)
                       | Some ps \<Rightarrow>
                           let (sent, b) = send_on (send_notify (is_iceriver app) jid ps) b
                           in if sent
                              then let b = upd_conn (mark_parent_job_sent (mono (je_time je)))
                                             (upd_conn (mark_job_sent (mono (je_time je))) b);
                                       (w, b) = prom_context iid app b
                                   in (True, upd_metrics (record_new_job w) b)
                              else (False, worker_error iid (wallet_addr (conn b)) FailedSendWork b)))))"

definition parent_refresh_task :: "'tx consensus \<Rightarrow> (u8 list \<Rightarrow> hash) \<Rightarrow> 'tx job_env \<Rightarrow> string \<Rightarrow> bool \<Rightarrow> 'tx job
    \<Rightarrow> 'tx bridge \<Rightarrow> bool \<times> 'tx bridge" where
  "parent_refresh_task C H je iid busy old_job b =
     (let (fetched, b) = parent_refresh_fetch C je old_job b;
          (sent, b) = (case fetched of
              None \<Rightarrow> (False, b)
            | Some parent \<Rightarrow>
                parent_refresh_publish C H je iid (committed_h_fc C (job_block old_job)) busy parent b)
      in (sent, upd_conn drop_permit b))"

definition new_parent_available :: "'tx consensus \<Rightarrow> (u8 list \<Rightarrow> hash) \<Rightarrow> (string \<Rightarrow> string option) \<Rightarrow> client_handler
    \<Rightarrow> 'tx job_env \<Rightarrow> bool \<Rightarrow> 'tx bridge \<Rightarrow> bool \<times> 'tx bridge" where
  "new_parent_available C H env h je busy b =
     (let (start, ctx) = parent_refresh_start env (mono (je_time je)) (conn b);
          b = b\<lparr>conn := ctx\<rparr>
      in case start of
           None \<Rightarrow> (False, b)
         | Some old_job \<Rightarrow> parent_refresh_task C H je (ch_instance_id h) busy old_job b)"

end
