(* ===== verification/DefaultClient.thy ===== *)
theory DefaultClient
  imports ClientHandler
begin

text \<open>
  \<^verbatim>\<open>default_client.rs\<close>: the handshake.  \<open>handle_subscribe\<close> and \<open>handle_authorize\<close> are
  functions on the bridge of the connection; the client handler is an optional argument, as in the
  code.  The address parser of \<^verbatim>\<open>kaspa_addresses\<close> is the field \<open>address_try_from\<close> of the
  consensus parameter; environment variables are a function from their names.
\<close>

datatype handshake_failure =
    EmptyParams
  | AddressNotString
  | SendFailed string
  | HandshakePanicked

section \<open>Addresses\<close>

definition process_canxium_address :: "string \<Rightarrow> string" where
  "process_canxium_address address =
     (let addr = (if starts_with ''0x'' address then drop 2 address
                  else if starts_with ''canxiuminer:0x'' (to_lower address)
                  then take (length ''canxiuminer:'') address @ drop (length ''canxiuminer:0x'') address
                  else address)
      in if starts_with ''canxiuminer:'' (to_lower addr) then addr else ''canxiuminer:'' @ addr)"

definition pool_fallback_address :: "(string \<Rightarrow> string option) \<Rightarrow> string" where
  "pool_fallback_address env =
     the_default ''zkas:py82h42m9qjff0knpcmllzq3c7qhurje5auh4tq2ceagf69wjpf23djwwmqr26zhsua8rrglrwdltsh''
       (env ''POOL_FALLBACK_ADDRESS'')"

definition kaspa_prefixed :: "string \<Rightarrow> bool" where
  "kaspa_prefixed s \<longleftrightarrow> starts_with ''kaspa:'' s \<or> starts_with ''kaspatest:'' s \<or> starts_with ''kaspadev:'' s"

definition looks_like_payout_attempt :: "string \<Rightarrow> bool" where
  "looks_like_payout_attempt raw = kaspa_prefixed (to_lower (trim raw))"

definition is_placeholder_password :: "string \<Rightarrow> bool" where
  "is_placeholder_password raw = (\<not> looks_like_payout_attempt raw)"

definition parse_kas_payout :: "'tx consensus \<Rightarrow> string option \<Rightarrow> kaspa_address option" where
  "parse_kas_payout C password =
     (case password of
        None \<Rightarrow> None
      | Some p \<Rightarrow>
          let raw = trim p in
          if is_placeholder_password raw then None
          else let candidate = trim (hd (split_at (\<lambda>c. c = CHR '','' \<or> c = CHR '' '') raw))
               in if \<not> kaspa_prefixed candidate then None else ok (address_try_from C candidate))"

text \<open>
  \<^verbatim>\<open>kaspa(test|dev)?:([a-z0-9]{61}|[a-z0-9]{63})\<close>: the leftmost match, the first alternative
  that fits.
\<close>

definition payload_char :: "char \<Rightarrow> bool" where
  "payload_char c \<longleftrightarrow> is_ascii_lower c \<or> is_ascii_digit c"

definition regex_payload :: "string \<Rightarrow> string option" where
  "regex_payload s =
     (if 61 \<le> length s \<and> list_all payload_char (take 61 s) then Some (take 61 s)
      else if 63 \<le> length s \<and> list_all payload_char (take 63 s) then Some (take 63 s)
      else None)"

definition regex_at :: "string \<Rightarrow> string option" where
  "regex_at s =
     (case strip_prefix ''kaspatest:'' s of
        Some t \<Rightarrow> map_option (\<lambda>p. ''kaspatest:'' @ p) (regex_payload t)
      | None \<Rightarrow> (case strip_prefix ''kaspadev:'' s of
          Some t \<Rightarrow> map_option (\<lambda>p. ''kaspadev:'' @ p) (regex_payload t)
        | None \<Rightarrow> (case strip_prefix ''kaspa:'' s of
            Some t \<Rightarrow> map_option (\<lambda>p. ''kaspa:'' @ p) (regex_payload t)
          | None \<Rightarrow> None)))"

fun WALLET_REGEX :: "string \<Rightarrow> string option" where
  "WALLET_REGEX [] = regex_at []"
| "WALLET_REGEX (c # cs) = (case regex_at (c # cs) of Some m \<Rightarrow> Some m | None \<Rightarrow> WALLET_REGEX cs)"

text \<open>The only recursive call is on an input with a prefix.\<close>

function clean_wallet :: "'tx consensus \<Rightarrow> string \<Rightarrow> string + string" where
  "clean_wallet C input =
     (if is_ok (address_try_from C input) then Inr input
      else if \<not> kaspa_prefixed input then clean_wallet C (''kaspa:'' @ input)
      else case WALLET_REGEX input of
        Some m \<Rightarrow> Inr m
      | None \<Rightarrow> Inl ''unable to coerce wallet to valid kaspa address'')"
  by pat_completeness auto
termination
  by (relation "measure (\<lambda>(C, input). if kaspa_prefixed input then 0 else 1)")
     (auto simp: kaspa_prefixed_def starts_with_iff)

declare clean_wallet.simps [simp del]

section \<open>Sending the extranonce\<close>

text \<open>\<^verbatim>\<open>8 - len / 2\<close> on \<^verbatim>\<open>usize\<close> panics when it would be negative.\<close>

definition extranonce2_size :: "string \<Rightarrow> nat option" where
  "extranonce2_size x = (if 8 < length x div 2 then None else Some (8 - length x div 2))"

definition send_extranonce :: "'tx bridge \<Rightarrow> (handshake_failure + unit) \<times> 'tx bridge" where
  "send_extranonce b =
     (let app = remote_app (conn b);
          x = extranonce (conn b)
      in case (if is_bitmain app
               then map_option (\<lambda>n. [JStr x, JNum (NumInt (int n))]) (extranonce2_size x)
               else Some [JStr x]) of
           None \<Rightarrow> (Inl HandshakePanicked, b)
         | Some ps \<Rightarrow>
             let (sent, b) = (if contains ''IceRiver'' app
                  then send_on (send_notification ''mining.set_extranonce'' ps) b
                  else send_on (ctx_send (event_new None ''mining.set_extranonce'' ps)) b)
             in (if sent then Inr () else Inl (SendFailed ''set extranonce''), b))"

section \<open>Subscribe\<close>

definition subscribe_result :: "string \<Rightarrow> string \<Rightarrow> json option" where
  "subscribe_result app x =
     (if is_bitmain app
      then map_option (\<lambda>n. JArr [JNull, JStr x, JNum (NumInt (int n))]) (extranonce2_size x)
      else Some (JArr [JBool True, JStr ''EthereumStratum/1.0.0'']))"

definition reply_on :: "string \<Rightarrow> json_rpc_event \<Rightarrow> json \<Rightarrow> 'tx bridge \<Rightarrow> (handshake_failure + unit) \<times> 'tx bridge" where
  "reply_on what ev v b =
     (let (sent, b) = send_on (reply (response_new ev (Some v) None)) b
      in (if sent then Inr () else Inl (SendFailed what), b))"

text \<open>The Kaspa Common part: the extranonce and the difficulty, before authorization.\<close>

definition common_handshake :: "client_handler \<Rightarrow> string \<Rightarrow> 'tx bridge \<Rightarrow> (handshake_failure + unit) \<times> 'tx bridge" where
  "common_handshake h x b =
     (let (sent, b) = send_on (send_v1_notification ''set_extranonce''
            [JStr x, JNum (NumInt (int (8 - length x div 2)))]) b
      in if \<not> sent then (Inl (SendFailed ''Kaspa Common extranonce''), b)
         else let (sent, b) = send_on (send_subscribe_difficulty_v1 h) b
              in (if sent then Inr () else Inl (SendFailed ''Kaspa Common difficulty''), b))"

definition set_app :: "json_rpc_event \<Rightarrow> 'tx stratum_context \<Rightarrow> 'tx stratum_context" where
  "set_app ev c = (case params ev of JStr app # _ \<Rightarrow> c\<lparr>remote_app := app\<rparr> | _ \<Rightarrow> c)"

definition assign_on :: "(string \<Rightarrow> string option) \<Rightarrow> client_handler option \<Rightarrow> 'tx bridge \<Rightarrow> nat \<Rightarrow> 'tx bridge \<times> nat" where
  "assign_on env h b counter =
     (case h of
        None \<Rightarrow> (b, counter)
      | Some _ \<Rightarrow>
          let (c, counter) = assign_extranonce_for_miner env (remote_app (conn b)) (conn b) counter
          in (b\<lparr>conn := c\<rparr>, counter))"

definition handle_subscribe :: "(string \<Rightarrow> string option) \<Rightarrow> client_handler option \<Rightarrow> json_rpc_event \<Rightarrow> 'tx bridge \<Rightarrow> nat
    \<Rightarrow> (handshake_failure + unit) \<times> 'tx bridge \<times> nat" where
  "handle_subscribe env h ev b counter =
     (let b = upd_conn (set_app ev) b;
          (b, counter) = assign_on env h b counter;
          app = remote_app (conn b);
          x = extranonce (conn b);
          common = (case h of Some h \<Rightarrow> kaspa_common_protocol h | None \<Rightarrow> False)
      in case subscribe_result app x of
           None \<Rightarrow> (Inl HandshakePanicked, b, counter)
         | Some v \<Rightarrow>
             let (r, b) = reply_on ''subscribe'' ev v b in
             if \<not> is_ok r then (r, b, counter)
             else let (r, b) = (if common then common_handshake (the h) x b else (Inr (), b)) in
             if \<not> is_ok r then (r, b, counter)
             else if \<not> common \<and> contains ''iceriver'' (to_lower app) \<and> h \<noteq> None \<and> x \<noteq> []
             then let (r, b) = send_extranonce b in (r, b, counter)
             else (Inr (), b, counter))"

definition handle_extranonce_subscribe :: "json_rpc_event \<Rightarrow> 'tx bridge \<Rightarrow> (handshake_failure + unit) \<times> 'tx bridge" where
  "handle_extranonce_subscribe ev b = reply_on ''extranonce subscribe'' ev (JBool True) b"

text \<open>The placeholder for submissions in the default handler map.\<close>

definition handle_submit_stub :: "json_rpc_event \<Rightarrow> 'tx bridge \<Rightarrow> (handshake_failure + unit) \<times> 'tx bridge" where
  "handle_submit_stub ev b = (Inr (), b)"

section \<open>Authorize\<close>

definition as_str :: "json \<Rightarrow> string option" where
  "as_str v = (case v of JStr s \<Rightarrow> Some s | _ \<Rightarrow> None)"

text \<open>Address, worker name and Canxium address, as the parameter gives them.\<close>

definition split_login :: "string \<Rightarrow> string \<times> string \<times> string" where
  "split_login s =
     (let parts = split_at (\<lambda>c. c = CHR ''.'') s
      in (hd parts,
          if 2 \<le> length parts then parts ! 1 else [],
          if 3 \<le> length parts then process_canxium_address (parts ! 2) else []))"

definition login_wallet :: "'tx consensus \<Rightarrow> (string \<Rightarrow> string option) \<Rightarrow> client_handler option \<Rightarrow> string \<Rightarrow> 'tx bridge
    \<Rightarrow> string \<times> 'tx bridge" where
  "login_wallet C env h address b =
     (case clean_wallet C address of
        Inr a \<Rightarrow> (a, b)
      | Inl e \<Rightarrow>
          (pool_fallback_address env,
           upd_metrics (record_bad_address (case h of Some h \<Rightarrow> ch_instance_id h | None \<Rightarrow> []) (remote_addr (conn b))) b))"

text \<open>The change of identity: the old worker is left, the new one joined.\<close>

definition set_identity :: "clock \<Rightarrow> client_handler option \<Rightarrow> string \<Rightarrow> string \<Rightarrow> 'tx bridge \<Rightarrow> string \<times> 'tx bridge" where
  "set_identity t h address worker b =
     (let b = (if h = None then b else prepare_worker_identity_change t b);
          b = upd_conn (\<lambda>c. c\<lparr>wallet_addr := address\<rparr>) b;
          b = upd_conn (set_authorized_worker_name worker) b;
          (name, c) = effective_worker_name (conn b);
          b = b\<lparr>conn := c\<rparr>
      in (name, if h = None then b else sync_worker_prom_metrics t b))"

definition open_session :: "correlation_id \<Rightarrow> client_handler option \<Rightarrow> string \<Rightarrow> string \<Rightarrow> 'tx bridge \<Rightarrow> 'tx bridge" where
  "open_session cid h address name b =
     (if h = None then b
      else let (first, c) = claim_session_open (conn b);
               b = b\<lparr>conn := c\<rparr>
           in if \<not> first then b
              else upd_handler (emit (SessionOpened (session_uid c) (ok (wallet_new address))
                     (Option.bind (opt_nonempty name) (\<lambda>w. ok (worker_new w))) (remote_addr c)
                     (opt_nonempty (remote_app c)) (ms_connect_time (mstate c)) cid)) b)"

text \<open>
  From the reply on.  On success the result says which tasks have been spawned: with a client
  handler and a node, the watchdog, and the immediate job with its starting difficulty unless that
  was refused.
\<close>

definition start_immediate_job :: "'tx job_env \<Rightarrow> client_handler option \<Rightarrow> bool \<Rightarrow> 'tx bridge
    \<Rightarrow> (handshake_failure + f64 option) \<times> 'tx bridge" where
  "start_immediate_job je h has_api b =
     (case h of
        Some h \<Rightarrow> if has_api then let (start, b) = immediate_job_start h je b in (Inr start, b) else (Inr None, b)
      | None \<Rightarrow> (Inr None, b))"

definition authorize_reply :: "'tx job_env \<Rightarrow> client_handler option \<Rightarrow> bool \<Rightarrow> json_rpc_event \<Rightarrow> 'tx bridge
    \<Rightarrow> (handshake_failure + f64 option) \<times> 'tx bridge" where
  "authorize_reply je h has_api ev b =
     (let (r, b) = reply_on ''authorize'' ev (JBool True) b
      in case r of
           Inl e \<Rightarrow> (Inl e, b)
         | Inr _ \<Rightarrow>
             let b = upd_conn (mark_authorized (mono (je_time je))) b;
                 app = remote_app (conn b);
                 common = (case h of Some h \<Rightarrow> kaspa_common_protocol h | None \<Rightarrow> False);
                 (r, b) = (if extranonce (conn b) \<noteq> [] \<and> \<not> is_bitmain app \<and> \<not> is_iceriver app \<and> \<not> common
                           then send_extranonce b else (Inr (), b))
             in (case r of Inl e \<Rightarrow> (Inl e, b) | Inr _ \<Rightarrow> start_immediate_job je h has_api b))"

text \<open>The identity of the miner, from the parameters of the frame.\<close>

definition authorize_identity :: "'tx consensus \<Rightarrow> (string \<Rightarrow> string option) \<Rightarrow> clock \<Rightarrow> correlation_id
    \<Rightarrow> client_handler option \<Rightarrow> string \<Rightarrow> string option \<Rightarrow> 'tx bridge \<Rightarrow> 'tx bridge" where
  "authorize_identity C env t cid h login password b =
     (let (address, worker, canxium) = split_login login;
          (address, b) = login_wallet C env h address b;
          (name, b) = set_identity t h address worker b;
          b = (if canxium = [] then b else upd_conn (\<lambda>c. c\<lparr>canxium_addr := canxium\<rparr>) b);
          b = upd_conn (\<lambda>c. c\<lparr>kas_payout := parse_kas_payout C password\<rparr>) b
      in open_session cid h address name b)"

definition handle_authorize :: "'tx consensus \<Rightarrow> (string \<Rightarrow> string option) \<Rightarrow> 'tx job_env \<Rightarrow> correlation_id
    \<Rightarrow> client_handler option \<Rightarrow> bool \<Rightarrow> json_rpc_event \<Rightarrow> 'tx bridge
    \<Rightarrow> (handshake_failure + f64 option) \<times> 'tx bridge" where
  "handle_authorize C env je cid h has_api ev b =
     (case params ev of
        [] \<Rightarrow> (Inl EmptyParams, b)
      | p # rest \<Rightarrow>
          (case as_str p of
             None \<Rightarrow> (Inl AddressNotString, b)
           | Some login \<Rightarrow>
               authorize_reply je h has_api ev
                 (authorize_identity C env (je_time je) cid h login
                    (case rest of [] \<Rightarrow> None | q # _ \<Rightarrow> as_str q) b)))"

end
