(* ===== verification/ClientJobs.thy ===== *)
theory ClientJobs
  imports ClientHandler
begin

text \<open>
  What the job-sending tasks of \<^verbatim>\<open>client_handler.rs\<close> achieve: a job that is announced to a
  miner can be looked up by the id in the announcement, with the block and the hash it was made
  from; the extranonces of consecutive miners differ; and two places where the difficulty or the
  payee of a job is not the one its comments promise.
\<close>

section \<open>What reaches the miner\<close>

lemma send_on_frame [frame]:
  "handler (snd (send_on f b)) = handler b" "node (snd (send_on f b)) = node b"
  "metrics (snd (send_on f b)) = metrics b" "conn (snd (send_on f b)) = snd (f (conn b))"
  "fst (send_on f b) = is_ok (fst (f (conn b)))"
  by (simp_all add: send_on_def split_beta)

lemma worker_error_frame [frame]:
  "handler (worker_error iid w c b) = handler b" "node (worker_error iid w c b) = node b"
  "conn (worker_error iid w c b) = conn b"
  by (simp_all add: worker_error_def)

lemma prom_context_frame [frame]:
  "handler (snd (prom_context iid m b)) = handler b" "node (snd (prom_context iid m b)) = node b"
  "metrics (snd (prom_context iid m b)) = metrics b"
  "conn (snd (prom_context iid m b)) = ensure_default_worker_name (conn b)"
  by (simp_all add: prom_context_def from_stratum_def effective_worker_name_def Let_def)

lemma show_difficulty_frame [frame]:
  "handler (show_difficulty iid app d b) = handler b" "node (show_difficulty iid app d b) = node b"
  "conn (show_difficulty iid app d b) = ensure_default_worker_name (conn b)"
  by (simp_all add: show_difficulty_def split_beta frame)

lemma register_frame [frame]:
  "node (snd (register_client_vardiff t seed b)) = node b"
  "conn (snd (register_client_vardiff t seed b)) = ensure_default_worker_name (conn b)"
  by (simp_all add: register_client_vardiff_def split_beta Let_def frame)

lemma is_ok_unit: "is_ok (r :: disconnected + unit) \<longleftrightarrow> r = Inr ()"
  by (cases r) auto


text \<open>The frame that carries a job.\<close>

definition notify_frame :: "bool \<Rightarrow> u64 \<Rightarrow> json list \<Rightarrow> frame" where
  "notify_frame minimal jid ps =
     (if minimal then Notification ''mining.notify'' ps
      else Event \<lparr>ev_id = Some (JNum (NumInt (uint jid))), jsonrpc = ''2.0'', ev_method = ''mining.notify'', params = ps\<rparr>)"

interpretation job_sender: frame_sender "\<lambda>(minimal, jid, ps). send_notify minimal jid ps"
    "\<lambda>(minimal, jid, ps). notify_frame minimal jid ps"
  by unfold_locales (auto simp: send_notify_def notify_frame_def snd_ev.send_is_write
      notif.send_is_write [of "(''mining.notify'', _)", simplified])

lemmas notify_delivered = job_sender.delivered [where m = "(minimal, jid, ps)" for minimal jid ps, simplified]
lemmas notify_keeps = job_sender.keeps [where m = "(minimal, jid, ps)" for minimal jid ps, simplified]

lemma delivered_frame [frame]: "delivered (ensure_default_worker_name c) = delivered c"
  "delivered (c\<lparr>mstate := m\<rparr>) = delivered c" "delivered (mark_job_sent t c) = delivered c"
  "delivered (mark_parent_job_sent t c) = delivered c" "delivered (drop_permit c) = delivered c"
  by (simp_all add: delivered_def frame mark_job_sent_def mark_parent_job_sent_def drop_permit_def)

lemma mark_frame [frame]: "mstate (mark_job_sent t c) = mstate c" "mstate (mark_parent_job_sent t c) = mstate c"
  "mstate (drop_permit c) = mstate c"
  by (simp_all add: mark_job_sent_def mark_parent_job_sent_def drop_permit_def)

lemma publish_job_sent:
  assumes "publish_job t iid wallet app minimal jid h stamp b = (True, b')"
  shows "\<exists>ps. job_params (use_big_job (mstate (conn b))) app jid h stamp = Some ps
    \<and> delivered (conn b') = delivered (conn b) @ [notify_frame minimal jid ps]
    \<and> mstate (conn b') = mstate (conn b)"
  using assms
  by (auto simp: publish_job_def split_beta Let_def frame is_ok_unit notify_delivered notify_keeps
      split: option.splits if_splits)

lemma publish_job_mstate:
  "mstate (conn (snd (publish_job t iid wallet app minimal jid h stamp b))) = mstate (conn b)"
  by (auto simp: publish_job_def split_beta Let_def frame notify_keeps split: option.splits)

lemma send_diff_sent:
  assumes "send_client_diff iid d b = (True, b')"
  shows "delivered (conn b') = delivered (conn b) @ [Event (set_difficulty_event (difficulty_to_json d))]"
    and "mstate (conn b') = mstate (conn b)" and "remote_app (conn b') = remote_app (conn b)"
    and "handler b' = handler b"
  using assms
  by (auto simp: send_client_diff_def split_beta Let_def frame is_ok_unit snd_ev.delivered snd_ev.keeps split: if_splits)


section \<open>A job that is announced can be looked up\<close>

lemma add_job_lookup:
  assumes "add_job j s = Some (jid, s')"
  shows "get_job s' jid = Some j" "get_job_diff s' jid = stratum_diff s" "stratum_diff s' = stratum_diff s"
    "initialized s' = initialized s" "use_big_job s' = use_big_job s"
  using assms by (auto simp: add_job_def get_job_def get_job_diff_def Let_def split: if_splits option.splits)

text \<open>Operations that leave the stored jobs alone.\<close>

definition same_ring :: "'tx mining_state \<Rightarrow> 'tx mining_state \<Rightarrow> bool" where
  "same_ring s s' \<longleftrightarrow> jobs s' = jobs s \<and> job_ids s' = job_ids s \<and> job_diffs s' = job_diffs s"

lemma same_ring_get: "same_ring s s' \<Longrightarrow> get_job s' jid = get_job s jid \<and> get_job_diff s' jid = get_job_diff s jid"
  by (simp add: same_ring_def get_job_def get_job_diff_def)

lemma same_ring_simps [simp]:
  "same_ring s s" "same_ring s (set_initialized i s)" "same_ring s (set_use_big_job i s)"
  "same_ring s (set_stratum_diff k s)" "same_ring s (set_big_diff d s)" "same_ring s (set_last_header hd' s)"
  "same_ring s (set_use_big_job i (set_initialized i' s))"
  by (simp_all add: same_ring_def set_initialized_def set_use_big_job_def set_stratum_diff_def set_big_diff_def set_last_header_def)

lemma store_job_stored:
  assumes "store_job H iid wallet block b = (Some (jid, h), b')"
  shows "h = H (header_preimage (block_header block))"
    and "get_job (mstate (conn b')) jid = Some \<lparr>job_block = block, pre_pow_hash = h\<rparr>"
    and "get_job_diff (mstate (conn b')) jid = stratum_diff (mstate (conn b))"
    and "delivered (conn b') = delivered (conn b)"
    and "stratum_diff (mstate (conn b')) = stratum_diff (mstate (conn b))"
    and "initialized (mstate (conn b')) = initialized (mstate (conn b))"
    and "remote_app (conn b') = remote_app (conn b)" and "handler b' = handler b"
proof -
  define s where "s = set_big_diff (calculate_target (ucast (bits (block_header block)))) (mstate (conn b))"
  obtain ms where h: "h = H (header_preimage (block_header block))"
    and a: "add_job \<lparr>job_block = block, pre_pow_hash = h\<rparr> s = Some (jid, ms)" and b': "b' = upd_ms (\<lambda>_. ms) b"
    using assms by (auto simp: store_job_def serialize_block_header_def Let_def s_def split: option.splits)
  have s: "stratum_diff s = stratum_diff (mstate (conn b))" "initialized s = initialized (mstate (conn b))"
    by (simp_all add: s_def set_big_diff_def)
  show "h = H (header_preimage (block_header block))" by (rule h)
  show "get_job (mstate (conn b')) jid = Some \<lparr>job_block = block, pre_pow_hash = h\<rparr>"
    "get_job_diff (mstate (conn b')) jid = stratum_diff (mstate (conn b))"
    "delivered (conn b') = delivered (conn b)"
    "stratum_diff (mstate (conn b')) = stratum_diff (mstate (conn b))"
    "initialized (mstate (conn b')) = initialized (mstate (conn b))"
    "remote_app (conn b') = remote_app (conn b)" "handler b' = handler b"
    using add_job_lookup [OF a] by (simp_all add: b' s frame)
qed

lemma apply_diff_result:
  assumes "apply_diff te k d app b = (r, b')"
  shows "same_ring (mstate (conn b)) (mstate (conn b'))" "delivered (conn b') = delivered (conn b)"
    "remote_app (conn b') = remote_app (conn b)" "initialized (mstate (conn b')) = initialized (mstate (conn b))"
    "use_big_job (mstate (conn b')) = use_big_job (mstate (conn b))" "handler b' = handler b"
    "r \<Longrightarrow> \<exists>k'. set_diff_value_for_miner te k d app = Some k' \<and> diff_value k' = d \<and> stratum_diff (mstate (conn b')) = Some k'"
  using assms
  by (auto simp: apply_diff_def frame set_stratum_diff_def set_diff_value_for_miner_def same_ring_def split: option.splits)

lemma app_frame [frame]: "remote_app (ensure_default_worker_name c) = remote_app c"
  "local_port (ensure_default_worker_name c) = local_port c"
  by (simp_all add: ensure_default_worker_name_def)

definition is_difficulty :: "frame \<Rightarrow> bool" where
  "is_difficulty f \<longleftrightarrow> (\<exists>d. f = Event (set_difficulty_event (difficulty_to_json d)))"

lemma init_mining_state_result:
  assumes "init_mining_state te iid app d b = (True, b')"
  shows "same_ring (mstate (conn b)) (mstate (conn b'))" "delivered (conn b') = delivered (conn b)"
    "remote_app (conn b') = remote_app (conn b)"
proof -
  define b0 where "b0 = upd_ms (set_use_big_job (BIG_JOB_REGEX app)) (upd_ms (set_initialized True) b)"
  obtain r b1 where a: "apply_diff te kaspa_diff_new d app b0 = (r, b1)" by fastforce
  have b': "b' = show_difficulty iid app d b1" and r
    using assms a by (auto simp: init_mining_state_def b0_def Let_def split: if_splits)
  show "same_ring (mstate (conn b)) (mstate (conn b'))" "delivered (conn b') = delivered (conn b)"
    "remote_app (conn b') = remote_app (conn b)"
    using apply_diff_result(1,2,3) [OF a]
    by (auto simp: b' b0_def frame same_ring_def set_use_big_job_def set_initialized_def)
qed

lemma stats_frame [frame]:
  "conn (start_client_vardiff t b) = conn b" "conn (snd (set_client_vardiff t d b)) = conn b"
  by (simp_all add: start_client_vardiff_def set_client_vardiff_def frame split: option.splits)

text \<open>
  Following the worker's difficulty either changes nothing that the miner sees, or sends the new
  difficulty; the stored jobs keep the difficulty they were stored with.
\<close>

lemma follow_vardiff_result:
  assumes "follow_vardiff je iid b = (True, b')"
  shows "same_ring (mstate (conn b)) (mstate (conn b'))" and "remote_app (conn b') = remote_app (conn b)"
    and "delivered (conn b') = delivered (conn b) \<and> stratum_diff (mstate (conn b')) = stratum_diff (mstate (conn b))
      \<or> (\<exists>k'. stratum_diff (mstate (conn b')) = Some k'
          \<and> delivered (conn b') = delivered (conn b) @ [Event (set_difficulty_event (difficulty_to_json (diff_value k')))])"
proof -
  have "same_ring (mstate (conn b)) (mstate (conn b')) \<and> remote_app (conn b') = remote_app (conn b)
    \<and> (delivered (conn b') = delivered (conn b) \<and> stratum_diff (mstate (conn b')) = stratum_diff (mstate (conn b))
      \<or> (\<exists>k'. stratum_diff (mstate (conn b')) = Some k'
          \<and> delivered (conn b') = delivered (conn b) @ [Event (set_difficulty_event (difficulty_to_json (diff_value k')))]))"
  proof (cases "stratum_diff (mstate (conn b))")
    case None
    then show ?thesis using assms by (simp add: follow_vardiff_def)
  next
    case (Some k)
    obtain d b0 where v: "(if fle (get_client_vardiff b) (Fin 0) \<and> flt (Fin 0) (diff_value k)
         then (diff_value k, start_client_vardiff (je_time je) (snd (set_client_vardiff (je_time je) (diff_value k) b)))
         else (get_client_vardiff b, b)) = (d, b0)" by fastforce
    then have c0: "conn b0 = conn b" by (auto simp: frame split: if_splits)
    show ?thesis
    proof (cases "feq d (diff_value k)")
      case True
      then have "b' = b0" using assms v Some by (simp add: follow_vardiff_def)
      then show ?thesis by (simp add: c0)
    next
      case False
      obtain r b1 where a: "apply_diff (je_target je) k d (remote_app (conn b0)) b0 = (r, b1)" by fastforce
      obtain s b2 where w: "send_client_diff iid d (show_difficulty iid (remote_app (conn b0)) d b1) = (s, b2)" by fastforce
      have r and s and b': "b' = start_client_vardiff (je_time je) b2"
        using assms v Some False a w by (auto simp: follow_vardiff_def split: if_splits)
      then show ?thesis
        using apply_diff_result [OF a] send_diff_sent [of iid d _ b2] w by (auto simp: c0 frame)
    qed
  qed
  then show "same_ring (mstate (conn b)) (mstate (conn b'))" and "remote_app (conn b') = remote_app (conn b)"
    and "delivered (conn b') = delivered (conn b) \<and> stratum_diff (mstate (conn b')) = stratum_diff (mstate (conn b))
      \<or> (\<exists>k'. stratum_diff (mstate (conn b')) = Some k'
          \<and> delivered (conn b') = delivered (conn b) @ [Event (set_difficulty_event (difficulty_to_json (diff_value k')))])"
    by blast+
qed

text \<open>
  The miner has been told about the job: after at most one difficulty frame, the last frame that
  went out announces a job, and the id in it leads back to exactly that block and its hash.
\<close>

definition announces :: "(u8 list \<Rightarrow> hash) \<Rightarrow> 'tx block \<Rightarrow> 'tx bridge \<Rightarrow> 'tx bridge \<Rightarrow> bool" where
  "announces H block b b' \<longleftrightarrow>
     (\<exists>minimal jid ps fs. delivered (conn b') = delivered (conn b) @ fs @ [notify_frame minimal jid ps]
        \<and> length fs \<le> 1 \<and> list_all is_difficulty fs
        \<and> job_params (use_big_job (mstate (conn b'))) (remote_app (conn b)) jid (H (header_preimage (block_header block)))
            (hdr_timestamp (block_header block)) = Some ps
        \<and> get_job (mstate (conn b')) jid
            = Some \<lparr>job_block = block, pre_pow_hash = H (header_preimage (block_header block))\<rparr>)"

lemma announces_after:
  assumes pub: "publish_job t iid wallet (remote_app (conn b)) minimal jid h (hdr_timestamp (block_header block)) b2 = (True, b')"
    and st: "store_job H iid wallet block b0 = (Some (jid, h), b1)"
    and b0: "delivered (conn b0) = delivered (conn b)"
    and ring: "same_ring (mstate (conn b1)) (mstate (conn b2))"
    and fs: "delivered (conn b2) = delivered (conn b1) @ fs" "length fs \<le> 1" "list_all is_difficulty fs"
  shows "announces H block b b'"
proof -
  obtain ps where ps: "job_params (use_big_job (mstate (conn b2))) (remote_app (conn b)) jid h (hdr_timestamp (block_header block)) = Some ps"
    "delivered (conn b') = delivered (conn b2) @ [notify_frame minimal jid ps]" "mstate (conn b') = mstate (conn b2)"
    using publish_job_sent [OF pub] by blast
  then show ?thesis
    using store_job_stored(1,2,4) [OF st] same_ring_get [OF ring, of jid] fs b0 unfolding announces_def
    by (intro exI [of _ minimal] exI [of _ jid] exI [of _ ps] exI [of _ fs]) simp
qed

lemma is_difficulty_event [simp]: "is_difficulty (Event (set_difficulty_event (difficulty_to_json d)))"
  by (auto simp: is_difficulty_def)

lemma immediate_announces:
  assumes "immediate_job_publish H je iid wallet (remote_app (conn b)) d block b = (True, b')"
  shows "announces H block b b'"
proof -
  define b0 where "b0 = upd_ms (set_last_header (block_header block)) b"
  obtain stored b1 where s: "store_job H iid wallet block b0 = (stored, b1)" by fastforce
  then have "stored \<noteq> None" using assms by (cases stored) (simp_all add: immediate_job_publish_def b0_def)
  then obtain jid h where st: "store_job H iid wallet block b0 = (Some (jid, h), b1)" using s by auto
  define go where "go = (if initialized (mstate (conn b1)) then (True, b1)
     else init_mining_state (je_target je) iid (remote_app (conn b)) d b1)"
  define cur where "cur = (case stratum_diff (mstate (conn (snd go))) of Some k \<Rightarrow> diff_value k | None \<Rightarrow> d)"
  define sent where "sent = send_client_diff iid cur (show_difficulty iid (remote_app (conn b)) cur (snd go))"
  have "fst go" "fst sent" and pub: "publish_job (je_time je) iid wallet (remote_app (conn b)) (is_iceriver (remote_app (conn b))) jid h
      (hdr_timestamp (block_header block)) (snd sent) = (True, b')"
    using assms st unfolding immediate_job_publish_def Let_def b0_def [symmetric] split_beta
    by (simp_all add: go_def cur_def sent_def split: if_splits)
  have ring: "same_ring (mstate (conn b1)) (mstate (conn (snd go)))" "delivered (conn (snd go)) = delivered (conn b1)"
    using \<open>fst go\<close> init_mining_state_result(1,2) [of "je_target je" iid "remote_app (conn b)" d b1 "snd go"]
    unfolding go_def by (auto simp: prod_eq_iff split: if_splits)
  note w = send_diff_sent [of iid cur "show_difficulty iid (remote_app (conn b)) cur (snd go)" "snd sent"]
  have "send_client_diff iid cur (show_difficulty iid (remote_app (conn b)) cur (snd go)) = (True, snd sent)"
    using \<open>fst sent\<close> by (simp add: sent_def prod_eq_iff)
  from w [OF this] ring show ?thesis
    by (intro announces_after [OF pub st, where fs = "[Event (set_difficulty_event (difficulty_to_json cur))]"])
       (simp_all add: b0_def frame)
qed


lemma first_or_follow_result:
  assumes "first_or_follow je iid app d b = (True, b')"
  shows "same_ring (mstate (conn b)) (mstate (conn b')) \<and> remote_app (conn b') = remote_app (conn b)
    \<and> (\<exists>fs. delivered (conn b') = delivered (conn b) @ fs \<and> length fs \<le> 1 \<and> list_all is_difficulty fs)"
proof (cases "initialized (mstate (conn b))")
  case True
  then have f: "follow_vardiff je iid b = (True, b')" using assms by (simp add: first_or_follow_def)
  have "\<exists>fs. delivered (conn b') = delivered (conn b) @ fs \<and> length fs \<le> 1 \<and> list_all is_difficulty fs"
    using follow_vardiff_result(3) [OF f] by (auto intro: exI [of _ "[]"])
  then show ?thesis using follow_vardiff_result(1,2) [OF f] by blast
next
  case False
  define b0 where "b0 = upd_ms (set_use_big_job (BIG_JOB_REGEX app)) (upd_ms (set_initialized True) b)"
  obtain r b1 where a: "apply_diff (je_target je) kaspa_diff_new d (remote_app (conn b0)) b0 = (r, b1)" by fastforce
  have w: "send_client_diff iid d (show_difficulty iid (remote_app (conn b1)) d b1) = (True, b')"
    using assms False a by (auto simp: first_or_follow_def b0_def split: if_splits prod.splits)
  show ?thesis
    using apply_diff_result(1,2,3) [OF a] send_diff_sent [OF w]
    by (auto simp: b0_def frame same_ring_def set_use_big_job_def set_initialized_def)
qed

text \<open>What the regular path does with a template.\<close>

lemma new_block_publish_steps:
  assumes "new_block_publish H h je wallet app block b = (True, b')"
  obtains jid hash b1 d b2 b3 where "store_job H (ch_instance_id h) wallet block b = (Some (jid, hash), b1)"
    and "register_client_vardiff (je_time je) (seed_for_port h (local_port (conn b1))) b1 = (d, b2)"
    and "first_or_follow je (ch_instance_id h) app d b2 = (True, b3)"
    and "publish_job (je_time je) (ch_instance_id h) wallet (remote_app (conn b)) (contains ''IceRiver'' (remote_app (conn b)))
      jid hash (hdr_timestamp (block_header block)) b3 = (True, b')"
proof -
  obtain stored b1 where s: "store_job H (ch_instance_id h) wallet block b = (stored, b1)" by fastforce
  then have "stored \<noteq> None" using assms by (cases stored) (simp_all add: new_block_publish_def)
  then obtain jid hash where st: "store_job H (ch_instance_id h) wallet block b = (Some (jid, hash), b1)" using s by auto
  define reg where "reg = register_client_vardiff (je_time je) (seed_for_port h (local_port (conn b1))) b1"
  define go where "go = first_or_follow je (ch_instance_id h) app (fst reg) (snd reg)"
  have g: "first_or_follow je (ch_instance_id h) app (fst reg) (snd reg) = (True, snd go)"
    and pub: "publish_job (je_time je) (ch_instance_id h) wallet (remote_app (conn (snd go)))
      (contains ''IceRiver'' (remote_app (conn (snd go)))) jid hash (hdr_timestamp (block_header block)) (snd go) = (True, b')"
    using assms st unfolding new_block_publish_def Let_def split_beta
    by (simp_all add: reg_def [symmetric] go_def [symmetric] prod_eq_iff split: if_splits)
  have "remote_app (conn (snd go)) = remote_app (conn b)"
    using first_or_follow_result [OF g] store_job_stored(7) [OF st] by (simp add: reg_def frame)
  then show thesis using that [OF st _ g] pub by (simp add: reg_def)
qed

lemma new_block_announces:
  assumes "new_block_publish H h je wallet app block b = (True, b')"
  shows "announces H block b b'"
  using assms
proof (rule new_block_publish_steps)
  fix jid hash b1 d b2 b3
  assume st: "store_job H (ch_instance_id h) wallet block b = (Some (jid, hash), b1)"
    and reg: "register_client_vardiff (je_time je) (seed_for_port h (local_port (conn b1))) b1 = (d, b2)"
    and g: "first_or_follow je (ch_instance_id h) app d b2 = (True, b3)"
    and pub: "publish_job (je_time je) (ch_instance_id h) wallet (remote_app (conn b)) (contains ''IceRiver'' (remote_app (conn b)))
      jid hash (hdr_timestamp (block_header block)) b3 = (True, b')"
  have c: "conn b2 = ensure_default_worker_name (conn b1)"
    using register_frame(2) [of "je_time je" "seed_for_port h (local_port (conn b1))" b1] by (simp add: reg)
  obtain fs where fs: "delivered (conn b3) = delivered (conn b1) @ fs" "length fs \<le> 1" "list_all is_difficulty fs"
    using first_or_follow_result [OF g] by (auto simp: c frame)
  show ?thesis
    using first_or_follow_result [OF g] fs by (intro announces_after [OF pub st]) (simp_all add: c frame)
qed

lemma parent_announces:
  assumes "parent_refresh_publish C H je iid expected busy parent b = (True, b')"
  shows "announces H parent b b'" and "\<exists>jid j. latest_job (mstate (conn b)) = Some (jid, j) \<and> committed_h_fc C (job_block j) = expected"
proof -
  define h where "h = H (header_preimage (block_header parent))"
  obtain i j jid ms where l: "latest_job (mstate (conn b)) = Some (i, j)" and e: "committed_h_fc C (job_block j) = expected"
    and a: "add_job \<lparr>job_block = parent, pre_pow_hash = h\<rparr> (mstate (conn b)) = Some (jid, ms)"
    using assms
    by (auto simp: parent_refresh_publish_def serialize_block_header_def h_def split: option.splits if_splits)
  obtain ps where ps: "job_params (use_big_job ms) (remote_app (conn b)) jid h (hdr_timestamp (block_header parent)) = Some ps"
    using assms l e a
    by (auto simp: parent_refresh_publish_def serialize_block_header_def h_def Let_def split: option.splits if_splits)
  define m where "m = is_iceriver (remote_app (conn b))"
  define s where "s = send_notify m jid ps ((conn b)\<lparr>mstate := ms\<rparr>)"
  have s: "fst s = Inr ()" and b': "delivered (conn b') = delivered (snd s)" "mstate (conn b') = mstate (snd s)"
    using assms l e a ps
    by (auto simp: parent_refresh_publish_def serialize_block_header_def h_def [symmetric] m_def [symmetric] s_def
        frame split_beta Let_def is_ok_unit split: if_splits)
  have "delivered (snd s) = delivered (conn b) @ [notify_frame m jid ps]" "mstate (snd s) = ms"
    using notify_delivered [of m jid ps "(conn b)\<lparr>mstate := ms\<rparr>"] s
    by (simp_all add: s_def frame notify_keeps)
  then show "announces H parent b b'"
    using add_job_lookup(1) [OF a] ps b' unfolding announces_def h_def
    by (intro exI [of _ m] exI [of _ jid] exI [of _ ps] exI [of _ "[]"]) simp
  show "\<exists>jid j. latest_job (mstate (conn b)) = Some (jid, j) \<and> committed_h_fc C (job_block j) = expected"
    using l e by blast
qed

section \<open>Properties\<close>

text \<open>
  C15: a miner only hears of jobs the bridge can judge.  Whichever way a job is sent, when sending
  has succeeded the miner got at most one difficulty frame and then the frame with the job, in the
  format of its type, and the job id in that frame leads to exactly the block of the job and the
  hash the miner works on.
\<close>

theorem announced_job_is_stored:
  assumes "immediate_job_publish H je iid wallet (remote_app (conn b)) d block b = (True, b')
    \<or> new_block_publish H h je wallet app block b = (True, b')
    \<or> parent_refresh_publish C H je iid expected False block b = (True, b')"
  shows "announces H block b b'"
  using assms by (auto intro: immediate_announces new_block_announces parent_announces(1))

text \<open>
  A new difficulty misses the job it is sent with.  When the regular path changes the
  difficulty of a miner, it sends the new difficulty and then the new job, but the job was stored
  before: its recorded difficulty, by which its shares are judged, is the old one.
\<close>

lemma retargeted_job_keeps_old_difficulty:
  assumes "new_block_publish H h je wallet app block b = (True, b')" and "initialized (mstate (conn b))"
    and "stratum_diff (mstate (conn b)) = Some k" and "stratum_diff (mstate (conn b')) = Some k'" and "k' \<noteq> k"
  shows "\<exists>minimal jid ps. delivered (conn b') = delivered (conn b)
      @ [Event (set_difficulty_event (difficulty_to_json (diff_value k'))), notify_frame minimal jid ps]
    \<and> get_job_diff (mstate (conn b')) jid = Some k"
  using assms(1)
proof (rule new_block_publish_steps)
  fix jid hash b1 d b2 b3
  assume st: "store_job H (ch_instance_id h) wallet block b = (Some (jid, hash), b1)"
    and reg: "register_client_vardiff (je_time je) (seed_for_port h (local_port (conn b1))) b1 = (d, b2)"
    and g: "first_or_follow je (ch_instance_id h) app d b2 = (True, b3)"
    and pub: "publish_job (je_time je) (ch_instance_id h) wallet (remote_app (conn b)) (contains ''IceRiver'' (remote_app (conn b)))
      jid hash (hdr_timestamp (block_header block)) b3 = (True, b')"
  have c: "conn b2 = ensure_default_worker_name (conn b1)"
    using register_frame(2) [of "je_time je" "seed_for_port h (local_port (conn b1))" b1] by (simp add: reg)
  have f: "follow_vardiff je (ch_instance_id h) b2 = (True, b3)"
    using g assms(2) store_job_stored(6) [OF st] by (simp add: first_or_follow_def c frame)
  obtain ps where ps: "delivered (conn b') = delivered (conn b3) @ [notify_frame (contains ''IceRiver'' (remote_app (conn b))) jid ps]"
    "mstate (conn b') = mstate (conn b3)" using publish_job_sent [OF pub] by blast
  have "stratum_diff (mstate (conn b3)) \<noteq> stratum_diff (mstate (conn b2))"
    using assms(3-5) ps(2) store_job_stored(5) [OF st] by (simp add: c frame)
  then have "delivered (conn b3) = delivered (conn b2) @ [Event (set_difficulty_event (difficulty_to_json (diff_value k')))]"
    using follow_vardiff_result(3) [OF f] assms(4) ps(2) by auto
  then show ?thesis
    using ps same_ring_get [OF follow_vardiff_result(1) [OF f], of jid] store_job_stored(3,4) [OF st] assms(3)
    by (intro exI [of _ "contains ''IceRiver'' (remote_app (conn b))"] exI [of _ jid] exI [of _ ps]) (simp add: c frame)
qed

text \<open>
  A parent refresh in the fee minute pays the miner.  The template of a lane was requested in
  its fee minute and is recorded as paid to the pool; the refresh of its parent nevertheless asks
  the parent node for a block that pays the miner.
\<close>

lemma refresh_pays_miner_after_fee_template:
  assumes "merged_mining (node b)" and "kaspa_client (node b)" and "committed_h_fc C (job_block old) = Some h_fc"
    and "is_unsolved (pending_fc (node b)) h_fc" and "merged_lane_paid_pool C (node b) (job_block old)"
    and "kas_payout (conn b) = Some miner" and "je_parent je = Inr parent"
  shows "fst (parent_refresh_fetch C je old b) = Some parent
    \<and> parent_requests (node (snd (parent_refresh_fetch C je old b))) = parent_requests (node b) @ [(miner, h_fc, parent)]"
  using assms
  by (auto simp: parent_refresh_fetch_def trait_merged_lane_paid_pool_def refresh_merged_parent_def
      fetch_kaspa_parent_def Let_def split: option.splits)

section \<open>Extranonces\<close>

text \<open>The extranonces that miners get who subscribe one after the other.\<close>

fun extranonces :: "(string \<Rightarrow> string option) \<Rightarrow> (string \<times> 'tx stratum_context) list \<Rightarrow> nat \<Rightarrow> string list" where
  "extranonces env [] counter = []"
| "extranonces env ((app, c) # rest) counter =
     (let (c', counter') = assign_extranonce_for_miner env app c counter
      in extranonce c' # extranonces env rest counter')"

lemma extranonces_eq:
  assumes "list_all (\<lambda>(app, c). is_bitmain app \<longrightarrow> bitmain_extranonce_enabled env) subs" and "counter < 65536"
  shows "extranonces env subs counter = map (\<lambda>i. radix_digits 16 4 ((counter + i) mod 65536)) [0..<length subs]"
  using assms
proof (induction env subs counter rule: extranonces.induct)
  case (2 env app c rest counter)
  let ?next = "if counter < 65535 then counter + 1 else 0"
  have "extranonces env rest ?next = map (\<lambda>i. radix_digits 16 4 ((?next + i) mod 65536)) [0..<length rest]"
    using 2 by (auto simp: assign_extranonce_for_miner_def)
  moreover have "(?next + i) mod 65536 = (counter + Suc i) mod 65536" for i
  proof (cases "counter < 65535")
    case False
    then have "counter + Suc i = i + 65536" using "2.prems"(2) by simp
    then show ?thesis using False by simp
  qed simp
  ultimately show ?case
    using "2.prems" by (auto simp: assign_extranonce_for_miner_def map_upt_Suc simp del: upt_Suc)
qed simp


text \<open>
  No two miners search the same nonces.  Of 65536 miners that subscribe one after the other,
  no two get the same extranonce, and each gets one of two bytes, provided that the switch for
  Bitmain extranonces has not been turned off.
\<close>

lemma extranonces_distinct:
  assumes "list_all (\<lambda>(app, c). is_bitmain app \<longrightarrow> bitmain_extranonce_enabled env) subs"
    and "counter < 65536" and "length subs \<le> 65536"
  shows "distinct (extranonces env subs counter) \<and> list_all (\<lambda>x. length x = 4) (extranonces env subs counter)"
proof -
  have "inj_on (\<lambda>i. radix_digits 16 4 ((counter + i) mod 65536)) {0..<length subs}"
  proof (rule inj_onI)
    fix i j
    assume ij: "i \<in> {0..<length subs}" "j \<in> {0..<length subs}"
      and eq: "radix_digits 16 4 ((counter + i) mod 65536) = radix_digits 16 4 ((counter + j) mod 65536)"
    from arg_cong [OF eq, of "digits_val 16 0"] have "(counter + i) mod 65536 = (counter + j) mod 65536"
      by (simp add: digits_val_radix_digits)
    moreover have "(counter + k) mod 65536 = (if counter + k < 65536 then counter + k else counter + k - 65536)"
      if "k < 65536" for k using that assms(2) by (simp add: mod_if)
    ultimately show "i = j" using ij assms(3) by (simp split: if_splits)
  qed
  then show ?thesis using assms by (simp add: extranonces_eq distinct_map list_all_iff)
qed

definition demo_miner :: "nat stratum_context" where
  "demo_miner = ctx_new ''10.0.0.1'' 4000 5555 (ms_new 0) 7 []"

lemma extranonces_distinct_witness:
  "distinct (extranonces (\<lambda>_. None) [(''GodMiner/2.0.0'', demo_miner), (''IceRiver'', demo_miner)] 65535)"
  using extranonces_distinct [of "\<lambda>_. None" "[(''GodMiner/2.0.0'', demo_miner), (''IceRiver'', demo_miner)]" 65535]
  by (simp add: bitmain_extranonce_enabled_def)

section \<open>Concrete runs\<close>

text \<open>A ZKAS template that was cut in the fee minute, and its Kaspa carrier.\<close>

definition demo_commit :: "nat consensus" where
  "demo_commit = demo_consensus\<lparr>committed_hash := (\<lambda>a. Some (replicate 32 7))\<rparr>"

definition demo_lane :: "nat bridge" where
  "demo_lane = \<lparr>handler = share_handler_new ''i1'' 0,
     conn = demo_miner\<lparr>wallet_addr := ''zkas:w'', kas_payout := Some (Address ''kaspa:m'')\<rparr>,
     node = demo_merged_api\<lparr>pending_fc := insert_with_payee (replicate 32 7) plain_block True (pending_new 4)\<rparr>,
     metrics = \<lparr>registered = True, calls = [], last_activity = [], gauge_get = (\<lambda>cs m ls. Fin 0)\<rparr>\<rparr>"

definition demo_je :: "nat job_env" where
  "demo_je = \<lparr>je_time = \<lparr>mono = 5, wall = 5\<rparr>, je_parent = Inr plain_block, je_replies = [],
     je_target = \<lparr>use_alternative = False, use_stratum_alt = True\<rparr>\<rparr>"

definition demo_old_job :: "nat job" where
  "demo_old_job = \<lparr>job_block = plain_block, pre_pow_hash = []\<rparr>"

lemma refresh_pays_miner_after_fee_template_witness:
  "parent_requests (node (snd (parent_refresh_fetch demo_commit demo_je demo_old_job demo_lane)))
     = [(Address ''kaspa:m'', replicate 32 7, plain_block)]"
proof -
  have c: "committed_h_fc demo_commit (job_block demo_old_job) = Some (replicate 32 7)"
    by (simp add: demo_commit_def demo_old_job_def committed_h_fc_def plain_block_def)
  have "is_unsolved (pending_fc (node demo_lane)) (replicate 32 7)"
    "merged_lane_paid_pool demo_commit (node demo_lane) (job_block demo_old_job)"
    unfolding merged_lane_paid_pool_def c
    by (simp_all add: demo_lane_def is_unsolved_def insert_with_payee_def pending_new_def paid_pool_def evict.simps hm_has_def Let_def)
  from refresh_pays_miner_after_fee_template [OF _ _ c this, of "Address ''kaspa:m''" demo_je plain_block]
  show ?thesis by (simp add: demo_lane_def demo_merged_api_def demo_api_def demo_je_def)
qed


text \<open>A worker whose difficulty was lowered from 8192 to 128 while its connection stands.\<close>

definition demo_ready :: "nat stratum_context" where
  "demo_ready = demo_miner\<lparr>wallet_addr := ''zkas:w'', worker_name := ''rig'', worker_name_supplied := True,
     remote_app := ''IceRiver'',
     mstate := set_initialized True (set_stratum_diff (kaspa_diff_new\<lparr>diff_value := Fin 8192\<rparr>) (ms_new 0))\<rparr>"

definition demo_slow :: "nat bridge" where
  "demo_slow = demo_lane\<lparr>conn := demo_ready,
     handler := (share_handler_new ''i1'' 0)\<lparr>stats := [(stats_key demo_ready, 0)], next_stats := 1,
       stats_heap := (\<lambda>_. (work_stats_new ''rig'' 0)\<lparr>min_diff := Fin 128\<rparr>)\<rparr>\<rparr>"

definition demo_ch :: client_handler where
  "demo_ch = client_handler_new (Fin 8192) [] 2 ''i1'' 0"

definition demo_sent :: "bool \<times> nat bridge" where
  "demo_sent = new_block_publish (\<lambda>b. replicate 32 9) demo_ch demo_je ''zkas:w'' ''IceRiver'' plain_block demo_slow"

lemma named: "trim (StratumContext.worker_name c) \<noteq> [] \<Longrightarrow> ensure_default_worker_name c = c"
  by (simp add: ensure_default_worker_name_def)

lemma stats_key_updates [simp]:
  "stats_key (c\<lparr>mstate := m\<rparr>) = stats_key c" "stats_key (c\<lparr>wire := w\<rparr>) = stats_key c"
  by (simp_all add: stats_key_def vardiff_worker_identity_def)

lemma demo_standard: "diff_to_target_standard (Fin 128) = Some (max_target div 128)"
  using diff_to_target_standard_pow2 [of 7] by simp

lemma demo_apps: "contains ''IceRiver'' ''IceRiver''" "is_iceriver ''IceRiver''" "trim ''rig'' \<noteq> []"
  by code_simp+

lemma demo_fields: "remote_app demo_ready = ''IceRiver''" "wallet_addr demo_ready = ''zkas:w''"
  "StratumContext.worker_name demo_ready = ''rig''" "disconnecting demo_ready = False" "socket demo_ready = []"
  "write_half demo_ready" "initialized (mstate demo_ready)"
  "stratum_diff (mstate demo_ready) = Some (kaspa_diff_new\<lparr>diff_value := Fin 8192\<rparr>)" "job_counter (mstate demo_ready) = 0"
  by (simp_all add: demo_ready_def demo_miner_def ctx_new_def set_initialized_def set_stratum_diff_def ms_new_def)

lemma demo_retargeted:
  "fst demo_sent \<and> (\<exists>k'. stratum_diff (mstate (conn (snd demo_sent))) = Some k' \<and> diff_value k' = Fin 128)"
proof -
  define hd1 where "hd1 = (share_handler_new ''i1'' 0)\<lparr>stats := [(stats_key demo_ready, 0)], next_stats := 1,
       stats_heap := (\<lambda>_. (work_stats_new ''rig'' 0)\<lparr>min_diff := Fin 128\<rparr>)\<rparr>"
  have hd1: "stats hd1 = [(stats_key demo_ready, 0)]" "min_diff (stats_heap hd1 0) = Fin 128"
    by (simp_all add: hd1_def)
  have "conn demo_slow = demo_ready" "handler demo_slow = hd1" by (simp_all add: demo_slow_def hd1_def)
  note c = this
  obtain ms where a: "add_job \<lparr>job_block = plain_block, pre_pow_hash = replicate 32 9\<rparr>
      (set_big_diff (calculate_target (ucast (bits (block_header plain_block)))) (mstate demo_ready)) = Some (1, ms)"
    by (simp add: add_job_def set_big_diff_def demo_fields Let_def)
  have ms: "stratum_diff ms = Some (kaspa_diff_new\<lparr>diff_value := Fin 8192\<rparr>)" "initialized ms"
    using add_job_lookup [OF a] by (simp_all add: set_big_diff_def demo_fields)
  define b1 where "b1 = demo_slow\<lparr>conn := demo_ready\<lparr>mstate := ms\<rparr>\<rparr>"
  have st: "store_job (\<lambda>b. replicate 32 9) ''i1'' ''zkas:w'' plain_block demo_slow = (Some (1, replicate 32 9), b1)"
    using a by (simp add: b1_def store_job_def serialize_block_header_def c Let_def)
  define seed where "seed = seed_for_port demo_ch (local_port (conn b1))"
  define b2 where "b2 = snd (register_client_vardiff (je_time demo_je) seed b1)"
  have name: "ensure_default_worker_name (conn b1) = conn b1"
    by (rule named) (simp add: b1_def demo_fields demo_apps)
  have r: "register_client_vardiff (je_time demo_je) seed b1 = (Fin 128, b2)"
    and b2: "conn b2 = demo_ready\<lparr>mstate := ms\<rparr>" "min_diff (stats_heap (handler b2) 0) = Fin 128"
      "stats (handler b2) = [(stats_key demo_ready, 0)]"
    using name unfolding b2_def
    by (simp_all add: b1_def c hd1 register_client_vardiff_def get_create_stats_def effective_worker_name_def frame
        conn_sync upd_stats_def flt_def is_finite_def VARDIFF_MIN_DIFF_def Let_def)
  define k' where "k' = \<lparr>hash_value = diff_to_hash (Fin 128), diff_value = Fin 128,
      target_value = stratum_difficulty_to_target_kaspa 128\<rparr>"
  have k': "set_diff_value_for_miner (je_target demo_je) (kaspa_diff_new\<lparr>diff_value := Fin 8192\<rparr>) (Fin 128) ''IceRiver'' = Some k'"
    by (simp add: set_diff_value_for_miner_def demo_je_def diff_to_target_def demo_standard k'_def to_uint_def)
  define b3 where "b3 = snd (first_or_follow demo_je ''i1'' ''IceRiver'' (Fin 128) b2)"
  have name2: "ensure_default_worker_name (demo_ready\<lparr>mstate := m\<rparr>) = demo_ready\<lparr>mstate := m\<rparr>" for m
    by (rule named) (simp add: demo_fields demo_apps)
  have f: "first_or_follow demo_je ''i1'' ''IceRiver'' (Fin 128) b2 = (True, b3)"
    and b3: "stratum_diff (mstate (conn b3)) = Some k'" "remote_app (conn b3) = ''IceRiver''" "disconnecting (conn b3) = False"
      "socket (conn b3) = []" "write_half (conn b3)"
    using ms k' unfolding b3_def
    by (simp_all add: first_or_follow_def follow_vardiff_def b2 get_client_vardiff_def get_stats_if_exists_def demo_fields
        apply_diff_def frame name2 send_client_diff_def send_on_def ctx_send_def write_data_def numeral_3_eq_3
        next_attempt_def put_def flt_def start_client_vardiff_def upd_stats_def set_stratum_diff_def Let_def split: option.splits)
  define stamp where "stamp = hdr_timestamp (block_header plain_block)"
  define b4 where "b4 = snd (publish_job (je_time demo_je) ''i1'' ''zkas:w'' ''IceRiver'' True 1 (replicate 32 9) stamp b3)"
  have pub: "publish_job (je_time demo_je) ''i1'' ''zkas:w'' ''IceRiver'' True 1 (replicate 32 9) stamp b3 = (True, b4)"
    and b4: "stratum_diff (mstate (conn b4)) = Some k'"
    unfolding b4_def
    by (simp_all add: publish_job_def job_params_def demo_apps b3 send_on_def send_notify_def send_notification_def
        write_data_def numeral_3_eq_3 next_attempt_def put_def frame split_beta Let_def)
  have "ch_instance_id demo_ch = ''i1''"
    by (simp add: demo_ch_def client_handler_new_def new_with_protocol_def)
  then have sent: "demo_sent = (True, b4)"
    using pub by (simp add: demo_sent_def new_block_publish_def st seed_def [symmetric] r f b3(2) demo_apps stamp_def
        del: contains.simps)
  show ?thesis by (simp add: sent b4) (simp add: k'_def)
qed

lemma retargeted_job_keeps_old_difficulty_witness:
  "\<exists>minimal jid ps. delivered (conn (snd demo_sent)) = delivered demo_ready
      @ [Event (set_difficulty_event (difficulty_to_json (Fin 128))), notify_frame minimal jid ps]
    \<and> get_job_diff (mstate (conn (snd demo_sent))) jid = Some (kaspa_diff_new\<lparr>diff_value := Fin 8192\<rparr>)"
proof -
  have r: "new_block_publish (\<lambda>b. replicate 32 9) demo_ch demo_je ''zkas:w'' ''IceRiver'' plain_block demo_slow
      = (True, snd demo_sent)"
    using demo_retargeted by (simp add: demo_sent_def prod_eq_iff)
  obtain k' where k': "stratum_diff (mstate (conn (snd demo_sent))) = Some k'" "diff_value k' = Fin 128"
    using demo_retargeted by blast
  have c: "conn demo_slow = demo_ready" by (simp add: demo_slow_def)
  have "k' \<noteq> kaspa_diff_new\<lparr>diff_value := Fin 8192\<rparr>" using k'(2) by auto
  from retargeted_job_keeps_old_difficulty [OF r _ _ k'(1) this] show ?thesis
    by (simp add: c demo_fields k'(2))
qed

lemma announced_job_is_stored_witness: "announces (\<lambda>b. replicate 32 9) plain_block demo_slow (snd demo_sent)"
  using demo_retargeted
  by (intro announced_job_is_stored [of "\<lambda>b. replicate 32 9" _ _ _ _ _ _ _ demo_ch]) (auto simp: demo_sent_def prod_eq_iff)

end
