(* ===== verification/Handshake.thy ===== *)
theory Handshake
  imports DefaultClient ClientJobs
begin

text \<open>
  What the handshake of \<^verbatim>\<open>default_client.rs\<close> achieves: which miners are told their extranonce,
  that no login is refused, and what becomes of a miner with a mistyped address.
\<close>

section \<open>What the helpers leave alone\<close>


text \<open>A connection up to its identity flags: the same wire, miner type and extranonce.\<close>

definition same_wire :: "'tx stratum_context \<Rightarrow> 'tx stratum_context \<Rightarrow> bool" where
  "same_wire c c' \<longleftrightarrow> wire c' = wire c \<and> remote_app c' = remote_app c \<and> extranonce c' = extranonce c
     \<and> disconnecting c' = disconnecting c \<and> socket c' = socket c \<and> write_half c' = write_half c"

lemma same_wire_refl [simp]: "same_wire c c"
  by (simp add: same_wire_def)

lemma same_wire_trans: "same_wire a b \<Longrightarrow> same_wire b c \<Longrightarrow> same_wire a c"
  by (simp add: same_wire_def)

lemma same_wire_steps [simp]:
  "same_wire c (ensure_default_worker_name c)" "same_wire c (c\<lparr>wallet_addr := w\<rparr>)" "same_wire c (c\<lparr>canxium_addr := w\<rparr>)"
  "same_wire c (c\<lparr>kas_payout := k\<rparr>)" "same_wire c (c\<lparr>mstate := m\<rparr>)" "same_wire c (c\<lparr>session_opened := s\<rparr>)"
  "same_wire c (c\<lparr>vardiff_registered := s\<rparr>)" "same_wire c (mark_authorized t c)"
  "same_wire c (set_authorized_worker_name w c)"
  by (simp_all add: same_wire_def ensure_default_worker_name_def set_authorized_worker_name_def mark_authorized_def)

lemma same_wire_activate: "same_wire (conn b) (conn (activate_client_vardiff t b))"
  by (simp add: activate_client_vardiff_def claim_vardiff_registration_def split_beta Let_def frame same_wire_def
      ensure_default_worker_name_def)

lemma same_wire_deactivate: "same_wire (conn b) (conn (deactivate_client_vardiff t b))"
  by (simp add: deactivate_client_vardiff_def release_vardiff_registration_def split_beta Let_def frame same_wire_def
      split: option.splits)

lemma same_wire_identity: "same_wire (conn b) (conn (snd (set_identity t h address worker b)))"
proof -
  define b1 where "b1 = (if h = None then b else prepare_worker_identity_change t b)"
  define b2 where "b2 = b1\<lparr>conn := ensure_default_worker_name (set_authorized_worker_name worker ((conn b1)\<lparr>wallet_addr := address\<rparr>))\<rparr>"
  have "same_wire (conn b) (conn b1)"
    by (simp add: b1_def prepare_worker_identity_change_def same_wire_deactivate)
  moreover have "same_wire (conn b1) (conn b2)" by (simp add: b2_def) (metis same_wire_steps(1,2,9) same_wire_trans)
  moreover have "snd (set_identity t h address worker b) = (if h = None then b2 else sync_worker_prom_metrics t b2)"
    by (simp add: set_identity_def b1_def b2_def effective_worker_name_def Let_def)
  moreover have "same_wire (conn b2) (conn (sync_worker_prom_metrics t b2))"
    by (simp add: sync_worker_prom_metrics_def same_wire_activate)
  ultimately show ?thesis by (metis same_wire_trans)
qed

lemma same_wire_login: "conn (snd (login_wallet C env h address b)) = conn b"
  by (simp add: login_wallet_def split: sum.splits)

lemma same_wire_open: "same_wire (conn b) (conn (open_session cid h address name b))"
  by (simp add: open_session_def claim_session_open_def Let_def)

section \<open>Sending\<close>

lemma reply_on_sent:
  assumes "reply_on what ev v b = (Inr u, b')"
  shows "delivered (conn b') = delivered (conn b) @ [Response (response_new ev (Some v) None)]"
    "remote_app (conn b') = remote_app (conn b)" "extranonce (conn b') = extranonce (conn b)"
  using assms
  by (auto simp: reply_on_def frame split_beta Let_def is_ok_unit rep.delivered rep.keeps split: if_splits)

text \<open>A frame that tells the miner its extranonce.\<close>

fun tells_extranonce :: "string \<Rightarrow> frame \<Rightarrow> bool" where
  "tells_extranonce x (Response resp) = (case result resp of Some (JArr (JNull # JStr y # _)) \<Rightarrow> y = x | _ \<Rightarrow> False)"
| "tells_extranonce x (Event ev) = (ev_method ev = ''mining.set_extranonce'' \<and> take 1 (params ev) = [JStr x])"
| "tells_extranonce x (Notification m ps) = (m = ''mining.set_extranonce'' \<and> take 1 ps = [JStr x])"
| "tells_extranonce x (V1Notification m ps) = (m = ''set_extranonce'' \<and> take 1 ps = [JStr x])"

lemmas notification_delivered = notif.delivered [where m = "(m, ps)" for m ps, simplified]
lemmas notification_keeps = notif.keeps [where m = "(m, ps)" for m ps, simplified]
lemmas v1_delivered = v1.delivered [where m = "(m, ps)" for m ps, simplified]
lemmas v1_keeps = v1.keeps [where m = "(m, ps)" for m ps, simplified]

lemma send_extranonce_sent:
  assumes "send_extranonce b = (Inr u, b')"
  shows "\<exists>f. delivered (conn b') = delivered (conn b) @ [f] \<and> tells_extranonce (extranonce (conn b)) f"
    "remote_app (conn b') = remote_app (conn b)" "extranonce (conn b') = extranonce (conn b)"
  using assms
  by (auto simp: send_extranonce_def frame split_beta Let_def is_ok_unit snd_ev.delivered snd_ev.keeps event_new_def
      notification_delivered notification_keeps
      split: if_splits option.splits)


lemma subscribe_sent:
  assumes "handle_subscribe env (Some h) ev b counter = (Inr u, b', n)" and "\<not> kaspa_common_protocol h"
  defines "app \<equiv> remote_app (conn b')" and "x \<equiv> extranonce (conn b')"
  shows "\<exists>v fs. subscribe_result app x = Some v
    \<and> delivered (conn b') = delivered (conn b) @ Response (response_new ev (Some v) None) # fs
    \<and> (if contains ''iceriver'' (to_lower app) \<and> x \<noteq> [] then \<exists>f. fs = [f] \<and> tells_extranonce x f else fs = [])"
proof -
  define b0 where "b0 = fst (assign_on env (Some h) (upd_conn (set_app ev) b) counter)"
  have w: "delivered (conn b0) = delivered (conn b)"
    by (simp add: b0_def assign_on_def assign_extranonce_for_miner_def set_app_def delivered_def Let_def
        split: list.splits json.splits)
  let ?app = "remote_app (conn b0)" and ?x = "extranonce (conn b0)"
  obtain v where v: "subscribe_result ?app ?x = Some v"
    using assms(1) by (cases "subscribe_result ?app ?x") (simp_all add: handle_subscribe_def split_beta Let_def b0_def)
  obtain r b1 where r: "reply_on ''subscribe'' ev v b0 = (r, b1)" by fastforce
  have "is_ok r" using assms(1) v r
    by (cases r) (simp_all add: handle_subscribe_def split_beta Let_def b0_def)
  then obtain u' where r': "reply_on ''subscribe'' ev v b0 = (Inr u', b1)" using r by (cases r) auto
  note sent = reply_on_sent [OF r']
  show ?thesis
  proof (cases "contains ''iceriver'' (to_lower ?app) \<and> ?x \<noteq> []")
    case True
    then have x: "send_extranonce b1 = (Inr u, b')"
      using assms(1,2) v r' by (auto simp: handle_subscribe_def split_beta Let_def b0_def [symmetric] prod_eq_iff split: if_splits)
    show ?thesis using True send_extranonce_sent [OF x] sent v w by (auto simp: app_def x_def)
  next
    case False
    then have "b' = b1"
      using assms(1,2) v r' by (auto simp: handle_subscribe_def split_beta Let_def b0_def [symmetric] split: if_splits)
    then show ?thesis using False sent v w by (auto simp: app_def x_def)
  qed
qed

lemma immediate_start_wire:
  "delivered (conn (snd (immediate_job_start h je b))) = delivered (conn b)"
  "extranonce (conn (snd (immediate_job_start h je b))) = extranonce (conn b)"
proof -
  obtain d b1 where r: "register_client_vardiff (je_time je) (seed_for_port h (local_port (conn b))) b = (d, b1)" by fastforce
  have c: "conn b1 = ensure_default_worker_name (conn b)"
    using register_frame(2) [of "je_time je" "seed_for_port h (local_port (conn b))" b] by (simp add: r)
  obtain ok' b2 where a: "apply_diff (je_target je) kaspa_diff_new d (remote_app (conn b1)) b1 = (ok', b2)" by fastforce
  have "extranonce (conn b2) = extranonce (conn b1)"
    using a by (auto simp: apply_diff_def split: option.splits)
  then show "delivered (conn (snd (immediate_job_start h je b))) = delivered (conn b)"
    "extranonce (conn (snd (immediate_job_start h je b))) = extranonce (conn b)"
    using apply_diff_result(2) [OF a] a by (auto simp: immediate_job_start_def r c frame)
qed

lemma same_wire_authorize: "same_wire (conn b) (conn (authorize_identity C env t cid h login password b))"
proof -
  obtain addr0 worker canx where sl: "split_login login = (addr0, worker, canx)" by (metis prod.exhaust)
  obtain addr b1 where lw: "login_wallet C env h addr0 b = (addr, b1)" by fastforce
  obtain name b2 where si: "set_identity t h addr worker b1 = (name, b2)" by fastforce
  define b3 where "b3 = (if canx = [] then b2 else upd_conn (\<lambda>c. c\<lparr>canxium_addr := canx\<rparr>) b2)"
  define b4 where "b4 = upd_conn (\<lambda>c. c\<lparr>kas_payout := parse_kas_payout C password\<rparr>) b3"
  have "same_wire (conn b) (conn b2)"
    using same_wire_identity [of b1 t h addr worker] same_wire_login [of C env h addr0 b]
    by (simp add: si lw)
  moreover have "same_wire (conn b2) (conn b4)" by (simp add: b3_def b4_def same_wire_def)
  moreover have "same_wire (conn b4) (conn (open_session cid h addr name b4))" by (rule same_wire_open)
  moreover have "authorize_identity C env t cid h login password b = open_session cid h addr name b4"
    by (simp add: authorize_identity_def sl lw si b3_def b4_def Let_def)
  ultimately show ?thesis by (metis same_wire_trans)
qed

lemma authorize_sent:
  assumes "handle_authorize C env je cid (Some h) api ev b = (Inr d, b')" and "\<not> kaspa_common_protocol h"
  defines "app \<equiv> remote_app (conn b)" and "x \<equiv> extranonce (conn b)"
  shows "\<exists>fs. delivered (conn b') = delivered (conn b) @ Response (response_new ev (Some (JBool True)) None) # fs
    \<and> (if x \<noteq> [] \<and> \<not> is_bitmain app \<and> \<not> is_iceriver app then \<exists>f. fs = [f] \<and> tells_extranonce x f else fs = [])"
proof -
  obtain p rest login where ps: "params ev = p # rest" "as_str p = Some login"
    using assms(1) by (auto simp: handle_authorize_def split: list.splits option.splits)
  define b4 where "b4 = authorize_identity C env (je_time je) cid (Some h) login (case rest of [] \<Rightarrow> None | q # _ \<Rightarrow> as_str q) b"
  have same: "same_wire (conn b) (conn b4)" unfolding b4_def by (rule same_wire_authorize)
  have step: "authorize_reply je (Some h) api ev b4 = (Inr d, b')"
    using assms(1) by (simp add: handle_authorize_def ps b4_def)
  from same have w: "delivered (conn b4) = delivered (conn b)" "remote_app (conn b4) = app" "extranonce (conn b4) = x"
    by (simp_all add: same_wire_def delivered_def app_def x_def)
  obtain r b5 where r: "reply_on ''authorize'' ev (JBool True) b4 = (r, b5)" by fastforce
  obtain u where u: "r = Inr u" using step unfolding authorize_reply_def by (cases r) (auto simp: r)
  note rs = reply_on_sent [OF r [unfolded u]]
  define b6 where "b6 = upd_conn (mark_authorized (mono (je_time je))) b5"
  have w6: "delivered (conn b6) = delivered (conn b) @ [Response (response_new ev (Some (JBool True)) None)]"
    "remote_app (conn b6) = app" "extranonce (conn b6) = x"
    using rs w by (simp_all add: b6_def mark_authorized_def delivered_def)
  obtain r2 b7 where r2: "(if x \<noteq> [] \<and> \<not> is_bitmain app \<and> \<not> is_iceriver app then send_extranonce b6 else (Inr (), b6)) = (r2, b7)"
    by fastforce
  have fin: "(case r2 of Inl e \<Rightarrow> (Inl e, b7) | Inr _ \<Rightarrow> start_immediate_job je (Some h) api b7) = (Inr d, b')"
    using step assms(2) r2 [unfolded b6_def] w6(2,3) by (simp add: authorize_reply_def r u Let_def b6_def)
  then obtain u2 where u2: "r2 = Inr u2" by (cases r2) auto
  have "delivered (conn b') = delivered (conn b7)"
    using fin immediate_start_wire(1) [of h je b7] by (auto simp: u2 start_immediate_job_def split_beta Let_def split: if_splits)
  then show ?thesis
    using r2 w6 send_extranonce_sent(1) [of b6 u2 b7] by (auto simp: u2 split: if_splits)
qed



definition demo_subscriber :: "nat bridge" where
  "demo_subscriber = \<lparr>handler = share_handler_new ''i1'' 0, conn = demo_miner, node = demo_api,
     metrics = \<lparr>registered = False, calls = [], last_activity = [], gauge_get = (\<lambda>cs m ls. Fin 0)\<rparr>\<rparr>"

definition demo_hello :: "(handshake_failure + unit) \<times> nat bridge \<times> nat" where
  "demo_hello = handle_subscribe (\<lambda>_. None) (Some demo_ch)
     (event_new (Some ''1'') ''mining.subscribe'' [JStr ''IceMining/1.0'']) demo_subscriber 17"

definition demo_login :: "(handshake_failure + f64 option) \<times> nat bridge" where
  "demo_login = handle_authorize demo_consensus (\<lambda>_. None) demo_je 3 (Some demo_ch) False
     (event_new (Some ''2'') ''mining.authorize'' [JStr ''zkas:w.rig'', JStr ''x'']) (fst (snd demo_hello))"

lemma demo_names: "is_bitmain ''IceMining/1.0'' = False" "is_iceriver ''IceMining/1.0''"
  "contains ''iceriver'' (to_lower ''IceMining/1.0'') = False" "contains ''IceRiver'' ''IceMining/1.0'' = False"
  "radix_digits 16 4 17 = ''0011''" "split_login ''zkas:w.rig'' = (''zkas:w'', ''rig'', [])"
  "trim ''rig'' \<noteq> []"
  by code_simp+

lemmas demo_send = send_on_def reply_def write_data_def numeral_3_eq_3 next_attempt_def put_def

lemma demo_hello_ok:
  "fst demo_hello = Inr ()" "extranonce (conn (fst (snd demo_hello))) = ''0011''"
  "remote_app (conn (fst (snd demo_hello))) = ''IceMining/1.0''" "disconnecting (conn (fst (snd demo_hello))) = False"
  "socket (conn (fst (snd demo_hello))) = []" "write_half (conn (fst (snd demo_hello)))"
  by (simp_all add: demo_hello_def handle_subscribe_def assign_on_def assign_extranonce_for_miner_def set_app_def
      event_new_def demo_names subscribe_result_def reply_on_def demo_send demo_subscriber_def demo_miner_def ctx_new_def
      demo_ch_def client_handler_new_def new_with_protocol_def Let_def split_beta
      del: contains.simps radix_digits.simps)

lemma demo_login_ok: "fst demo_login = Inr None"
proof -
  define b where "b = authorize_identity demo_consensus (\<lambda>_. None) (je_time demo_je) 3 (Some demo_ch) ''zkas:w.rig''
     (Some ''x'') (fst (snd demo_hello))"
  have "same_wire (conn (fst (snd demo_hello))) (conn b)" unfolding b_def by (rule same_wire_authorize)
  then have b: "remote_app (conn b) = ''IceMining/1.0''" "disconnecting (conn b) = False" "socket (conn b) = []"
    "write_half (conn b)" by (simp_all add: same_wire_def demo_hello_ok)
  have l: "demo_login = authorize_reply demo_je (Some demo_ch) False
     (event_new (Some ''2'') ''mining.authorize'' [JStr ''zkas:w.rig'', JStr ''x'']) b"
    by (simp add: demo_login_def handle_authorize_def event_new_def as_str_def b_def)
  show ?thesis unfolding l
    by (simp add: authorize_reply_def reply_on_def demo_send b mark_authorized_def demo_names start_immediate_job_def
        del: contains.simps)
qed


section \<open>Any login is accepted\<close>

lemma wallet_of_identity:
  "wallet_addr (conn (authorize_identity C env t cid h login password b))
     = (case clean_wallet C (fst (split_login login)) of Inr a \<Rightarrow> a | Inl _ \<Rightarrow> pool_fallback_address env)"
proof -
  obtain addr0 worker canx where sl: "split_login login = (addr0, worker, canx)" by (metis prod.exhaust)
  obtain addr b1 where lw: "login_wallet C env h addr0 b = (addr, b1)" by fastforce
  have addr: "addr = (case clean_wallet C addr0 of Inr a \<Rightarrow> a | Inl _ \<Rightarrow> pool_fallback_address env)"
    using lw by (auto simp: login_wallet_def split: sum.splits)
  obtain name b2 where si: "set_identity t h addr worker b1 = (name, b2)" by fastforce
  have act: "wallet_addr (conn (activate_client_vardiff t b)) = wallet_addr (conn b)" for b :: "'a bridge"
    by (simp add: activate_client_vardiff_def claim_vardiff_registration_def split_beta Let_def frame)
  have "wallet_addr (conn b2) = addr"
    using arg_cong [OF si, of snd]
    by (auto simp: set_identity_def effective_worker_name_def Let_def sync_worker_prom_metrics_def act frame
        set_authorized_worker_name_def split: if_splits)
  then have "wallet_addr (conn (authorize_identity C env t cid h login password b)) = addr"
    by (simp add: authorize_identity_def sl lw si open_session_def claim_session_open_def Let_def)
  then show ?thesis by (simp add: addr sl)
qed

lemma immediate_start_wallet: "wallet_addr (conn (snd (immediate_job_start h je b))) = wallet_addr (conn b)"
proof -
  obtain d b1 where r: "register_client_vardiff (je_time je) (seed_for_port h (local_port (conn b))) b = (d, b1)" by fastforce
  have c: "conn b1 = ensure_default_worker_name (conn b)"
    using register_frame(2) [of "je_time je" "seed_for_port h (local_port (conn b))" b] by (simp add: r)
  show ?thesis by (auto simp: immediate_job_start_def r c apply_diff_def frame split: option.splits)
qed


text \<open>
  C38: a mistyped \<open>kaspa:\<close> address costs the miner its connection.  An address that has the form of
  a Kaspa address but that the address parser refuses is taken as it is, and not replaced by the
  pool's; the first template requested for it disconnects the miner.
\<close>

theorem mistyped_address_drops_miner:
  assumes "address_try_from C (''kaspa:'' @ p) = Inl e" and "length p = 61" and "list_all payload_char p"
    and "wallet_addr (conn b) = fst (login_wallet C env h (''kaspa:'' @ p) b0)"
    and "coinbase_address_override (node b) = None" and "template_generation (conn b) \<noteq> - 1"
  shows "fst (fetch_template C H je iid b) = None \<and> disconnecting (conn (snd (fetch_template C H je iid b)))"
proof -
  have "regex_at (''kaspa:'' @ p) = Some (''kaspa:'' @ p)"
    using assms(2,3) by (simp add: regex_at_def strip_prefix_def starts_with_def regex_payload_def)
  moreover have "kaspa_prefixed (''kaspa:'' @ p)" by (simp add: kaspa_prefixed_def starts_with_iff)
  ultimately have "clean_wallet C (''kaspa:'' @ p) = Inr (''kaspa:'' @ p)"
    using assms(1) by (subst clean_wallet.simps) simp
  then have w: "wallet_addr (conn b) = ''kaspa:'' @ p" using assms(4) by (simp add: login_wallet_def)
  define msg where "msg = ''Could not decode address '' @ (''kaspa:'' @ p) @ '': '' @ e"
  have m: "contains ''Could not decode address'' msg"
    unfolding contains_iff msg_def by (intro exI [of _ "[]"] exI [of _ "'' '' @ (''kaspa:'' @ p) @ '': '' @ e"]) simp
  have t: "get_block_template C H t s pr rs (''kaspa:'' @ p) u g k l (node b) = (Inl msg, node b)" for t s pr rs u g k l
    using assms(1,5) by (simp add: get_block_template_def numeral_3_eq_3 resolve_coinbase_recipient_def msg_def)
  show ?thesis
    using m assms(6) by (simp add: fetch_template_def w [unfolded append.simps] t [unfolded append.simps] next_template_generation_def worker_error_def disconnect_def Let_def
      del: contains.simps)
qed


text \<open>The same pattern cuts an address with a payload of 63 characters after 61.\<close>

lemma regex_cuts_long_payload:
  "length p = 63 \<Longrightarrow> list_all payload_char p \<Longrightarrow> WALLET_REGEX (''kaspa:'' @ p) = Some (''kaspa:'' @ take 61 p)"
  by (auto simp: regex_at_def strip_prefix_def starts_with_def regex_payload_def list_all_iff dest: in_set_takeD)

text \<open>The payout address is never guessed: it is a token of the password that has the prefix already.\<close>

lemma kas_payout_explicit:
  assumes "parse_kas_payout C password = Some a"
  obtains raw candidate where "password = Some raw" and "kaspa_prefixed candidate"
    and "address_try_from C candidate = Inr a" and "looks_like_payout_attempt (trim raw)"
  using assms by (auto simp: parse_kas_payout_def is_placeholder_password_def Let_def split: option.splits if_splits)

definition demo_strict :: "nat consensus" where
  "demo_strict = demo_consensus\<lparr>address_try_from := (\<lambda>s. Inl ''bad checksum'')\<rparr>"


lemma mistyped_address_drops_miner_witness:
  "disconnecting (conn (snd (fetch_template demo_strict (\<lambda>b. []) demo_je ''i1''
     (demo_subscriber\<lparr>conn := demo_miner\<lparr>wallet_addr := ''kaspa:'' @ replicate 61 CHR ''q''\<rparr>\<rparr>))))"
proof -
  let ?p = "replicate 61 CHR ''q''"
  have p: "list_all payload_char ?p" by (simp add: list_all_iff payload_char_def is_ascii_lower_def byte_def)
  have at: "regex_at (''kaspa:'' @ ?p) = Some (''kaspa:'' @ ?p)"
    using p by (simp add: regex_at_def strip_prefix_def starts_with_def regex_payload_def)
  have "clean_wallet demo_strict (''kaspa:'' @ ?p) = Inr (''kaspa:'' @ ?p)"
    using at by (subst clean_wallet.simps) (simp add: demo_strict_def kaspa_prefixed_def starts_with_iff)
  then have "fst (login_wallet demo_strict (\<lambda>_. None) None (''kaspa:'' @ ?p) demo_subscriber) = ''kaspa:'' @ ?p"
    by (simp add: login_wallet_def)
  then show ?thesis
    using mistyped_address_drops_miner [of demo_strict ?p "''bad checksum''"
        "demo_subscriber\<lparr>conn := demo_miner\<lparr>wallet_addr := ''kaspa:'' @ ?p\<rparr>\<rparr>" "\<lambda>_. None" None demo_subscriber "\<lambda>b. []" demo_je "''i1''"] p
    by (simp add: demo_strict_def demo_subscriber_def demo_miner_def ctx_new_def demo_api_def)
qed

end
