(* ===== verification/Listener.thy ===== *)
theory Listener
  imports AntiAbuse JsonRpc Prom
begin

text \<open>
  \<^verbatim>\<open>stratum_listener.rs\<close>: reading a connection.  The code gets its handlers as a map and its
  connection as a context; here both are the callbacks of a state \<open>'s\<close>, which the server
  instantiates.  The socket is a list of what the coming reads return, the clock a function of the
  number of frames seen so far.
\<close>

section \<open>Constants and small operations\<close>

definition PRE_AUTH_IDLE_TIMEOUT :: nat where
  "PRE_AUTH_IDLE_TIMEOUT = 60 * 10 ^ 9"

definition should_drop_for_idle :: "bool \<Rightarrow> nat \<Rightarrow> bool" where
  "should_drop_for_idle is_authorized elapsed \<longleftrightarrow> \<not> is_authorized \<and> PRE_AUTH_IDLE_TIMEOUT \<le> elapsed"

definition MAX_STRATUM_LINE_BYTES :: nat where
  "MAX_STRATUM_LINE_BYTES = 64 * 1024"

definition append_line_data :: "string \<Rightarrow> string \<Rightarrow> bool \<times> string" where
  "append_line_data line_buffer chunk =
     (if MAX_STRATUM_LINE_BYTES < min (length line_buffer + length chunk) (2 ^ 64 - 1) then (False, line_buffer)
      else (True, line_buffer @ chunk))"

section \<open>Decoding bytes\<close>

text \<open>
  \<^verbatim>\<open>String::from_utf8_lossy\<close>: each maximal beginning of an ill-formed sequence becomes
  U+FFFD.  \<open>tails\<close> tells, for a leading byte, the range of the first continuation byte and the
  number of continuation bytes.
\<close>

definition utf8_tail :: "nat \<Rightarrow> (nat \<times> nat \<times> nat) option" where
  "utf8_tail b =
     (if 0xC2 \<le> b \<and> b \<le> 0xDF then Some (0x80, 0xBF, 1)
      else if b = 0xE0 then Some (0xA0, 0xBF, 2)
      else if b = 0xED then Some (0x80, 0x9F, 2)
      else if 0xE1 \<le> b \<and> b \<le> 0xEF then Some (0x80, 0xBF, 2)
      else if b = 0xF0 then Some (0x90, 0xBF, 3)
      else if 0xF1 \<le> b \<and> b \<le> 0xF3 then Some (0x80, 0xBF, 3)
      else if b = 0xF4 then Some (0x80, 0x8F, 3)
      else None)"

fun good_tail :: "nat \<Rightarrow> nat \<Rightarrow> nat \<Rightarrow> string \<Rightarrow> nat" where
  "good_tail lo hi 0 cs = 0"
| "good_tail lo hi (Suc n) [] = 0"
| "good_tail lo hi (Suc n) (c # cs) =
     (if lo \<le> byte c \<and> byte c \<le> hi then Suc (good_tail 0x80 0xBF n cs) else 0)"

definition REPLACEMENT :: string where
  "REPLACEMENT = [CHR 0xEF, CHR 0xBF, CHR 0xBD]"

function from_utf8_lossy :: "string \<Rightarrow> string" where
  "from_utf8_lossy [] = []"
| "from_utf8_lossy (c # cs) =
     (if byte c < 128 then c # from_utf8_lossy cs
      else case utf8_tail (byte c) of
        None \<Rightarrow> REPLACEMENT @ from_utf8_lossy cs
      | Some (lo, hi, n) \<Rightarrow>
          let k = good_tail lo hi n cs
          in (if k = n then c # take k cs else REPLACEMENT) @ from_utf8_lossy (drop k cs))"
  by pat_completeness auto
termination
  by (relation "measure length") (auto simp: Let_def)

declare from_utf8_lossy.simps(2) [simp del]

section \<open>One line\<close>

definition http_like :: "string \<Rightarrow> bool" where
  "http_like line \<longleftrightarrow>
     starts_with ''PRI * HTTP/2.0'' line \<or> starts_with ''PRI * HTTP/2'' line \<or> line = ''SM''
     \<or> starts_with ''GET '' line \<or> starts_with ''POST '' line \<or> starts_with ''PUT '' line
     \<or> starts_with ''DELETE '' line \<or> starts_with ''HEAD '' line \<or> starts_with ''OPTIONS '' line"

record 's callbacks =
  cb_connected :: "'s \<Rightarrow> bool"
  cb_authorized :: "'s \<Rightarrow> bool"
  cb_disconnect :: "'s \<Rightarrow> 's"
  cb_notify_disconnect :: "'s \<Rightarrow> 's"
  cb_metric :: "(prom \<Rightarrow> prom) \<Rightarrow> 's \<Rightarrow> 's"
  cb_handler :: "string \<Rightarrow> (json_rpc_event \<Rightarrow> 's \<Rightarrow> 's) option"

record listener_env =
  le_ip :: ip_addr
  le_addr :: string
  le_instance :: string
  le_parse :: "string \<Rightarrow> string + json_rpc_event"
  le_clock :: "nat \<Rightarrow> nat"

record 's session =
  line_buffer :: string
  first_message :: bool
  frames_seen :: nat
  abuse_guard :: anti_abuse_guard
  sink :: 's

definition session_new :: "anti_abuse_guard \<Rightarrow> 's \<Rightarrow> 's session" where
  "session_new g st = \<lparr>line_buffer = [], first_message = True, frames_seen = 0, abuse_guard = g, sink = st\<rparr>"

abbreviation upd_sink :: "('s \<Rightarrow> 's) \<Rightarrow> 's session \<Rightarrow> 's session" where
  "upd_sink f s \<equiv> s\<lparr>sink := f (sink s)\<rparr>"

text \<open>The flag tells whether the remaining lines of the buffer are looked at.\<close>

definition process_line :: "listener_env \<Rightarrow> 's callbacks \<Rightarrow> string \<Rightarrow> 's session \<Rightarrow> bool \<times> 's session" where
  "process_line le cb line s =
     (if line = [] then (True, s)
      else if http_like line then (False, upd_sink (cb_disconnect cb) s)
      else let (allowed, g) = try_consume_frame (le_ip le) (le_clock le (frames_seen s)) (abuse_guard s);
               s = s\<lparr>abuse_guard := g, frames_seen := frames_seen s + 1\<rparr>
           in if \<not> allowed
              then (False, upd_sink (cb_disconnect cb)
                     (upd_sink (cb_metric cb (record_anti_abuse_frame_limited (le_instance le) (le_addr le))) s))
              else (True,
                case unmarshal_event (le_parse le) line of
                  Inr ev \<Rightarrow> (case cb_handler cb (ev_method ev) of Some f \<Rightarrow> upd_sink (f ev) s | None \<Rightarrow> s)
                | Inl e \<Rightarrow> upd_sink (cb_metric cb (record_malformed_frame (le_instance le) (le_addr le))) s))"

fun split_line :: "string \<Rightarrow> (string \<times> string) option" where
  "split_line [] = None"
| "split_line (c # cs) =
     (if c = CHR 0x0A then Some ([], cs)
      else map_option (\<lambda>(l, rest). (c # l, rest)) (split_line cs))"

lemma split_line_shorter: "split_line buf = Some (l, rest) \<Longrightarrow> length rest < length buf"
  by (induction buf arbitrary: l) (auto split: if_splits)

text \<open>The loop over the complete lines of the buffer.\<close>

function drain :: "listener_env \<Rightarrow> 's callbacks \<Rightarrow> string \<Rightarrow> 's session \<Rightarrow> 's session" where
  "drain le cb buf s =
     (case split_line buf of
        None \<Rightarrow> s\<lparr>line_buffer := buf\<rparr>
      | Some (l, rest) \<Rightarrow>
          let (go, s') = process_line le cb (trim l) s
          in if go then drain le cb rest s' else s'\<lparr>line_buffer := rest\<rparr>)"
  by pat_completeness auto
termination
  by (relation "measure (\<lambda>(le, cb, buf, s). length buf)") (auto dest: split_line_shorter)

declare drain.simps [simp del]

section \<open>The read loop\<close>

definition first_line :: "string \<Rightarrow> string" where
  "first_line s = trim (takeWhile (\<lambda>c. c \<noteq> CHR 0x0A) s)"

text \<open>What one read delivers is processed; the flag tells whether the loop goes on.\<close>

definition on_data :: "listener_env \<Rightarrow> 's callbacks \<Rightarrow> string \<Rightarrow> 's session \<Rightarrow> bool \<times> 's session" where
  "on_data le cb bytes s =
     (let chunk = from_utf8_lossy (filter (\<lambda>c. c \<noteq> CHR 0x00) bytes)
      in if first_message s \<and> http_like (first_line chunk) then (False, upd_sink (cb_disconnect cb) s)
         else let s = s\<lparr>first_message := False\<rparr>;
                  (fits, buf) = append_line_data (line_buffer s) chunk
              in if \<not> fits then (False, upd_sink (cb_disconnect cb) s)
                 else (True, drain le cb buf s))"

text \<open>A read ends the stream, delivers bytes, fails, or times out after a silence this long.\<close>

datatype read_result = Eof | Data string | ReadFailed | Silence nat

definition leave_loop :: "'s callbacks \<Rightarrow> 's session \<Rightarrow> 's session" where
  "leave_loop cb s = upd_sink (cb_notify_disconnect cb) (upd_sink (cb_disconnect cb) s)"

text \<open>
  The result tells whether the loop has ended.  The read half of a connection that is up is
  there, since only this loop and \<^verbatim>\<open>disconnect\<close> take it.
\<close>

fun spawn_client_listener :: "listener_env \<Rightarrow> 's callbacks \<Rightarrow> read_result list \<Rightarrow> 's session \<Rightarrow> bool \<times> 's session" where
  "spawn_client_listener le cb [] s = (if \<not> cb_connected cb (sink s) then (True, leave_loop cb s) else (False, s))"
| "spawn_client_listener le cb (r # rs) s =
     (if \<not> cb_connected cb (sink s) then (True, leave_loop cb s)
      else case r of
        Eof \<Rightarrow> (True, leave_loop cb s)
      | Data bytes \<Rightarrow>
          let (go, s) = on_data le cb bytes s
          in if go then spawn_client_listener le cb rs s else (True, leave_loop cb s)
      | ReadFailed \<Rightarrow> (True, leave_loop cb s)
      | Silence elapsed \<Rightarrow>
          if should_drop_for_idle (cb_authorized cb (sink s)) elapsed then (True, leave_loop cb s)
          else spawn_client_listener le cb rs s)"

section \<open>The PROXY header\<close>

datatype ppp_addresses = PppIPv4 "32 word" u16 | PppIPv6 "128 word" u16 | PppUnspecified | PppUnix

datatype proxy_v2_source = ProxyClient ip_addr u16 | ProxyHealthCheck

definition PROXY_V2_SIG :: "u8 list" where
  "PROXY_V2_SIG = [0x0D, 0x0A, 0x0D, 0x0A, 0x00, 0x0D, 0x0A, 0x51, 0x55, 0x49, 0x54, 0x0A]"

text \<open>
  \<open>ppp\<close> is the header parser of the \<^verbatim>\<open>ppp\<close> crate; \<open>bytes\<close> is what arrives before the
  deadline.  The bytes left unread are returned beside the result.
\<close>

definition read_proxy_v2_source :: "(u8 list \<Rightarrow> string + ppp_addresses) \<Rightarrow> u8 list
    \<Rightarrow> (string + proxy_v2_source) \<times> u8 list" where
  "read_proxy_v2_source ppp bytes =
     (if length bytes < 16 then (Inl ''read v2 fixed header'', [])
      else if take 12 bytes \<noteq> PROXY_V2_SIG then (Inl ''not a PROXY protocol v2 header'', drop 16 bytes)
      else let addr_len = 256 * unat (bytes ! 14) + unat (bytes ! 15)
           in if length bytes < 16 + addr_len then (Inl ''read v2 address block'', [])
              else (case ppp (take (16 + addr_len) bytes) of
                      Inl e \<Rightarrow> Inl (''parse v2 header: '' @ e)
                    | Inr (PppIPv4 a port) \<Rightarrow> Inr (ProxyClient (V4 a) port)
                    | Inr (PppIPv6 a port) \<Rightarrow> Inr (ProxyClient (V6 a) port)
                    | Inr PppUnspecified \<Rightarrow> Inr ProxyHealthCheck
                    | Inr PppUnix \<Rightarrow> Inl ''unsupported PROXY address family'',
                    drop (16 + addr_len) bytes))"

section \<open>Accepting\<close>

text \<open>
  What becomes of one accepted socket: its real endpoint, and the anti-abuse ticket that it gets
  or the reason why it is dropped.
\<close>

datatype accept_outcome =
    HealthProbe
  | BadProxyHeader string
  | Refused anti_abuse_rejection
  | Accepted_from ip_addr u16

definition accept_connection :: "(u8 list \<Rightarrow> string + ppp_addresses) \<Rightarrow> (ip_addr \<Rightarrow> string) \<Rightarrow> bool \<Rightarrow> string \<Rightarrow> nat
    \<Rightarrow> ip_addr \<Rightarrow> u16 \<Rightarrow> u8 list \<Rightarrow> anti_abuse_guard \<Rightarrow> prom \<Rightarrow> accept_outcome \<times> anti_abuse_guard \<times> prom" where
  "accept_connection ppp show_ip proxy_protocol iid now peer peer_port bytes g m =
     (case (if proxy_protocol then fst (read_proxy_v2_source ppp bytes) else Inr (ProxyClient peer peer_port)) of
        Inl e \<Rightarrow> (BadProxyHeader e, g, m)
      | Inr ProxyHealthCheck \<Rightarrow> (HealthProbe, g, m)
      | Inr (ProxyClient ip port) \<Rightarrow>
          (case try_accept_connection ip now g of
             (Inl rejection, g) \<Rightarrow>
               (Refused rejection, g, record_anti_abuse_connection_reject iid (show_ip ip) (metric_label rejection) m)
           | (Inr ticket, g) \<Rightarrow> (Accepted_from ip port, g, m)))"

section \<open>Ports\<close>

text \<open>\<^verbatim>\<open>net_utils.rs\<close> and \<^verbatim>\<open>parse_port_number\<close> of \<^verbatim>\<open>stratum_server.rs\<close>.\<close>

definition normalize_port :: "string \<Rightarrow> string" where
  "normalize_port port_or_addr =
     (let s = trim port_or_addr
      in if s = [] then []
         else if starts_with '':'' s then s
         else if list_all is_ascii_digit s then '':'' @ s
         else s)"

definition bind_addr_from_port :: "string \<Rightarrow> string" where
  "bind_addr_from_port port_or_addr =
     (let s = normalize_port port_or_addr
      in if s = [] then s else if starts_with '':'' s then ''0.0.0.0'' @ s else s)"

definition parse_port_number :: "string \<Rightarrow> u16 option" where
  "parse_port_number addr =
     (let tail = last (split_at (\<lambda>c. c = CHR '':'') addr)
      in map_option word_of_nat (parse_uint 10 16 (trim tail)))"

section \<open>Text that is not mangled\<close>

lemma lossy_ascii: "is_ascii s \<Longrightarrow> from_utf8_lossy s = s"
  by (induction s) (simp_all add: is_ascii_def from_utf8_lossy.simps(2))

text \<open>
  Bytes are decoded read by read: a character of several bytes that two reads divide comes out as
  replacement characters, while one read of the same bytes keeps it.
\<close>

lemma divided_character_is_mangled:
  "from_utf8_lossy [CHR 0xC3, CHR 0xA9] = [CHR 0xC3, CHR 0xA9]
   \<and> from_utf8_lossy [CHR 0xC3] @ from_utf8_lossy [CHR 0xA9] = REPLACEMENT @ REPLACEMENT"
  by code_simp

section \<open>The line loop\<close>

lemma process_line_buffer:
  "process_line le cb l (s\<lparr>line_buffer := x\<rparr>)
     = (fst (process_line le cb l s), (snd (process_line le cb l s))\<lparr>line_buffer := x\<rparr>)"
  by (simp add: process_line_def Let_def split_beta split: sum.splits option.splits)

lemma drain_buffer: "drain le cb buf (s\<lparr>line_buffer := x\<rparr>) = drain le cb buf s"
proof (induction le cb buf s arbitrary: x rule: drain.induct)
  case (1 le cb buf s)
  show ?case
  proof (cases "split_line buf")
    case None
    then show ?thesis by (simp add: drain.simps)
  next
    case (Some p)
    obtain l rest where p: "p = (l, rest)" by fastforce
    obtain go s' where g: "process_line le cb (trim l) s = (go, s')" by fastforce
    have "drain le cb rest (s'\<lparr>line_buffer := x\<rparr>) = drain le cb rest s'" if go
      using "1.IH" [OF Some p [symmetric] g [symmetric] refl that] .
    then show ?thesis
      by (simp add: drain.simps [of le cb buf] Some p g process_line_buffer)
  qed
qed

lemma split_line_append: "split_line a = Some (l, rest) \<Longrightarrow> split_line (a @ y) = Some (l, rest @ y)"
  by (induction a arbitrary: l) (auto split: if_splits)

lemma process_line_keeps:
  "process_line le cb l s = (go, s') \<Longrightarrow> line_buffer s' = line_buffer s \<and> first_message s' = first_message s"
  by (auto simp: process_line_def Let_def split_beta split: if_splits sum.splits option.splits)

lemma drain_keeps:
  "first_message (drain le cb buf s) = first_message s \<and> length (line_buffer (drain le cb buf s)) \<le> length buf"
proof (induction le cb buf s rule: drain.induct)
  case (1 le cb buf s)
  show ?case
  proof (cases "split_line buf")
    case (Some p)
    obtain l rest where p: "p = (l, rest)" by fastforce
    obtain go s' where g: "process_line le cb (trim l) s = (go, s')" by fastforce
    have "length rest < length buf" using split_line_shorter Some p by blast
    then show ?thesis
      using "1.IH" [OF Some p [symmetric] g [symmetric] refl] process_line_keeps [OF g]
      by (auto simp: drain.simps [of le cb buf] Some p g)
  qed (simp add: drain.simps)
qed

text \<open>
  What the listener needs of the connection behind it: \<^verbatim>\<open>disconnect\<close> brings it down, and
  handing it to the disconnect channel does not bring it up again.
\<close>

locale connection =
  fixes cb :: "'s callbacks"
  assumes disconnect_down: "\<not> cb_connected cb (cb_disconnect cb s)"
    and notify_down: "\<not> cb_connected cb s \<Longrightarrow> \<not> cb_connected cb (cb_notify_disconnect cb s)"
begin

lemma stopped_down: "process_line le cb l s = (False, s') \<Longrightarrow> \<not> cb_connected cb (sink s')"
  using disconnect_down by (auto simp: process_line_def Let_def split_beta split: if_splits)

lemma drain_append:
  "cb_connected cb (sink (drain le cb a s)) \<Longrightarrow>
     drain le cb (a @ y) s = drain le cb (line_buffer (drain le cb a s) @ y) (drain le cb a s)"
proof (induction a arbitrary: s rule: length_induct)
  case (1 a)
  show ?case
  proof (cases "split_line a")
    case None
    then have "drain le cb a s = s\<lparr>line_buffer := a\<rparr>" by (simp add: drain.simps)
    then show ?thesis by (simp add: drain_buffer)
  next
    case (Some p)
    obtain l rest where p: "p = (l, rest)" by fastforce
    obtain go s' where g: "process_line le cb (trim l) s = (go, s')" by fastforce
    have d: "drain le cb a s = (if go then drain le cb rest s' else s'\<lparr>line_buffer := rest\<rparr>)"
      by (simp add: drain.simps [of le cb a] Some p g)
    have dy: "drain le cb (a @ y) s = (if go then drain le cb (rest @ y) s' else s'\<lparr>line_buffer := rest @ y\<rparr>)"
      by (simp add: drain.simps [of le cb "a @ y"] split_line_append [OF Some [unfolded p]] g)
    have go
    proof (rule ccontr)
      assume "\<not> go"
      then have "\<not> cb_connected cb (sink s')" using stopped_down [of le "trim l" s s'] g by simp
      then show False using "1.prems" \<open>\<not> go\<close> by (simp add: d)
    qed
    moreover have "length rest < length a" using split_line_shorter Some p by blast
    ultimately show ?thesis using "1.IH" "1.prems" by (simp add: d dy)
  qed
qed

text \<open>The line buffer is what the loop leaves: nothing that ends in a newline.\<close>

lemma drain_rest: "cb_connected cb (sink (drain le cb a s)) \<Longrightarrow> split_line (line_buffer (drain le cb a s)) = None"
proof (induction a arbitrary: s rule: length_induct)
  case (1 a)
  show ?case
  proof (cases "split_line a")
    case (Some p)
    obtain l rest where p: "p = (l, rest)" by fastforce
    obtain go s' where g: "process_line le cb (trim l) s = (go, s')" by fastforce
    have d: "drain le cb a s = (if go then drain le cb rest s' else s'\<lparr>line_buffer := rest\<rparr>)"
      by (simp add: drain.simps [of le cb a] Some p g)
    have "length rest < length a" using split_line_shorter Some p by blast
    then show ?thesis using "1.IH" "1.prems" stopped_down [of le "trim l" s s'] g by (auto simp: d split: if_splits)
  qed (simp add: drain.simps)
qed

lemma on_data_fits:
  assumes "\<not> first_message s" and "is_ascii x" and "length (line_buffer s) + length x \<le> MAX_STRATUM_LINE_BYTES"
  shows "on_data le cb x s = (True, drain le cb (line_buffer s @ filter (\<lambda>c. c \<noteq> CHR 0x00) x) s)"
proof -
  have a: "is_ascii (filter (\<lambda>c. c \<noteq> CHR 0x00) x)" using assms(2) by (auto simp: is_ascii_def list_all_iff)
  have l: "\<not> 65536 < length (line_buffer s) + length (filter (\<lambda>c. c \<noteq> CHR 0x00) x)"
    using assms(3) length_filter_le [of "\<lambda>c. c \<noteq> CHR 0x00" x] unfolding MAX_STRATUM_LINE_BYTES_def by linarith
  have u: "s\<lparr>first_message := False\<rparr> = s" using assms(1) by (cases s) simp
  show ?thesis
    using assms(1) l by (simp add: u on_data_def append_line_data_def lossy_ascii [OF a] MAX_STRATUM_LINE_BYTES_def Let_def)
qed

text \<open>Two reads, or one read of the same bytes.\<close>

lemma chunking:
  assumes "is_ascii x" and "is_ascii y" and "\<not> first_message s" and "cb_connected cb (sink s)"
    and "length (line_buffer s) + length x + length y \<le> MAX_STRATUM_LINE_BYTES"
    and "cb_connected cb (sink (snd (on_data le cb x s)))"
  shows "spawn_client_listener le cb (Data x # Data y # rs) s = spawn_client_listener le cb (Data (x @ y) # rs) s"
proof -
  let ?f = "filter (\<lambda>c. c \<noteq> CHR 0x00)"
  have len: "length (?f x) \<le> length x" by simp
  define s1 where "s1 = drain le cb (line_buffer s @ ?f x) s"
  have x: "on_data le cb x s = (True, s1)"
    using assms(1,3,5) unfolding s1_def by (intro on_data_fits) simp_all
  have s1: "\<not> first_message s1" "length (line_buffer s1) \<le> length (line_buffer s @ ?f x)"
    using drain_keeps [of le cb "line_buffer s @ ?f x" s] assms(3) by (simp_all add: s1_def)
  have up: "cb_connected cb (sink s1)" using assms(6) x by simp
  have "length (line_buffer s1) + length y \<le> MAX_STRATUM_LINE_BYTES"
    using s1(2) len assms(5) unfolding length_append by linarith
  then have "on_data le cb y s1 = (True, drain le cb (line_buffer s1 @ ?f y) s1)"
    using s1(1) assms(2) by (intro on_data_fits)
  moreover have "on_data le cb (x @ y) s = (True, drain le cb ((line_buffer s @ ?f x) @ ?f y) s)"
    using on_data_fits [of s "x @ y" le] assms(1,2,3,5) by (simp add: is_ascii_def)
  moreover have "drain le cb ((line_buffer s @ ?f x) @ ?f y) s = drain le cb (line_buffer s1 @ ?f y) s1"
    unfolding s1_def by (rule drain_append) (use up in \<open>simp add: s1_def\<close>)
  ultimately show ?thesis using assms(4) up by (simp add: x)
qed

lemma ends_down: "spawn_client_listener le cb rs s = (True, s') \<Longrightarrow> \<not> cb_connected cb (sink s')"
proof (induction rs arbitrary: s)
  case Nil
  then show ?case using disconnect_down notify_down by (auto simp: leave_loop_def split: if_splits)
next
  case (Cons r rs)
  then show ?case using disconnect_down notify_down
    by (cases r) (auto simp: leave_loop_def split_beta split: if_splits)
qed

end

section \<open>Properties\<close>

text \<open>
  C26: the memory one connection can take is bounded: whatever a client sends, in whatever
  portions, the line buffer of its listener never holds more than 64 KiB.
\<close>

theorem line_buffer_bounded:
  "length (line_buffer (snd (spawn_client_listener le cb rs (session_new g st)))) \<le> MAX_STRATUM_LINE_BYTES"
proof -
  have data: "length (line_buffer (snd (on_data le cb x s))) \<le> MAX_STRATUM_LINE_BYTES"
    if "length (line_buffer s) \<le> MAX_STRATUM_LINE_BYTES" for x and s :: "'a session"
  proof -
    define chunk where "chunk = from_utf8_lossy (filter (\<lambda>c. c \<noteq> CHR 0x00) x)"
    have "length (line_buffer (drain le cb buf s')) \<le> MAX_STRATUM_LINE_BYTES"
      if "append_line_data (line_buffer s) chunk = (True, buf)" for buf and s' :: "'a session"
      using that drain_keeps [of le cb buf s'] unfolding append_line_data_def MAX_STRATUM_LINE_BYTES_def
      by (auto split: if_splits)
    then show ?thesis
      using that by (auto simp: on_data_def chunk_def [symmetric] Let_def split_beta append_line_data_def split: if_splits)
  qed
  have "length (line_buffer (snd (spawn_client_listener le cb rs s))) \<le> MAX_STRATUM_LINE_BYTES"
    if "length (line_buffer s) \<le> MAX_STRATUM_LINE_BYTES" for s
    using that
  proof (induction rs arbitrary: s)
    case (Cons r rs)
    then show ?case using data [of s] by (cases r) (auto simp: leave_loop_def split_beta)
  qed (simp add: leave_loop_def)
  then show ?thesis by (simp add: session_new_def)
qed

end
