(* ===== verification/Server.thy ===== *)
theory Server
  imports ShareHandler Handshake Listener
begin

text \<open>
  \<^verbatim>\<open>stratum_server.rs\<close>: the configuration, the handler map and the tasks that make one server of
  the listener, the client handler and the share handler.  The pieces interleave: a step of the
  server is one accepted connection, one frame, one run of a task, one tick or one disconnect.
\<close>

section \<open>Configuration\<close>

text \<open>The fields of \<^verbatim>\<open>BridgeConfig\<close>; those that only switch logs or name web ports are kept and not used here.\<close>

record bridge_config =
  cfg_instance_id :: string
  cfg_stratum_port :: string
  cfg_stratum_ports :: "(string \<times> u32) list"
  cfg_kaspad_address :: string
  cfg_prom_port :: string
  cfg_print_stats :: bool
  cfg_log_to_file :: bool
  cfg_health_check_port :: string
  cfg_block_wait_time :: nat
  cfg_min_share_diff :: f64
  cfg_var_diff :: bool
  cfg_shares_per_min :: u32
  cfg_var_diff_stats :: bool
  cfg_extranonce_size :: u8
  cfg_pow2_clamp :: bool
  cfg_coinbase_tag_suffix :: "string option"
  cfg_proxy_protocol :: bool
  cfg_kaspa_common_protocol :: bool

definition clamp_seed :: "(f64 \<Rightarrow> f64) \<Rightarrow> bool \<Rightarrow> f64 \<Rightarrow> f64" where
  "clamp_seed log2 pow2_clamp raw =
     (let d = (if pow2_clamp \<and> flt (Fin 0) raw then fpow2 (to_i32 (ffloor (log2 raw))) else raw)
      in if feq d (Fin 0) then Fin 4 else d)"

definition listen_ports :: "bridge_config \<Rightarrow> string list" where
  "listen_ports cfg =
     (if cfg_stratum_ports cfg = [] then [cfg_stratum_port cfg] else map fst (cfg_stratum_ports cfg))"

text \<open>Collecting into a map keeps the last seed of a port that is named twice.\<close>

definition seeds_of :: "(f64 \<Rightarrow> f64) \<Rightarrow> bridge_config \<Rightarrow> (u16, f64) hash_map" where
  "seeds_of log2 cfg =
     fold (\<lambda>(p, seed) m. case parse_port_number p of
              Some n \<Rightarrow> hm_insert n (clamp_seed log2 (cfg_pow2_clamp cfg) (of_n (unat seed))) m
            | None \<Rightarrow> m)
       (cfg_stratum_ports cfg) []"

definition extranonce_size_of :: "bridge_config \<Rightarrow> int" where
  "extranonce_size_of cfg = (if 0 < cfg_extranonce_size cfg then uint (min (cfg_extranonce_size cfg) 3) else 2)"

definition shares_per_min_of :: "bridge_config \<Rightarrow> u32" where
  "shares_per_min_of cfg = (if 0 < cfg_shares_per_min cfg then cfg_shares_per_min cfg else 20)"

section \<open>State\<close>

text \<open>
  What the environment contributes to the frames: one \<open>call_env\<close> for each call of a handler.
  \<open>served\<close> are the connections whose disconnect has not been processed, \<open>job_tasks\<close> and
  \<open>watchdogs\<close> the tasks that wait to run.
\<close>

record 'tx call_env =
  ce_submit :: submit_env
  ce_job :: "'tx job_env"
  ce_cid :: correlation_id

record 'tx server =
  srv_pool :: "'tx pool"
  srv_calls :: nat
  served :: "nat set"
  job_tasks :: "(nat \<times> f64) list"
  watchdogs :: "nat list"

definition server_new :: "(f64 \<Rightarrow> f64) \<Rightarrow> bridge_config \<Rightarrow> bool \<Rightarrow> 'tx kaspa_api \<Rightarrow> prom \<Rightarrow> (nat \<Rightarrow> 'tx stratum_context)
    \<Rightarrow> nat \<Rightarrow> 'tx server" where
  "server_new log2 cfg has_bus api m cs now =
     (let sh = share_handler_new (cfg_instance_id cfg) now;
          sh = (if has_bus then with_event_bus sh else sh)
      in \<lparr>srv_pool = \<lparr>client_handler = new_with_protocol (clamp_seed log2 (cfg_pow2_clamp cfg) (cfg_min_share_diff cfg))
              (seeds_of log2 cfg) (extranonce_size_of cfg) (cfg_instance_id cfg) (cfg_kaspa_common_protocol cfg) now,
            GLOBAL_NEXT_EXTRANONCE = 0, ctxs = cs, next_ctx = 0, pool_handler = sh, pool_node = api, pool_metrics = m\<rparr>,
          srv_calls = 0, served = {}, job_tasks = [], watchdogs = []\<rparr>)"

text \<open>An operation on the bridge of one connection.\<close>

definition run_on :: "nat \<Rightarrow> ('tx bridge \<Rightarrow> 'r \<times> 'tx bridge) \<Rightarrow> 'tx server \<Rightarrow> 'r \<times> 'tx server" where
  "run_on a f s =
     (let (r, b) = f (bridge_of a (srv_pool s)) in (r, s\<lparr>srv_pool := put_bridge a b (srv_pool s)\<rparr>))"

section \<open>The handler map\<close>

definition on_subscribe :: "(string \<Rightarrow> string option) \<Rightarrow> nat \<Rightarrow> json_rpc_event \<Rightarrow> 'tx server \<Rightarrow> 'tx server" where
  "on_subscribe env a ev s =
     (let p = srv_pool s;
          (r, b, n) = handle_subscribe env (Some (client_handler p)) ev (bridge_of a p) (GLOBAL_NEXT_EXTRANONCE p)
      in s\<lparr>srv_pool := (put_bridge a b p)\<lparr>GLOBAL_NEXT_EXTRANONCE := n\<rparr>\<rparr>)"

definition on_authorize :: "'tx consensus \<Rightarrow> (string \<Rightarrow> string option) \<Rightarrow> 'tx call_env \<Rightarrow> nat \<Rightarrow> json_rpc_event
    \<Rightarrow> 'tx server \<Rightarrow> 'tx server" where
  "on_authorize C env ce a ev s =
     (let (r, s) = run_on a (handle_authorize C env (ce_job ce) (ce_cid ce)
                       (Some (client_handler (srv_pool s))) True ev) s
      in case r of
           Inl _ \<Rightarrow> s
         | Inr start \<Rightarrow>
             s\<lparr>watchdogs := watchdogs s @ [a],
               job_tasks := job_tasks s @ (case start of Some d \<Rightarrow> [(a, d)] | None \<Rightarrow> [])\<rparr>)"

definition on_submit :: "'tx consensus \<Rightarrow> 'tx call_env \<Rightarrow> nat \<Rightarrow> json_rpc_event \<Rightarrow> 'tx server \<Rightarrow> 'tx server" where
  "on_submit C ce a ev s =
     snd (run_on a (\<lambda>b. let (n, r, b) = handle_submit C (ce_submit ce) ev b in (r, b)) s)"

definition handler_map :: "'tx consensus \<Rightarrow> (string \<Rightarrow> string option) \<Rightarrow> (nat \<Rightarrow> 'tx call_env) \<Rightarrow> nat \<Rightarrow> string
    \<Rightarrow> (json_rpc_event \<Rightarrow> 'tx server \<Rightarrow> 'tx server) option" where
  "handler_map C env envs a m =
     map_option (\<lambda>f ev s. f (envs (srv_calls s)) ev (s\<lparr>srv_calls := srv_calls s + 1\<rparr>))
       (if m = ''mining.subscribe'' then Some (\<lambda>ce. on_subscribe env a)
        else if m = ''mining.extranonce.subscribe'' then Some (\<lambda>ce ev s. snd (run_on a (handle_extranonce_subscribe ev) s))
        else if m = ''mining.authorize'' then Some (\<lambda>ce. on_authorize C env ce a)
        else if m = ''mining.submit'' then Some (\<lambda>ce. on_submit C ce a)
        else None)"

text \<open>
  The map before the server overrides three of its entries: the handlers run without a client
  handler and a submission does nothing.
\<close>

definition default_handlers :: "'tx consensus \<Rightarrow> (string \<Rightarrow> string option) \<Rightarrow> 'tx call_env \<Rightarrow> string
    \<Rightarrow> (json_rpc_event \<Rightarrow> 'tx bridge \<Rightarrow> bool \<times> 'tx bridge) option" where
  "default_handlers C env ce m =
     (if m = ''mining.subscribe'' then Some (\<lambda>ev b. let (r, b, n) = handle_subscribe env None ev b 0 in (is_ok r, b))
      else if m = ''mining.extranonce.subscribe''
      then Some (\<lambda>ev b. let (r, b) = handle_extranonce_subscribe ev b in (is_ok r, b))
      else if m = ''mining.authorize''
      then Some (\<lambda>ev b. let (r, b) = handle_authorize C env (ce_job ce) (ce_cid ce) None False ev b in (is_ok r, b))
      else if m = ''mining.submit'' then Some (\<lambda>ev b. let (r, b) = handle_submit_stub ev b in (is_ok r, b))
      else None)"

section \<open>Steps\<close>

definition connect_step :: "nat \<Rightarrow> string \<Rightarrow> u16 \<Rightarrow> u16 \<Rightarrow> u64 \<Rightarrow> write_attempt list \<Rightarrow> 'tx server \<Rightarrow> 'tx server" where
  "connect_step now addr port lport uid sock s =
     (let p = srv_pool s;
          a = next_ctx p;
          p = p\<lparr>ctxs := (ctxs p)(a := ctx_new addr port lport (ms_new now) uid sock), next_ctx := a + 1\<rparr>
      in s\<lparr>srv_pool := on_connect a p, served := insert a (served s)\<rparr>)"

definition hang_up_step :: "clock \<Rightarrow> correlation_id \<Rightarrow> nat \<Rightarrow> 'tx server \<Rightarrow> 'tx server" where
  "hang_up_step t corr a s =
     s\<lparr>srv_pool := on_disconnect t corr a (srv_pool s), served := served s - {a}\<rparr>"

definition drop_step :: "nat \<Rightarrow> 'tx server \<Rightarrow> 'tx server" where
  "drop_step a s = snd (run_on a (\<lambda>b. ((), upd_conn disconnect b)) s)"

definition metric_step :: "(prom \<Rightarrow> prom) \<Rightarrow> 'tx server \<Rightarrow> 'tx server" where
  "metric_step f s = s\<lparr>srv_pool := (srv_pool s)\<lparr>pool_metrics := f (pool_metrics (srv_pool s))\<rparr>\<rparr>"

definition watchdog_step :: "nat \<Rightarrow> 'tx server \<Rightarrow> 'tx server" where
  "watchdog_step a s =
     snd (run_on a (\<lambda>b. ((), upd_conn first_job_watchdog b)) (s\<lparr>watchdogs := remove1 a (watchdogs s)\<rparr>))"

definition job_step :: "'tx consensus \<Rightarrow> (u8 list \<Rightarrow> hash) \<Rightarrow> 'tx job_env \<Rightarrow> nat \<Rightarrow> f64 \<Rightarrow> 'tx server \<Rightarrow> 'tx server" where
  "job_step C H je a d s =
     snd (run_on a (immediate_job_task C H je (ch_instance_id (client_handler (srv_pool s))) d)
       (s\<lparr>job_tasks := remove1 (a, d) (job_tasks s)\<rparr>))"

text \<open>The coordinator that sends a job to the connection whose block was found.\<close>

definition refresh_step :: "'tx job_env \<Rightarrow> u64 \<Rightarrow> 'tx server \<Rightarrow> 'tx server" where
  "refresh_step je uid s =
     (case client_by_session_uid uid (srv_pool s) of
        None \<Rightarrow> s
      | Some a \<Rightarrow>
          let (start, s) = run_on a (immediate_job_start (client_handler (srv_pool s)) je) s
          in (case start of Some d \<Rightarrow> s\<lparr>job_tasks := job_tasks s @ [(a, d)]\<rparr> | None \<Rightarrow> s))"

definition on_handler :: "(share_handler \<Rightarrow> share_handler) \<Rightarrow> 'tx server \<Rightarrow> 'tx server" where
  "on_handler f s = s\<lparr>srv_pool := (srv_pool s)\<lparr>pool_handler := f (pool_handler (srv_pool s))\<rparr>\<rparr>"

text \<open>A confirmation task runs once; it touches no connection, so that it may use the bridge of any.\<close>

definition confirm_step :: "(string + bool) list \<Rightarrow> confirm_task \<Rightarrow> nat \<Rightarrow> nat \<Rightarrow> 'tx server \<Rightarrow> 'tx server" where
  "confirm_step colors task secs a s =
     snd (run_on a (confirm_block colors task secs)
       (on_handler (\<lambda>sh. sh\<lparr>confirm_tasks := remove1 task (confirm_tasks sh)\<rparr>) s))"

inductive server_step :: "'tx consensus \<Rightarrow> (u8 list \<Rightarrow> hash) \<Rightarrow> (string \<Rightarrow> string option) \<Rightarrow> (f64 \<Rightarrow> f64)
    \<Rightarrow> (nat \<Rightarrow> 'tx call_env) \<Rightarrow> 'tx server \<Rightarrow> 'tx server \<Rightarrow> bool"
  for C H env log2 envs where
  connect: "server_step C H env log2 envs s (connect_step now addr port lport uid sock s)"
| frame_in: "a \<in> served s \<Longrightarrow> handler_map C env envs a m = Some f \<Longrightarrow> server_step C H env log2 envs s (f ev s)"
| hang_up: "a \<in> served s \<Longrightarrow> server_step C H env log2 envs s (hang_up_step t corr a s)"
| drop: "server_step C H env log2 envs s (drop_step a s)"
| metric: "server_step C H env log2 envs s (metric_step g s)"
| watchdog: "a < next_ctx (srv_pool s) \<Longrightarrow> server_step C H env log2 envs s (watchdog_step a s)"
| job: "a < next_ctx (srv_pool s) \<Longrightarrow> server_step C H env log2 envs s (job_step C H je a d s)"
| refresh: "server_step C H env log2 envs s (refresh_step je uid s)"
| new_block: "new_block_available now (srv_pool s) = (r, p) \<Longrightarrow> server_step C H env log2 envs s (s\<lparr>srv_pool := p\<rparr>)"
| block_task: "a < next_ctx (srv_pool s) \<Longrightarrow>
    server_step C H env log2 envs s (snd (run_on a (new_block_task C H (client_handler (srv_pool s)) je busy) s))"
| parent_task: "a < next_ctx (srv_pool s) \<Longrightarrow>
    server_step C H env log2 envs s (snd (run_on a (new_parent_available C H env (client_handler (srv_pool s)) je busy) s))"
| stats_task: "a < next_ctx (srv_pool s) \<Longrightarrow>
    server_step C H env log2 envs s (snd (run_on a (\<lambda>b. ((), create_stats_task t b)) s))"
| balances: "server_step C H env log2 envs s (s\<lparr>srv_pool := balance_task reply_of_node (srv_pool s)\<rparr>)"
| confirm: "a < next_ctx (srv_pool s) \<Longrightarrow> task \<in> set (confirm_tasks (pool_handler (srv_pool s))) \<Longrightarrow>
    server_step C H env log2 envs s (confirm_step colors task secs a s)"
| tick: "server_step C H env log2 envs s (on_handler (vardiff_tick log2 now rate clamp) s)"
| prune: "server_step C H env log2 envs s (on_handler (prune_stats now) s)"
| shutdown: "server_step C H env log2 envs s (s\<lparr>srv_pool := disconnect_all (srv_pool s)\<rparr>)"

inductive reachable :: "'tx consensus \<Rightarrow> (u8 list \<Rightarrow> hash) \<Rightarrow> (string \<Rightarrow> string option) \<Rightarrow> (f64 \<Rightarrow> f64)
    \<Rightarrow> (nat \<Rightarrow> 'tx call_env) \<Rightarrow> 'tx server \<Rightarrow> bool"
  for C H env log2 envs where
  start: "reachable C H env log2 envs (server_new log2 cfg bus api m cs now)"
| step: "reachable C H env log2 envs s \<Longrightarrow> server_step C H env log2 envs s s' \<Longrightarrow> reachable C H env log2 envs s'"

section \<open>The listener on the server\<close>

text \<open>
  What the read loop of connection \<open>a\<close> calls.  The disconnect channel hands the connection to
  the client handler.
\<close>

definition server_callbacks :: "'tx consensus \<Rightarrow> (string \<Rightarrow> string option) \<Rightarrow> (nat \<Rightarrow> 'tx call_env) \<Rightarrow> clock
    \<Rightarrow> correlation_id \<Rightarrow> nat \<Rightarrow> 'tx server callbacks" where
  "server_callbacks C env envs t corr a =
     \<lparr>cb_connected = (\<lambda>s. ctx_connected (ctxs (srv_pool s) a)),
      cb_authorized = (\<lambda>s. wallet_addr (ctxs (srv_pool s) a) \<noteq> []),
      cb_disconnect = drop_step a, cb_notify_disconnect = hang_up_step t corr a,
      cb_metric = metric_step, cb_handler = handler_map C env envs a\<rparr>"

lemma disconnected_after: "disconnecting (disconnect c)"
  by (simp add: disconnect_def)

lemma drop_down: "\<not> ctx_connected (ctxs (srv_pool (drop_step a s)) a)"
  by (simp add: drop_step_def run_on_def split_beta put_bridge_def ctx_connected_def disconnected_after)

lemma hang_up_down: "\<not> ctx_connected (ctxs (srv_pool (hang_up_step t corr a s)) a)"
  by (simp add: hang_up_step_def on_disconnect_def put_bridge_def ctx_connected_def disconnected_after Let_def split_beta
      WorkStats.frame)

interpretation srv: connection "server_callbacks C env envs t corr a"
  by unfold_locales (simp_all add: server_callbacks_def drop_down hang_up_down)

end
