(* ===== verification/LiveCounts.thy ===== *)
theory LiveCounts
  imports Server
begin

text \<open>
  The server as a whole keeps count of the connections of each worker.  Operations that neither
  count nor uncount a connection are \<open>quiet\<close>; the ones that do move exactly one.
\<close>

section \<open>Quiet operations\<close>

named_theorems quiet \<open>operations that leave every live count and the identity of the connection alone\<close>

text \<open>The number of connections that a worker is recorded to have.\<close>

definition live :: "share_handler \<Rightarrow> string \<Rightarrow> nat" where
  "live sh k = (case hm_get (stats sh) k of Some a \<Rightarrow> unat (active_connections (stats_heap sh a)) | None \<Rightarrow> 0)"

definition same_live :: "share_handler \<Rightarrow> share_handler \<Rightarrow> bool" where
  "same_live sh sh' \<longleftrightarrow> (table_ok sh \<longrightarrow> table_ok sh' \<and> (\<forall>k. live sh' k = live sh k))"

text \<open>A worker name that the miner has supplied is not blank, so that no default replaces it.\<close>

definition ctx_ok :: "'tx stratum_context \<Rightarrow> bool" where
  "ctx_ok c \<longleftrightarrow> (worker_name_supplied c \<longrightarrow> trim (StratumContext.worker_name c) \<noteq> [])"

definition same_worker :: "'tx stratum_context \<Rightarrow> 'tx stratum_context \<Rightarrow> bool" where
  "same_worker c c' \<longleftrightarrow> (ctx_ok c \<longrightarrow> ctx_ok c' \<and> vardiff_registered c' = vardiff_registered c \<and> stats_key c' = stats_key c)"

definition quiet_step :: "'tx bridge \<Rightarrow> 'tx bridge \<Rightarrow> bool" where
  "quiet_step b b' \<longleftrightarrow> same_live (handler b) (handler b') \<and> same_worker (conn b) (conn b')"

lemma same_live_refl [quiet]: "same_live sh sh"
  by (simp add: same_live_def)

lemma same_live_trans: "same_live a b \<Longrightarrow> same_live b c \<Longrightarrow> same_live a c"
  by (simp add: same_live_def)

lemma same_worker_refl [quiet]: "same_worker c c"
  by (simp add: same_worker_def)

lemma same_worker_trans: "same_worker a b \<Longrightarrow> same_worker b c \<Longrightarrow> same_worker a c"
  by (simp add: same_worker_def)

lemma quiet_refl [quiet]: "quiet_step b b"
  by (simp add: quiet_step_def quiet)

lemma quiet_trans: "quiet_step a b \<Longrightarrow> quiet_step b c \<Longrightarrow> quiet_step a c"
  unfolding quiet_step_def by (blast intro: same_live_trans same_worker_trans)

subsection \<open>The table\<close>

lemma same_live_fields:
  "stats sh' = stats sh \<Longrightarrow> stats_heap sh' = stats_heap sh \<Longrightarrow> next_stats sh' = next_stats sh \<Longrightarrow> same_live sh sh'"
  by (simp add: same_live_def live_def table_ok_def split: option.splits)

lemma same_live_then: "same_live sh sh' \<Longrightarrow> stats sh'' = stats sh' \<Longrightarrow> stats_heap sh'' = stats_heap sh'
    \<Longrightarrow> next_stats sh'' = next_stats sh' \<Longrightarrow> same_live sh sh''"
  using same_live_trans same_live_fields by blast

lemma same_live_handler [quiet]:
  assumes "same_live a sh"
  shows "same_live a (emit ev sh)" "same_live a (emit_rejected wal wor r now cor sh)"
    "same_live a (emit_block_found env wal wor h d sh)" "same_live a (emit_credited env wal wor x d sh)"
    "same_live a (spawn_confirm task sh)" "same_live a (sh\<lparr>duplicate_submit_guard := g\<rparr>)"
    "same_live a (sh\<lparr>refreshes := rs\<rparr>)" "same_live a (sh\<lparr>overall := st\<rparr>)"
  by (auto intro!: same_live_then [OF assms] simp: emit_def emit_rejected_def emit_block_found_def emit_credited_def
      spawn_confirm_def split: option.splits sum.splits)

lemma same_live_heap:
  "(\<And>st. active_connections (f st) = active_connections st) \<Longrightarrow>
     same_live sh (sh\<lparr>stats_heap := (stats_heap sh)(a := f (stats_heap sh a))\<rparr>)"
  by (simp add: same_live_def live_def table_ok_def split: option.splits)

lemma live_insert:
  assumes "table_ok sh" and "hm_get (stats sh) k = None" and "active_connections st = 0"
  shows "live (sh\<lparr>stats := hm_insert k (next_stats sh) (stats sh), stats_heap := (stats_heap sh)(next_stats sh := st),
            next_stats := Suc (next_stats sh)\<rparr>) k' = live sh k'"
proof -
  have "a \<noteq> next_stats sh" if "hm_get (stats sh) k' = Some a" for a
    using that assms(1) map_of_SomeD [of "stats sh" k' a] by (force simp: table_ok_def)
  then show ?thesis using assms(2,3) by (auto simp: live_def split: option.splits)
qed

subsection \<open>The connection\<close>

lemma same_session_worker: "same_session c c' \<Longrightarrow> same_worker c c'"
  by (simp add: same_worker_def ctx_ok_def stats_key_def vardiff_worker_identity_def same_session_fields)

lemma same_worker_fields:
  "same_worker c (c\<lparr>mstate := ms\<rparr>)" "same_worker c (c\<lparr>remote_app := app\<rparr>)" "same_worker c (c\<lparr>extranonce := x\<rparr>)"
  "same_worker c (c\<lparr>client_id := i\<rparr>)" "same_worker c (c\<lparr>canxium_addr := s\<rparr>)" "same_worker c (c\<lparr>kas_payout := k\<rparr>)"
  "same_worker c (c\<lparr>session_opened := so\<rparr>)" "same_worker c (c\<lparr>template_generation := g\<rparr>)"
  "same_worker c (c\<lparr>parent_refresh_gate := n\<rparr>)" "same_worker c (c\<lparr>last_parent_job_at := ts'\<rparr>)"
  "same_worker c (disconnect c)" "same_worker c (mark_job_sent now c)" "same_worker c (mark_parent_job_sent now c)"
  "same_worker c (mark_authorized now c)" "same_worker c (drop_permit c)"
  "same_worker c (snd (try_parent_refresh n now c))" "same_worker c (set_id i c)"
  "same_worker c (set_app ev c)" "same_worker c (snd (claim_session_open c))"
  by (auto simp: same_worker_def ctx_ok_def stats_key_def vardiff_worker_identity_def disconnect_def
      mark_job_sent_def mark_parent_job_sent_def mark_authorized_def drop_permit_def try_parent_refresh_def set_id_def
      set_app_def claim_session_open_def split: list.splits json.splits)

lemmas same_worker_steps [quiet] = same_worker_fields [THEN same_worker_trans [rotated]]

lemma same_worker_default: "same_worker c (ensure_default_worker_name c)"
  by (auto simp: same_worker_def ctx_ok_def ensure_default_worker_name_def stats_key_def vardiff_worker_identity_def)

lemma same_worker_effective: "same_worker c (snd (effective_worker_name c))"
  by (simp add: effective_worker_name_def Let_def same_worker_default)

lemmas same_worker_names [quiet] = same_worker_default [THEN same_worker_trans [rotated]]
  same_worker_effective [THEN same_worker_trans [rotated]]

text \<open>Whatever is written, the connection remains the same worker's.\<close>

lemma sent_worker:
  "same_worker c (snd (reply r c))" "same_worker c (snd (ctx_send ev c))" "same_worker c (snd (send_notification m ps c))"
  "same_worker c (snd (send_v1_notification m ps c))" "same_worker c (snd (send_notify mini jid ps c))"
  "same_worker c (snd (send_reconnect_hint host port n c))"
  using notif.same [of c "(m, ps)"] v1.same [of c "(m, ps)"] job_sender.same [of c "(mini, jid, ps)"]
  by (auto intro!: same_session_worker intro: rep.same snd_ev.same simp: send_reconnect_hint_def)

lemma answered_worker:
  "same_worker c (snd (reply_true i c))" "same_worker c (snd (reply_stale_share i c))"
  "same_worker c (snd (reply_bad_share i c))" "same_worker c (snd (reply_low_diff_share v c))"
  "same_worker c (snd (send_subscribe_difficulty_v1 h c))"
  by (simp_all add: reply_true_def reply_stale_share_def reply_bad_share_def reply_low_diff_share_def
      send_subscribe_difficulty_v1_def Let_def sent_worker)

lemmas sends_worker [quiet] = sent_worker [THEN same_worker_trans [rotated]] answered_worker [THEN same_worker_trans [rotated]]

subsection \<open>The bridge\<close>

lemma quiet_fields [quiet]:
  "quiet_step a b \<Longrightarrow> quiet_step a (b\<lparr>metrics := m\<rparr>)" "quiet_step a b \<Longrightarrow> quiet_step a (b\<lparr>node := n\<rparr>)"
  "quiet_step a b \<Longrightarrow> same_live (handler b) sh \<Longrightarrow> quiet_step a (b\<lparr>handler := sh\<rparr>)"
  "quiet_step a b \<Longrightarrow> same_worker (conn b) c \<Longrightarrow> quiet_step a (b\<lparr>conn := c\<rparr>)"
  unfolding quiet_step_def by (auto intro: same_live_trans same_worker_trans)

lemma quiet_stats [quiet]:
  "quiet_step a b \<Longrightarrow> (\<And>st. active_connections (f st) = active_connections st) \<Longrightarrow> quiet_step a (upd_stats k f b)"
  unfolding upd_stats_def by (intro quiet_fields(3) same_live_heap)

lemma quiet_overall [quiet]: "quiet_step a b \<Longrightarrow> quiet_step a (upd_overall f b)"
  unfolding upd_overall_def by (intro quiet)

lemma quiet_settle [quiet]: "quiet_step a b \<Longrightarrow> quiet_step a (settle t k out b)"
  unfolding settle_def by (intro quiet)

lemma quiet_prom [quiet]:
  "quiet_step a b \<Longrightarrow> quiet_step a (snd (worker_prom_context b m))"
  "quiet_step a b \<Longrightarrow> quiet_step a (snd (prom_context iid m b))"
  unfolding worker_prom_context_def prom_context_def Let_def split_beta from_stratum_def effective_worker_name_def
  by (auto intro!: quiet)

lemma quiet_send [quiet]: "quiet_step a b \<Longrightarrow> (\<And>c. same_worker c (snd (f c))) \<Longrightarrow> quiet_step a (snd (send_on f b))"
  "quiet_step a b \<Longrightarrow> (\<And>c. same_worker c (snd (f c))) \<Longrightarrow> quiet_step a (snd (answer f b))"
  unfolding send_on_def answer_def Let_def split_beta by (auto intro!: quiet)

lemma quiet_sync [quiet]: "quiet_step a b \<Longrightarrow> quiet_step a (sync_worker_prom_session t st b)"
  by (auto simp: sync_worker_prom_session_def Let_def split_beta intro!: quiet)

lemma quiet_get_create [quiet]:
  assumes "quiet_step a b"
  shows "quiet_step a (snd (get_create_stats t b))"
proof -
  have new: "same_live sh (sh\<lparr>stats := hm_insert k (next_stats sh) (stats sh), stats_heap := (stats_heap sh)(next_stats sh := st),
      next_stats := Suc (next_stats sh)\<rparr>)" if "hm_get (stats sh) k = None" "active_connections st = 0" for sh k st
    unfolding same_live_def using that live_insert table_ok_insert by blast
  show ?thesis
    using assms unfolding get_create_stats_def effective_worker_name_def Let_def split_beta
    by (auto intro!: quiet new simp: work_stats_new_def split: option.splits)
qed

section \<open>Submissions\<close>

lemma quiet_duplicate_check [quiet]: "quiet_step a b \<Longrightarrow> quiet_step a (snd (duplicate_check t key b))"
  unfolding duplicate_check_def Let_def split_beta by (auto intro!: quiet split: option.splits)

lemma quiet_answers [quiet]:
  "quiet_step a b \<Longrightarrow> quiet_step a (answer_low_diff i b)"
  "quiet_step a b \<Longrightarrow> quiet_step a (snd (answer_duplicate i out b))"
  unfolding answer_low_diff_def answer_duplicate_def
  by (auto intro!: quiet split: option.splits duplicate_submit_outcome.splits)

lemma quiet_reject [quiet]: "quiet_step a b \<Longrightarrow> quiet_step a (reject_submit env code reason b)"
  unfolding reject_submit_def Let_def by (auto intro!: quiet)

lemma quiet_block_ends [quiet]:
  "quiet_step a b \<Longrightarrow> quiet_step a (block_accepted env blk h b)"
  "quiet_step a b \<Longrightarrow> quiet_step a (snd (block_stale env i key wal wor b))"
  "quiet_step a b \<Longrightarrow> quiet_step a (snd (block_bad env i key wal wor b))"
  unfolding block_accepted_def block_stale_def block_bad_def Let_def split_beta
  by (auto intro!: quiet split: sum.splits)

lemma quiet_announce [quiet]: "quiet_step a b \<Longrightarrow> quiet_step a (snd (announce_block C env job blk wal wor b))"
  unfolding announce_block_def Let_def split_beta by (auto intro!: quiet)

lemma quiet_submit_claimed [quiet]:
  "quiet_step a b \<Longrightarrow> quiet_step a (snd (submit_claimed_block C env i key jid job blk wal wor b))"
  unfolding submit_claimed_block_def Let_def split_beta
  by (auto intro!: quiet split: sum.splits block_submit_outcome.splits)

lemma quiet_network [quiet]: "quiet_step a b \<Longrightarrow> quiet_step a (snd (network_branch C env i key jid job blk meets b))"
  unfolding network_branch_def Let_def split_beta by (auto intro!: quiet)

lemma quiet_pow_loop [quiet]:
  "quiet_step a b \<Longrightarrow> quiet_step a (snd (snd (pow_loop C env i key nv jid n cur job weak b)))"
  by (induction n arbitrary: cur job weak) (auto simp: Let_def split_beta intro!: quiet split: option.splits)

lemma quiet_credit [quiet]:
  "quiet_step a b \<Longrightarrow> quiet_step a (snd (credit_share env i key cur job b))"
  "quiet_step a b \<Longrightarrow> quiet_step a (snd (reject_weak env i key b))"
  unfolding credit_share_def reject_weak_def Let_def split_beta by (auto intro!: quiet)

lemma quiet_judge [quiet]:
  "quiet_step a b \<Longrightarrow> quiet_step a (snd (snd (judge_share C env i ns jid job nv b)))"
  unfolding judge_share_def Let_def split_beta
  by (auto intro!: quiet split: option.splits share_verdict.splits)

lemma quiet_handle_submit [quiet]: "quiet_step a b \<Longrightarrow> quiet_step a (snd (snd (handle_submit C env ev b)))"
  unfolding handle_submit_def by (auto intro!: quiet split: sum.splits option.splits)

lemma quiet_confirm [quiet]: "quiet_step a b \<Longrightarrow> quiet_step a (snd (confirm_block colors task secs b))"
proof -
  have "quiet_step a (snd (confirm_loop n colors task secs b))" if "quiet_step a b" for n
    using that by (induction n colors task secs b rule: confirm_loop.induct)
      (auto simp: Let_def split_beta intro!: quiet split: list.splits)
  then show "quiet_step a b \<Longrightarrow> ?thesis" by (simp add: confirm_block_def)
qed

section \<open>Tasks and frames\<close>

lemma quiet_errors [quiet]:
  "quiet_step a b \<Longrightarrow> quiet_step a (worker_error iid wal code b)"
  "quiet_step a b \<Longrightarrow> quiet_step a (show_difficulty iid app d b)"
  "quiet_step a b \<Longrightarrow> quiet_step a (snd (apply_diff te k d app b))"
  "quiet_step a b \<Longrightarrow> quiet_step a (snd (send_client_diff iid d b))"
  unfolding worker_error_def show_difficulty_def apply_diff_def send_client_diff_def Let_def split_beta
  by (auto intro!: quiet split: option.splits)

lemma quiet_vardiff [quiet]:
  "quiet_step a b \<Longrightarrow> quiet_step a (snd (register_client_vardiff t seed b))"
  "quiet_step a b \<Longrightarrow> quiet_step a (snd (set_client_vardiff t d b))"
  "quiet_step a b \<Longrightarrow> quiet_step a (start_client_vardiff t b)"
  "quiet_step a b \<Longrightarrow> quiet_step a (create_stats_task t b)"
  unfolding register_client_vardiff_def set_client_vardiff_def start_client_vardiff_def create_stats_task_def
    Let_def split_beta
  by (auto intro!: quiet split: option.splits)

lemma quiet_follow [quiet]: "quiet_step a b \<Longrightarrow> quiet_step a (snd (follow_vardiff je iid b))"
  unfolding follow_vardiff_def Let_def split_beta by (auto intro!: quiet split: option.splits)

lemma same_worker_generation:
  "next_template_generation c = Some (g, c') \<Longrightarrow> same_worker c c'"
  by (auto simp: next_template_generation_def intro!: quiet split: if_splits)

lemma quiet_fetch [quiet]: "quiet_step a b \<Longrightarrow> quiet_step a (snd (fetch_template C H je iid b))"
  unfolding fetch_template_def Let_def split_beta
  by (auto intro!: quiet dest!: same_worker_generation split: option.splits sum.splits)

lemma quiet_store [quiet]: "quiet_step a b \<Longrightarrow> quiet_step a (snd (store_job H iid wal block b))"
  unfolding store_job_def Let_def split_beta by (auto intro!: quiet split: option.splits sum.splits)

lemma quiet_publish [quiet]: "quiet_step a b \<Longrightarrow> quiet_step a (snd (publish_job t iid wal app mini jid h stamp b))"
  unfolding publish_job_def Let_def split_beta by (auto intro!: quiet split: option.splits)

lemma quiet_immediate [quiet]:
  "quiet_step a b \<Longrightarrow> quiet_step a (snd (immediate_job_start h je b))"
  "quiet_step a b \<Longrightarrow> quiet_step a (snd (init_mining_state te iid app d b))"
  unfolding immediate_job_start_def init_mining_state_def Let_def split_beta by (auto intro!: quiet)

lemma quiet_first [quiet]: "quiet_step a b \<Longrightarrow> quiet_step a (snd (first_or_follow je iid app d b))"
  unfolding first_or_follow_def Let_def split_beta by (auto intro!: quiet)

lemma quiet_publishes [quiet]:
  "quiet_step a b \<Longrightarrow> quiet_step a (snd (immediate_job_publish H je iid wal app d block b))"
  "quiet_step a b \<Longrightarrow> quiet_step a (snd (new_block_publish H h je wal app block b))"
  unfolding immediate_job_publish_def new_block_publish_def Let_def split_beta
  by (auto intro!: quiet split: option.splits)

lemma quiet_job_tasks [quiet]:
  "quiet_step a b \<Longrightarrow> quiet_step a (snd (immediate_job_task C H je iid d b))"
  "quiet_step a b \<Longrightarrow> quiet_step a (snd (new_block_task C H h je busy b))"
  unfolding immediate_job_task_def new_block_task_def Let_def split_beta
  by (auto intro!: quiet split: option.splits)

lemma same_worker_refresh [quiet]: "same_worker c (snd (parent_refresh_start env now c))"
  unfolding parent_refresh_start_def Let_def split_beta by (auto intro!: quiet split: option.splits)

lemma quiet_parent [quiet]:
  "quiet_step a b \<Longrightarrow> quiet_step a (snd (parent_refresh_fetch C je old b))"
  "quiet_step a b \<Longrightarrow> quiet_step a (snd (parent_refresh_publish C H je iid hfc busy parent b))"
  unfolding parent_refresh_fetch_def parent_refresh_publish_def Let_def split_beta
  by (auto intro!: quiet split: option.splits sum.splits)

lemma quiet_parent_task [quiet]:
  "quiet_step a b \<Longrightarrow> quiet_step a (snd (parent_refresh_task C H je iid busy old b))"
  unfolding parent_refresh_task_def Let_def split_beta by (auto intro!: quiet split: option.splits)

lemma quiet_new_parent [quiet]:
  "quiet_step a b \<Longrightarrow> quiet_step a (snd (new_parent_available C H env h je busy b))"
  unfolding new_parent_available_def Let_def split_beta by (auto intro!: quiet split: option.splits)

lemma same_worker_watchdog [quiet]: "same_worker c (first_job_watchdog c)"
  unfolding first_job_watchdog_def Let_def split_beta by (auto intro!: quiet split: option.splits)

subsection \<open>The handshake\<close>

lemma quiet_replies [quiet]:
  "quiet_step a b \<Longrightarrow> quiet_step a (snd (reply_on what ev v b))"
  "quiet_step a b \<Longrightarrow> quiet_step a (snd (common_handshake h x b))"
  "quiet_step a b \<Longrightarrow> quiet_step a (snd (send_extranonce b))"
  "quiet_step a b \<Longrightarrow> quiet_step a (fst (assign_on env ho b n))"
  "quiet_step a b \<Longrightarrow> quiet_step a (snd (login_wallet C env ho address b))"
  "quiet_step a b \<Longrightarrow> quiet_step a (open_session cor ho address name b)"
  unfolding reply_on_def common_handshake_def send_extranonce_def assign_on_def assign_extranonce_for_miner_def
    login_wallet_def open_session_def Let_def split_beta
  by (auto intro!: quiet split: option.splits sum.splits)

lemma quiet_subscribe [quiet]:
  "quiet_step a b \<Longrightarrow> quiet_step a (fst (snd (handle_subscribe env ho ev b n)))"
  "quiet_step a b \<Longrightarrow> quiet_step a (snd (handle_extranonce_subscribe ev b))"
  unfolding handle_subscribe_def handle_extranonce_subscribe_def Let_def split_beta
  by (auto intro!: quiet split: option.splits)

lemma quiet_authorize_reply [quiet]:
  "quiet_step a b \<Longrightarrow> quiet_step a (snd (authorize_reply je ho api ev b))"
  unfolding authorize_reply_def start_immediate_job_def Let_def split_beta
  by (auto intro!: quiet split: option.splits sum.splits)

section \<open>Counting one connection\<close>

text \<open>
  The table is in order when the worker of this connection has one connection more than the other
  connections account for, if this one is registered, and every other worker exactly those.
\<close>

definition balanced :: "(string \<Rightarrow> nat) \<Rightarrow> 'tx bridge \<Rightarrow> bool" where
  "balanced others b \<longleftrightarrow> table_ok (handler b) \<and> ctx_ok (conn b)
     \<and> (\<forall>k. live (handler b) k = others k + (if vardiff_registered (conn b) \<and> stats_key (conn b) = k then 1 else 0))"

lemma balanced_quiet: "balanced ot b \<Longrightarrow> quiet_step b b' \<Longrightarrow> balanced ot b'"
  by (simp add: balanced_def quiet_step_def same_live_def same_worker_def)

text \<open>Counting up or down at one worker's entry.\<close>

lemma live_upd:
  assumes "table_ok (handler b)" and "hm_get (stats (handler b)) k = Some a"
  shows "live (handler (upd_stats a f b)) k'
      = (if k' = k then unat (active_connections (f (stats_heap (handler b) a))) else live (handler b) k')"
proof -
  have "k' = k" if "hm_get (stats (handler b)) k' = Some a"
  proof -
    have "(k', a) \<in> set (stats (handler b))" "(k, a) \<in> set (stats (handler b))"
      using that assms(2) by (simp_all add: map_of_SomeD)
    moreover have "inj_on snd (set (stats (handler b)))" using assms(1) by (simp add: table_ok_def distinct_map)
    ultimately show ?thesis using inj_onD by fastforce
  qed
  then show ?thesis
    using assms(2) by (cases "hm_get (stats (handler b)) k'") (auto simp: live_def upd_stats_def)
qed

lemma live_entry: "hm_get (stats sh) k = Some a \<Longrightarrow> unat (active_connections (stats_heap sh a)) = live sh k"
  by (simp add: live_def)

lemma upd_stats_table [simp]: "table_ok (handler (upd_stats a f b)) = table_ok (handler b)" "conn (upd_stats a f b) = conn b"
  by (simp_all add: table_ok_def upd_stats_def)

lemma sub_one: "unat (sat_sub1 x) = unat x - 1"
  by (simp add: sat_sub1_def unat_minus_one)

lemma add_one: "unat x + 1 < 2 ^ 32 \<Longrightarrow> unat (sat_add1 x) = unat x + 1"
  by (cases "x = - 1") (simp_all add: sat_add1_def unat_word_ariths unsigned_minus_1_eq_mask mask_eq_exp_minus_1)

text \<open>Taking the mark off or setting it moves the connection between the others and the counted.\<close>

lemma marked_same: "ctx_ok (c\<lparr>vardiff_registered := m\<rparr>) = ctx_ok c" "stats_key (c\<lparr>vardiff_registered := m\<rparr>) = stats_key c"
  by (simp_all add: ctx_ok_def stats_key_def vardiff_worker_identity_def)

lemma balanced_release:
  assumes "balanced ot b"
  shows "balanced ot (deactivate_client_vardiff t b) \<and> \<not> vardiff_registered (conn (deactivate_client_vardiff t b))"
proof (cases "vardiff_registered (conn b)")
  case False
  then have "deactivate_client_vardiff t b = b"
    by (cases b; cases "conn b") (simp add: deactivate_client_vardiff_def release_vardiff_registration_def)
  then show ?thesis using assms False by simp
next
  case True
  define b1 where "b1 = b\<lparr>conn := (conn b)\<lparr>vardiff_registered := False\<rparr>\<rparr>"
  define k where "k = stats_key (conn b)"
  have b1: "handler b1 = handler b" "stats_key (conn b1) = k" "ctx_ok (conn b1)" "\<not> vardiff_registered (conn b1)"
    using assms by (simp_all add: b1_def k_def marked_same balanced_def)
  have "live (handler b) k = ot k + 1" using assms True by (simp add: balanced_def k_def)
  then obtain a where a: "hm_get (stats (handler b)) k = Some a" by (auto simp: live_def split: option.splits)
  let ?f = "\<lambda>st. st\<lparr>active_connections := sat_sub1 (active_connections st), last_session_activity := mono t\<rparr>"
  have d: "deactivate_client_vardiff t b = upd_stats a ?f b1"
    using True a by (simp add: deactivate_client_vardiff_def release_vardiff_registration_def b1_def
        get_stats_if_exists_def Let_def marked_same k_def)
  have "live (handler (upd_stats a ?f b1)) k' = ot k'" for k'
    using assms True a live_entry [OF a] \<open>live (handler b) k = ot k + 1\<close> live_upd [of b1 k a ?f k']
    by (auto simp: b1 sub_one balanced_def k_def)
  then show ?thesis unfolding d using assms b1 by (simp add: balanced_def)
qed

lemma balanced_claim:
  assumes "balanced ot b" and "ot (stats_key (conn b)) + 1 < 2 ^ 32"
  shows "balanced ot (activate_client_vardiff t b)"
proof (cases "vardiff_registered (conn b)")
  case True
  then have "activate_client_vardiff t b = b"
    by (cases b; cases "conn b") (simp add: activate_client_vardiff_def claim_vardiff_registration_def)
  then show ?thesis using assms by simp
next
  case False
  define b1 where "b1 = b\<lparr>conn := (conn b)\<lparr>vardiff_registered := True\<rparr>\<rparr>"
  obtain a b2 where g: "get_create_stats t b1 = (a, b2)" by fastforce
  let ?f = "\<lambda>st. st\<lparr>active_connections := sat_add1 (active_connections st), var_diff_start_time := Some (mono t),
    var_diff_shares_found := 0, var_diff_window := 0, last_session_activity := mono t\<rparr>"
  have d: "activate_client_vardiff t b = upd_stats a ?f b2"
    using False g by (simp add: activate_client_vardiff_def claim_vardiff_registration_def b1_def [symmetric] Let_def)
  have q: "quiet_step b1 b2" using quiet_get_create [OF quiet_refl, of b1 t] g by simp
  have b1: "table_ok (handler b1)" "ctx_ok (conn b1)" "vardiff_registered (conn b1)" "stats_key (conn b1) = stats_key (conn b)"
    "handler b1 = handler b"
    using assms by (simp_all add: b1_def marked_same balanced_def)
  have b2: "table_ok (handler b2)" "ctx_ok (conn b2)" "vardiff_registered (conn b2)" "stats_key (conn b2) = stats_key (conn b)"
    "live (handler b2) k = live (handler b) k" for k
    using q b1 by (simp_all add: quiet_step_def same_live_def same_worker_def)
  have "stats_key (ensure_default_worker_name (conn b1)) = stats_key (conn b)"
    using same_worker_default [of "conn b1"] b1 by (simp add: same_worker_def)
  then have a: "hm_get (stats (handler b2)) (stats_key (conn b)) = Some a"
    using get_create_found(1) [OF g] by simp
  have "live (handler b) (stats_key (conn b)) + 1 < 2 ^ 32" using assms False by (simp add: balanced_def)
  then have "live (handler (upd_stats a ?f b2)) k' = ot k' + (if stats_key (conn b) = k' then 1 else 0)" for k'
    using assms False live_entry [OF a] live_upd [OF b2(1) a, of ?f k'] add_one [of "active_connections (stats_heap (handler b2) a)"]
    by (auto simp: b2 balanced_def)
  then show ?thesis unfolding d using b2 by (simp add: balanced_def)
qed

text \<open>A connection that is not registered can become another worker's.\<close>

lemma balanced_rename:
  "balanced ot b \<Longrightarrow> \<not> vardiff_registered (conn b) \<Longrightarrow> ctx_ok c \<Longrightarrow> \<not> vardiff_registered c \<Longrightarrow> balanced ot (b\<lparr>conn := c\<rparr>)"
  by (simp add: balanced_def)

lemma authorized_name:
  "ctx_ok (set_authorized_worker_name w c)"
  "vardiff_registered (set_authorized_worker_name w c) = vardiff_registered c"
  by (auto simp: ctx_ok_def set_authorized_worker_name_def ensure_default_worker_name_def)

lemma balanced_identity:
  assumes "balanced ot b" and "\<And>k. ot k + 1 < 2 ^ 32"
  shows "balanced ot (snd (set_identity t (Some h) address worker b))"
proof -
  define b1 where "b1 = deactivate_client_vardiff t b"
  define c where "c = set_authorized_worker_name worker ((conn b1)\<lparr>wallet_addr := address\<rparr>)"
  have b1: "balanced ot b1" "\<not> vardiff_registered (conn b1)"
    using balanced_release [OF assms(1)] by (simp_all add: b1_def)
  have "balanced ot (b1\<lparr>conn := c\<rparr>)"
    using b1 by (intro balanced_rename) (simp_all add: c_def authorized_name)
  then have "balanced ot (b1\<lparr>conn := ensure_default_worker_name c\<rparr>)"
    by (rule balanced_quiet) (simp add: quiet_step_def quiet same_worker_default)
  then have "balanced ot (sync_worker_prom_metrics t (b1\<lparr>conn := ensure_default_worker_name c\<rparr>))"
    unfolding sync_worker_prom_metrics_def using assms(2) by (auto intro!: balanced_claim)
  then show ?thesis
    by (simp add: set_identity_def prepare_worker_identity_change_def b1_def [symmetric] c_def [symmetric]
        effective_worker_name_def Let_def)
qed

section \<open>The pool of connections\<close>

text \<open>The connections among the first \<open>n\<close>, \<open>a\<close> aside, that count for worker \<open>k\<close>.\<close>

definition counted_for :: "'tx pool \<Rightarrow> string \<Rightarrow> nat set" where
  "counted_for p k = {x. x < next_ctx p \<and> vardiff_registered (ctxs p x) \<and> stats_key (ctxs p x) = k}"

definition counts_ok :: "'tx pool \<Rightarrow> bool" where
  "counts_ok p \<longleftrightarrow> table_ok (pool_handler p) \<and> (\<forall>x < next_ctx p. ctx_ok (ctxs p x))
     \<and> (\<forall>k. live (pool_handler p) k = card (counted_for p k))"

definition others :: "'tx pool \<Rightarrow> nat \<Rightarrow> string \<Rightarrow> nat" where
  "others p a k = card (counted_for p k - {a})"

lemma finite_counted [simp]: "finite (counted_for p k)"
  by (rule finite_subset [of _ "{..< next_ctx p}"]) (auto simp: counted_for_def)

lemma others_bound: "a < next_ctx p \<Longrightarrow> next_ctx p < 2 ^ 32 \<Longrightarrow> others p a k + 1 < 2 ^ 32"
proof -
  assume a: "a < next_ctx p" and n: "next_ctx p < 2 ^ 32"
  have "others p a k \<le> card ({..< next_ctx p} - {a})"
    unfolding others_def by (rule card_mono) (auto simp: counted_for_def)
  then show ?thesis using a n by simp
qed

lemma card_counted: "a < next_ctx p \<Longrightarrow>
  card (counted_for p k) = others p a k + (if vardiff_registered (ctxs p a) \<and> stats_key (ctxs p a) = k then 1 else 0)"
proof -
  assume a: "a < next_ctx p"
  have "card (counted_for p k) = card (counted_for p k - {a}) + (if a \<in> counted_for p k then 1 else 0)"
    using card.remove [of "counted_for p k" a] by simp
  then show ?thesis using a by (simp add: others_def counted_for_def)
qed

lemma balanced_of_counts: "counts_ok p \<Longrightarrow> a < next_ctx p \<Longrightarrow> balanced (others p a) (bridge_of a p)"
  by (simp add: balanced_def counts_ok_def bridge_of_def card_counted)

lemma put_bridge_fields [simp]:
  "pool_handler (put_bridge a b p) = handler b" "ctxs (put_bridge a b p) = (ctxs p)(a := conn b)"
  "next_ctx (put_bridge a b p) = next_ctx p" "client_handler (put_bridge a b p) = client_handler p"
  by (simp_all add: put_bridge_def)

lemma bridge_put [simp]: "bridge_of a (put_bridge a b p) = b"
  by (simp add: bridge_of_def put_bridge_def)

lemma others_put: "others (put_bridge a b p) a = others p a"
  by (rule ext, unfold others_def, rule arg_cong [where f = card]) (auto simp: counted_for_def)

lemma counts_put:
  assumes "counts_ok p" and "a < next_ctx p" and "balanced (others p a) b"
  shows "counts_ok (put_bridge a b p)"
  using assms card_counted [of a "put_bridge a b p"]
  by (auto simp: counts_ok_def balanced_def others_put)

lemma counts_quiet:
  assumes "counts_ok p" and "quiet_step (bridge_of a p) b"
  shows "counts_ok (put_bridge a b p)"
proof (cases "a < next_ctx p")
  case True
  then show ?thesis using assms balanced_of_counts balanced_quiet counts_put by blast
next
  case False
  then have "counted_for (put_bridge a b p) k = counted_for p k" for k by (auto simp: counted_for_def)
  then show ?thesis
    using assms False by (auto simp: counts_ok_def quiet_step_def same_live_def bridge_of_def)
qed

lemma counts_cong:
  assumes "counts_ok p" and "pool_handler p' = pool_handler p" and "next_ctx p' = next_ctx p"
    and "\<And>x. same_worker (ctxs p x) (ctxs p' x)"
  shows "counts_ok p'"
proof -
  have "vardiff_registered (ctxs p' x) = vardiff_registered (ctxs p x)
      \<and> stats_key (ctxs p' x) = stats_key (ctxs p x) \<and> ctx_ok (ctxs p' x)" if "x < next_ctx p" for x
    using assms(1) assms(4) [of x] that by (simp add: counts_ok_def same_worker_def)
  then have "counted_for p' k = counted_for p k" for k using assms(3) by (auto simp: counted_for_def)
  then show ?thesis
    using assms(1-3) \<open>\<And>x. x < next_ctx p \<Longrightarrow> _\<close> by (simp add: counts_ok_def)
qed

section \<open>The steps of the server\<close>

text \<open>The connections that count are among those whose disconnect is still to come.\<close>

definition server_ok :: "'tx server \<Rightarrow> bool" where
  "server_ok s \<longleftrightarrow> counts_ok (srv_pool s) \<and> (\<forall>a\<in>served s. a < next_ctx (srv_pool s))
     \<and> (\<forall>a < next_ctx (srv_pool s). vardiff_registered (ctxs (srv_pool s) a) \<longrightarrow> a \<in> served s)"

lemma run_on_fields [simp]:
  "srv_pool (snd (run_on a f s)) = put_bridge a (snd (f (bridge_of a (srv_pool s)))) (srv_pool s)"
  "served (snd (run_on a f s)) = served s"
  by (simp_all add: run_on_def split_beta)

text \<open>A quiet operation on one connection keeps the order.\<close>

lemma ok_put_quiet:
  assumes "server_ok s" and "quiet_step (bridge_of a (srv_pool s)) b"
    and "srv_pool s' = put_bridge a b (srv_pool s)" and "served s' = served s"
  shows "server_ok s'"
proof -
  have "vardiff_registered (conn b) = vardiff_registered (ctxs (srv_pool s) a)" if "a < next_ctx (srv_pool s)"
    using assms(1,2) that by (simp add: server_ok_def counts_ok_def quiet_step_def same_worker_def bridge_of_def)
  then show ?thesis
    using assms counts_quiet by (auto simp: server_ok_def)
qed

lemma ok_run_quiet:
  assumes "server_ok s" and "\<And>b. quiet_step b (snd (f b))"
  shows "server_ok (snd (run_on a f s))"
  by (rule ok_put_quiet [OF assms(1,2)]) simp_all

lemma ok_handler:
  assumes "server_ok s" and "\<And>sh. same_live sh (f sh)"
  shows "server_ok (on_handler f s)"
  using assms by (auto simp: server_ok_def counts_ok_def on_handler_def counted_for_def same_live_def)

lemma ok_pool:
  assumes "server_ok s" and "pool_handler p = pool_handler (srv_pool s)" and "next_ctx p = next_ctx (srv_pool s)"
    and "\<And>x. same_worker (ctxs (srv_pool s) x) (ctxs p x)"
  shows "server_ok (s\<lparr>srv_pool := p\<rparr>)"
proof -
  have "vardiff_registered (ctxs p x) = vardiff_registered (ctxs (srv_pool s) x)" if "x < next_ctx (srv_pool s)" for x
    using assms(1) assms(4) [of x] that by (simp add: server_ok_def counts_ok_def same_worker_def)
  then show ?thesis
    using assms counts_cong [of "srv_pool s" p] by (auto simp: server_ok_def)
qed

lemma ok_fields: "server_ok s \<Longrightarrow> srv_pool s' = srv_pool s \<Longrightarrow> served s' = served s \<Longrightarrow> server_ok s'"
  by (simp add: server_ok_def)

lemma ok_queues [simp]:
  "server_ok (s\<lparr>job_tasks := js\<rparr>) = server_ok s" "server_ok (s\<lparr>watchdogs := ws\<rparr>) = server_ok s"
  "server_ok (s\<lparr>srv_calls := n\<rparr>) = server_ok s"
  by (simp_all add: server_ok_def)

lemma ok_connect:
  assumes "server_ok s"
  shows "server_ok (connect_step now addr port lport uid sock s)"
proof -
  define p where "p = srv_pool s"
  define p' where "p' = srv_pool (connect_step now addr port lport uid sock s)"
  have p': "pool_handler p' = pool_handler p" "next_ctx p' = Suc (next_ctx p)" "\<not> vardiff_registered (ctxs p' (next_ctx p))"
    "\<not> worker_name_supplied (ctxs p' (next_ctx p))" "x \<noteq> next_ctx p \<Longrightarrow> ctxs p' x = ctxs p x" for x
    by (simp_all add: p'_def p_def connect_step_def on_connect_def Let_def ctx_new_def set_id_def)
  have c: "counted_for p' k = counted_for p k" for k
    using p' by (auto simp: counted_for_def less_Suc_eq)
  have "counts_ok p'"
    using assms p' by (auto simp: server_ok_def counts_ok_def c p_def [symmetric] less_Suc_eq ctx_ok_def)
  moreover have "served (connect_step now addr port lport uid sock s) = insert (next_ctx p) (served s)"
    by (simp add: connect_step_def Let_def p_def)
  ultimately show ?thesis
    using assms p' by (auto simp: server_ok_def p'_def [symmetric] p_def [symmetric] less_Suc_eq)
qed

lemma balanced_authorize:
  assumes "balanced ot b" and "\<And>k. ot k + 1 < 2 ^ 32"
  shows "balanced ot (snd (handle_authorize C env je cor (Some h) api ev b))"
proof -
  have "balanced ot (authorize_identity C env t cor (Some h) login password b)" for t login password
  proof -
    obtain address worker canxium where l: "split_login login = (address, worker, canxium)" by (metis prod_cases3)
    obtain address' b1 where w: "login_wallet C env (Some h) address b = (address', b1)" by fastforce
    obtain name b2 where i: "set_identity t (Some h) address' worker b1 = (name, b2)" by fastforce
    have "quiet_step b b1" using quiet_replies(5) [OF quiet_refl, of b C env "Some h" address] w by simp
    then have "balanced ot b2"
      using balanced_identity [of ot b1 t h address' worker] balanced_quiet assms i by fastforce
    moreover have "quiet_step b2 (authorize_identity C env t cor (Some h) login password b)"
      unfolding authorize_identity_def Let_def l w i prod.case by (auto intro!: quiet)
    ultimately show ?thesis using balanced_quiet by blast
  qed
  then show ?thesis
    using assms(1) unfolding handle_authorize_def
    by (auto intro!: balanced_quiet [OF _ quiet_authorize_reply [OF quiet_refl]] split: list.splits option.splits)
qed

lemma ok_put_marked:
  assumes "server_ok s" and "a \<in> served s" and "balanced (others (srv_pool s) a) b"
    and "srv_pool s' = put_bridge a b (srv_pool s)" and "served s' = served s"
  shows "server_ok s'"
  using assms counts_put [of "srv_pool s" a b] by (auto simp: server_ok_def)

lemma ok_authorize:
  assumes "server_ok s" and "a \<in> served s" and "next_ctx (srv_pool s) < 2 ^ 32"
  shows "server_ok (on_authorize C env ce a ev s)"
proof (rule ok_put_marked [OF assms(1,2)])
  have a: "a < next_ctx (srv_pool s)" using assms(1,2) by (simp add: server_ok_def)
  show "balanced (others (srv_pool s) a) (snd (handle_authorize C env (ce_job ce) (ce_cid ce)
      (Some (client_handler (srv_pool s))) True ev (bridge_of a (srv_pool s))))"
    using assms(1) by (intro balanced_authorize balanced_of_counts a others_bound assms(3)) (simp add: server_ok_def)
qed (simp_all add: on_authorize_def split_beta split: sum.splits)

lemma ok_subscribe: "server_ok s \<Longrightarrow> server_ok (on_subscribe env a ev s)"
proof -
  let ?p = "srv_pool s"
  let ?b = "fst (snd (handle_subscribe env (Some (client_handler ?p)) ev (bridge_of a ?p) (GLOBAL_NEXT_EXTRANONCE ?p)))"
  assume "server_ok s"
  then have "server_ok (s\<lparr>srv_pool := put_bridge a ?b ?p\<rparr>)"
    by (rule ok_put_quiet [where b = ?b]) (simp_all add: quiet)
  then have "server_ok ((s\<lparr>srv_pool := put_bridge a ?b ?p\<rparr>)\<lparr>srv_pool := srv_pool (on_subscribe env a ev s)\<rparr>)"
    by (rule ok_pool) (simp_all add: on_subscribe_def split_beta Let_def quiet)
  then show ?thesis by (rule ok_fields) (simp_all add: on_subscribe_def split_beta Let_def)
qed

lemma ok_submit: "server_ok s \<Longrightarrow> server_ok (on_submit C ce a ev s)"
  unfolding on_submit_def by (erule ok_run_quiet) (simp add: split_beta quiet)

lemma ok_frame:
  assumes "server_ok s" and "a \<in> served s" and "next_ctx (srv_pool s) < 2 ^ 32"
    and "handler_map C env envs a m = Some f"
  shows "server_ok (f ev s)"
proof -
  define s0 where "s0 = s\<lparr>srv_calls := srv_calls s + 1\<rparr>"
  have s0: "server_ok s0" "a \<in> served s0" "next_ctx (srv_pool s0) < 2 ^ 32"
    using assms(1-3) by (simp_all add: s0_def server_ok_def)
  show ?thesis
    using assms(4) unfolding handler_map_def
    by (auto intro!: s0 [unfolded s0_def] ok_subscribe ok_authorize ok_submit ok_run_quiet quiet
        simp: Suc_eq_plus1 simp del: One_nat_def split: if_splits)
qed

lemma ok_hang_up:
  assumes "server_ok s" and "a \<in> served s"
  shows "server_ok (hang_up_step t cor a s)"
proof -
  let ?p = "srv_pool s"
  have a: "a < next_ctx ?p" using assms by (simp add: server_ok_def)
  define b0 where "b0 = deactivate_client_vardiff t (bridge_of a ?p)"
  have b0: "balanced (others ?p a) b0" "\<not> vardiff_registered (conn b0)"
    using balanced_release balanced_of_counts [OF _ a] assms(1) by (auto simp: b0_def server_ok_def)
  obtain b h where q: "quiet_step b0 b" and p: "on_disconnect t cor a ?p = put_bridge a b (?p\<lparr>client_handler := h\<rparr>)"
  proof
    show "on_disconnect t cor a ?p = put_bridge a (bridge_of a (on_disconnect t cor a ?p))
        (?p\<lparr>client_handler := client_handler (on_disconnect t cor a ?p)\<rparr>)"
      by (simp add: on_disconnect_def Let_def put_bridge_def bridge_of_def)
    show "quiet_step b0 (bridge_of a (on_disconnect t cor a ?p))"
      unfolding on_disconnect_def Let_def split_beta b0_def [symmetric]
      by (auto intro!: quiet)
  qed
  have b: "balanced (others ?p a) b" "\<not> vardiff_registered (conn b)"
    using balanced_quiet [OF b0(1) q] q b0 by (simp_all add: quiet_step_def same_worker_def balanced_def)
  have "counts_ok (put_bridge a b ?p)"
    using assms(1) by (intro counts_put a b) (simp add: server_ok_def)
  then have "counts_ok (put_bridge a b (?p\<lparr>client_handler := h\<rparr>))"
    by (rule counts_cong) (simp_all add: put_bridge_def quiet)
  then show ?thesis using assms b by (auto simp: server_ok_def hang_up_step_def p)
qed

lemma same_live_tick: "same_live sh (vardiff_tick log2 now rate clamp sh)"
proof -
  have "active_connections (vardiff_tick1 log2 now e clamp v) = active_connections v" for e v
    by (simp add: vardiff_tick1_def Let_def split: option.splits)
  then have "active_connections (stats_heap (vardiff_tick log2 now rate clamp sh) a) = active_connections (stats_heap sh a)"
    if "table_ok sh" for a using that by (simp add: vardiff_tick_def tick_heap table_ok_def)
  then show ?thesis
    by (auto simp: same_live_def table_ok_tick live_def split: option.splits) (simp_all add: vardiff_tick_def)
qed

lemma same_live_prune: "same_live sh (prune_stats now sh)"
proof -
  have "stats_heap (prune_stats now sh) = stats_heap sh" by (simp add: prune_stats_def)
  then show ?thesis
    by (auto simp: same_live_def table_ok_prune live_def prune_get should_retain_vardiff_stats_def word_gt_0 split: option.splits)
qed

lemma same_worker_fold: "same_worker (cs x) (fold (\<lambda>a cs. cs(a := disconnect (cs a))) as cs x)"
proof (induction "as" arbitrary: cs)
  case (Cons a as)
  have "same_worker (cs x) ((cs(a := disconnect (cs a))) x)" by (simp add: quiet)
  then show ?case using same_worker_trans [OF _ Cons.IH [of "cs(a := disconnect (cs a))"]] by simp
qed (simp add: quiet)

lemma next_ctx_step: "server_step C H env log2 envs s s' \<Longrightarrow> next_ctx (srv_pool s) \<le> next_ctx (srv_pool s')"
  by (induction rule: server_step.induct)
    (auto simp: connect_step_def on_connect_def Let_def handler_map_def on_subscribe_def on_authorize_def on_submit_def
      hang_up_step_def on_disconnect_def drop_step_def metric_step_def watchdog_step_def job_step_def refresh_step_def new_block_available_def
      balance_task_def on_handler_def confirm_step_def disconnect_all_def split_beta split: option.splits sum.splits if_splits)

lemma ok_step:
  assumes "server_step C H env log2 envs s s'" and "server_ok s" and "next_ctx (srv_pool s) < 2 ^ 32"
  shows "server_ok s'"
  using assms
proof (induction rule: server_step.induct)
  case (connect s now addr port lport uid sock)
  then show ?case by (simp add: ok_connect)
next
  case (frame_in a s m f ev)
  then show ?case by (simp add: ok_frame)
next
  case (hang_up a s t corr)
  then show ?case by (simp add: ok_hang_up)
next
  case (drop s a)
  then show ?case unfolding drop_step_def by (intro ok_run_quiet) (auto intro!: quiet)
next
  case (metric s g)
  then show ?case unfolding metric_step_def by (intro ok_pool) (auto intro!: quiet)
next
  case (watchdog a s)
  then show ?case unfolding watchdog_step_def by (intro ok_run_quiet) (auto intro!: quiet)
next
  case (job a s je d)
  then show ?case unfolding job_step_def by (intro ok_run_quiet) (auto intro!: quiet)
next
  case (refresh s je uid)
  have "server_ok (snd (run_on a (immediate_job_start (client_handler (srv_pool s)) je) s))" for a
    using refresh by (intro ok_run_quiet) (auto intro!: quiet)
  then show ?case
    using refresh by (auto simp: refresh_step_def split_beta Let_def split: option.splits)
next
  case (new_block now s r p)
  then show ?case
    by (intro ok_pool) (auto simp: new_block_available_def Let_def quiet split: if_splits)
next
  case (balances s reply_of_node)
  then show ?case
    by (intro ok_pool) (auto simp: balance_task_def quiet split: sum.splits)
next
  case (shutdown s)
  then show ?case
    by (intro ok_pool) (simp_all add: disconnect_all_def Let_def same_worker_fold)
next
  case (confirm a s task colors secs)
  then show ?case
    unfolding confirm_step_def by (intro ok_run_quiet ok_handler) (auto intro!: quiet same_live_fields)
qed (auto intro!: ok_run_quiet ok_handler same_live_tick same_live_prune quiet)

lemma ok_reachable:
  assumes "reachable C H env log2 envs s" and "next_ctx (srv_pool s) < 2 ^ 32"
  shows "server_ok s"
  using assms
proof (induction rule: reachable.induct)
  case (start cfg bus api m cs now)
  have "table_ok (with_event_bus sh) = table_ok sh" "live (with_event_bus sh) k = live sh k" for sh k
    by (simp_all add: with_event_bus_def table_ok_def live_def split: option.splits)
  then show ?case
    by (auto simp: server_new_def Let_def server_ok_def counts_ok_def counted_for_def table_ok_new)
      (auto simp: live_def share_handler_new_def)
next
  case (step s s')
  then show ?case using ok_step next_ctx_step le_less_trans by blast
qed

section \<open>Who counts\<close>

text \<open>A miner that logs in with an address is registered from then on.\<close>

lemma identity_registers:
  assumes "address \<noteq> []"
  shows "vardiff_registered (conn (snd (set_identity t (Some h) address worker b)))
    \<and> ctx_ok (conn (snd (set_identity t (Some h) address worker b)))"
proof -
  define b1 where "b1 = deactivate_client_vardiff t b"
  define c where "c = ensure_default_worker_name (set_authorized_worker_name worker ((conn b1)\<lparr>wallet_addr := address\<rparr>))"
  have c: "ctx_ok c" "wallet_addr c = address"
    using same_worker_default [of "set_authorized_worker_name worker ((conn b1)\<lparr>wallet_addr := address\<rparr>)"] authorized_name(1)
    by (simp_all add: c_def same_worker_def WorkStats.frame set_authorized_worker_name_def)
  have "vardiff_registered (conn (activate_client_vardiff t b')) \<and> ctx_ok (conn (activate_client_vardiff t b'))"
    if "ctx_ok (conn b')" for b' :: "'a bridge"
    using that quiet_get_create [OF quiet_refl, of "b'\<lparr>conn := (conn b')\<lparr>vardiff_registered := True\<rparr>\<rparr>" t]
    by (auto simp: activate_client_vardiff_def claim_vardiff_registration_def split_beta Let_def quiet_step_def same_worker_def marked_same)
  then show ?thesis
    using c assms
    by (simp add: set_identity_def prepare_worker_identity_change_def b1_def [symmetric] c_def [symmetric]
        effective_worker_name_def Let_def sync_worker_prom_metrics_def)
qed

lemma authorize_registers:
  assumes "params ev = JStr login # rest" and "clean_wallet C (fst (split_login login)) = Inr address" and "address \<noteq> []"
  shows "vardiff_registered (conn (snd (handle_authorize C env je cor (Some h) api ev b)))"
proof -
  obtain raw worker canxium where l: "split_login login = (raw, worker, canxium)" by (metis prod_cases3)
  define password where "password = (case rest of [] \<Rightarrow> None | q # _ \<Rightarrow> as_str q)"
  define b2 where "b2 = snd (set_identity (je_time je) (Some h) address worker b)"
  have w: "login_wallet C env (Some h) raw b = (address, b)" using assms(2) l by (simp add: login_wallet_def)
  have "quiet_step b2 (authorize_identity C env (je_time je) cor (Some h) login password b)"
    unfolding authorize_identity_def Let_def split_beta b2_def l fst_conv snd_conv w by (auto intro!: quiet)
  then have "quiet_step b2 (snd (handle_authorize C env je cor (Some h) api ev b))"
    by (simp add: handle_authorize_def assms(1) as_str_def password_def [symmetric] quiet)
  moreover have "vardiff_registered (conn b2)" "ctx_ok (conn b2)"
    using identity_registers [OF assms(3), of "je_time je" h worker b] by (simp_all add: b2_def)
  ultimately show ?thesis by (simp add: quiet_step_def same_worker_def)
qed

section \<open>Properties\<close>

text \<open>
  C2: no connection is lost from the books or counted twice.  In every state that the server can
  reach, by any interleaving of connects, frames, job tasks, ticks, prunings and disconnects, the
  recorded number of live connections of each worker is the number of served connections that are
  registered under its key, as long as fewer than \<open>2 ^ 32\<close> connections were accepted.
\<close>

theorem live_connections_counted:
  assumes "reachable C H env log2 envs s" and "next_ctx (srv_pool s) < 2 ^ 32"
  shows "live (pool_handler (srv_pool s)) k
    = card {a \<in> served s. vardiff_registered (ctxs (srv_pool s) a) \<and> stats_key (ctxs (srv_pool s) a) = k}"
proof -
  have ok: "server_ok s" using assms by (rule ok_reachable)
  then have "{a \<in> served s. vardiff_registered (ctxs (srv_pool s) a) \<and> stats_key (ctxs (srv_pool s) a) = k}
      = counted_for (srv_pool s) k"
    by (auto simp: server_ok_def counted_for_def)
  then show ?thesis using ok by (simp add: server_ok_def counts_ok_def)
qed

text \<open>
  C27: every reachable state of the server is well formed: the keys of the worker table are unique, no
  two workers share their statistics, the next address for statistics is unused, the served
  connections exist, and a connection whose miner supplied a worker name has one that is not blank.
\<close>

theorem server_well_formed:
  assumes "reachable C H env log2 envs s" and "next_ctx (srv_pool s) < 2 ^ 32"
  shows "table_ok (pool_handler (srv_pool s)) \<and> (\<forall>a\<in>served s. a < next_ctx (srv_pool s) \<and> ctx_ok (ctxs (srv_pool s) a))"
proof -
  have "server_ok s" using assms by (rule ok_reachable)
  then show ?thesis by (auto simp: server_ok_def counts_ok_def)
qed

text \<open>One miner connects and logs in.\<close>

definition demo_config :: bridge_config where
  "demo_config = \<lparr>cfg_instance_id = ''i1'', cfg_stratum_port = '':5555'', cfg_stratum_ports = [],
     cfg_kaspad_address = [], cfg_prom_port = [], cfg_print_stats = False, cfg_log_to_file = False,
     cfg_health_check_port = [], cfg_block_wait_time = 1000, cfg_min_share_diff = Fin 64, cfg_var_diff = True,
     cfg_shares_per_min = 20, cfg_var_diff_stats = False, cfg_extranonce_size = 2, cfg_pow2_clamp = False,
     cfg_coinbase_tag_suffix = None, cfg_proxy_protocol = False, cfg_kaspa_common_protocol = False\<rparr>"

definition demo_call :: "nat call_env" where
  "demo_call = \<lparr>ce_submit = demo_env, ce_job = demo_je, ce_cid = 3\<rparr>"

definition demo_start :: "nat server" where
  "demo_start = server_new (\<lambda>x. x) demo_config False demo_api (metrics demo_subscriber) (\<lambda>_. demo_miner) 0"

definition demo_up :: "nat server" where
  "demo_up = connect_step 0 ''10.0.0.1'' 4000 5555 7 [] demo_start"

definition demo_auth :: json_rpc_event where
  "demo_auth = event_new (Some ''2'') ''mining.authorize'' [JStr ''zkas:w.rig'', JStr ''x'']"

definition demo_in :: "nat server" where
  "demo_in = on_authorize demo_consensus (\<lambda>_. None) demo_call 0 demo_auth (demo_up\<lparr>srv_calls := 1\<rparr>)"

lemma demo_in_reachable: "reachable demo_consensus (\<lambda>b. []) (\<lambda>_. None) (\<lambda>x. x) (\<lambda>_. demo_call) demo_in"
proof -
  have "reachable demo_consensus (\<lambda>b. []) (\<lambda>_. None) (\<lambda>x. x) (\<lambda>_. demo_call) demo_start"
    unfolding demo_start_def by (rule reachable.start)
  then have r: "reachable demo_consensus (\<lambda>b. []) (\<lambda>_. None) (\<lambda>x. x) (\<lambda>_. demo_call) demo_up"
    unfolding demo_up_def by (rule reachable.step) (rule server_step.connect)
  have up: "0 \<in> served demo_up" "srv_calls demo_up = 0"
    by (simp_all add: demo_up_def connect_step_def demo_start_def server_new_def Let_def)
  have "handler_map demo_consensus (\<lambda>_. None) (\<lambda>_. demo_call) 0 ''mining.authorize''
      = Some (\<lambda>ev s. on_authorize demo_consensus (\<lambda>_. None) demo_call 0 ev (s\<lparr>srv_calls := srv_calls s + 1\<rparr>))"
    by (simp add: handler_map_def)
  then have "server_step demo_consensus (\<lambda>b. []) (\<lambda>_. None) (\<lambda>x. x) (\<lambda>_. demo_call) demo_up
      (on_authorize demo_consensus (\<lambda>_. None) demo_call 0 demo_auth (demo_up\<lparr>srv_calls := srv_calls demo_up + 1\<rparr>))"
    by (rule server_step.frame_in [OF up(1)])
  from reachable.step [OF r this] show ?thesis by (simp add: demo_in_def up)
qed

lemma demo_in_facts:
  "served demo_in = {0}" "next_ctx (srv_pool demo_in) = 1" "vardiff_registered (ctxs (srv_pool demo_in) 0)"
proof -
  have w: "clean_wallet demo_consensus (fst (split_login ''zkas:w.rig'')) = Inr ''zkas:w''"
    unfolding demo_names fst_conv by (subst clean_wallet.simps) (simp add: demo_consensus_def)
  have "vardiff_registered (conn (snd (handle_authorize demo_consensus (\<lambda>_. None) je cor (Some h) api demo_auth b)))"
    for je cor h api and b :: "nat bridge"
    by (rule authorize_registers [OF _ w, of _ "[JStr ''x'']"]) (simp_all add: demo_auth_def event_new_def)
  then show "vardiff_registered (ctxs (srv_pool demo_in) 0)"
    by (simp add: demo_in_def on_authorize_def split_beta split: sum.splits)
  show "served demo_in = {0}" "next_ctx (srv_pool demo_in) = 1"
    by (simp_all add: demo_in_def on_authorize_def split_beta demo_up_def connect_step_def demo_start_def server_new_def
        on_connect_def Let_def split: sum.splits)
qed

lemma live_connections_counted_witness:
  "live (pool_handler (srv_pool demo_in)) (stats_key (ctxs (srv_pool demo_in) 0)) = 1"
proof -
  have "{a \<in> served demo_in. vardiff_registered (ctxs (srv_pool demo_in) a)
      \<and> stats_key (ctxs (srv_pool demo_in) a) = stats_key (ctxs (srv_pool demo_in) 0)} = {0}"
    using demo_in_facts by auto
  then show ?thesis
    using live_connections_counted [OF demo_in_reachable, of "stats_key (ctxs (srv_pool demo_in) 0)"] demo_in_facts(2) by simp
qed

lemma server_well_formed_witness: "table_ok (pool_handler (srv_pool demo_in)) \<and> ctx_ok (ctxs (srv_pool demo_in) 0)"
  using server_well_formed [OF demo_in_reachable] demo_in_facts(1,2) by simp

end
