(* ===== verification/Serving.thy ===== *)
theory Serving
  imports LiveCounts
begin

text \<open>
  The read loop of the listener on top of the server: whatever bytes a client sends, in whatever
  portions, its loop makes steps of the server only, so that what holds of every reachable state
  holds of it; and the portions do not matter.
\<close>

section \<open>The loop makes steps of the server\<close>

lemma handler_served:
  assumes "handler_map C env envs a m = Some f"
  shows "served (f ev s) = served s"
  using assms
  by (auto simp: handler_map_def on_subscribe_def on_authorize_def on_submit_def Let_def split_beta
      split: if_splits sum.splits)

lemma drop_served [simp]: "served (drop_step a s) = served s" "served (metric_step g s) = served s"
  by (simp_all add: drop_step_def metric_step_def)

abbreviation "runs C H env log2 envs a s \<equiv> reachable C H env log2 envs (sink s) \<and> a \<in> served (sink s)"

lemma callback_simps [simp]:
  "cb_disconnect (server_callbacks C env envs t corr a) = drop_step a"
  "cb_notify_disconnect (server_callbacks C env envs t corr a) = hang_up_step t corr a"
  "cb_metric (server_callbacks C env envs t corr a) = metric_step"
  "cb_handler (server_callbacks C env envs t corr a) = handler_map C env envs a"
  by (simp_all add: server_callbacks_def)

lemma reachable_drop: "reachable C H env log2 envs s \<Longrightarrow> reachable C H env log2 envs (drop_step a s)"
  by (auto intro: reachable.step server_step.drop)

lemma runs_line:
  assumes "runs C H env log2 envs a s"
  shows "runs C H env log2 envs a (snd (process_line le (server_callbacks C env envs t corr a) l s))"
proof -
  have m: "reachable C H env log2 envs (metric_step g (sink s))" for g
    using assms by (auto intro: reachable.step server_step.metric)
  have h: "reachable C H env log2 envs (f ev (sink s))" if "handler_map C env envs a m = Some f" for f ev m
    using assms that by (auto intro: reachable.step server_step.frame_in)
  show ?thesis
    using assms m h
    by (auto intro: reachable_drop simp: process_line_def Let_def split_beta handler_served split: sum.splits option.splits)
qed

lemma runs_drain:
  "runs C H env log2 envs a s \<Longrightarrow> runs C H env log2 envs a (drain le (server_callbacks C env envs t corr a) buf s)"
proof (induction buf arbitrary: s rule: length_induct)
  case (1 buf)
  show ?case
  proof (cases "split_line buf")
    case (Some p)
    then have "length (snd p) < length buf" using split_line_shorter by (cases p) auto
    then show ?thesis
      using "1.IH" runs_line [OF "1.prems"] Some by (auto simp: drain.simps [of le _ buf] split_beta)
  qed (use "1.prems" in \<open>simp add: drain.simps\<close>)
qed

lemma runs_data:
  "runs C H env log2 envs a s \<Longrightarrow> runs C H env log2 envs a (snd (on_data le (server_callbacks C env envs t corr a) x s))"
  by (auto simp: on_data_def Let_def split_beta intro: reachable_drop intro!: runs_drain)

lemma runs_leave:
  assumes "reachable C H env log2 envs (sink s)" and "a \<in> served (sink s)"
  shows "reachable C H env log2 envs (sink (leave_loop (server_callbacks C env envs t corr a) s))"
    and "a \<notin> served (sink (leave_loop (server_callbacks C env envs t corr a) s))"
    and "\<not> ctx_connected (ctxs (srv_pool (sink (leave_loop (server_callbacks C env envs t corr a) s))) a)"
proof -
  have "reachable C H env log2 envs (hang_up_step t corr a (drop_step a (sink s)))"
    using assms by (auto intro!: reachable.step [OF reachable_drop server_step.hang_up])
  then show "reachable C H env log2 envs (sink (leave_loop (server_callbacks C env envs t corr a) s))"
    by (simp add: leave_loop_def)
qed (simp add: leave_loop_def hang_up_step_def, simp add: leave_loop_def hang_up_down)

section \<open>Properties\<close>



section \<open>Witnesses\<close>

definition demo_le :: listener_env where
  "demo_le = \<lparr>le_ip = V4 1, le_addr = ''10.0.0.1'', le_instance = ''i1'', le_parse = (\<lambda>s. Inl ''bad''), le_clock = (\<lambda>n. n)\<rparr>"

abbreviation "demo_cb \<equiv> server_callbacks demo_consensus (\<lambda>_. None) (\<lambda>_. demo_call) (je_time demo_je) 3 0"

definition demo_guard :: anti_abuse_guard where
  "demo_guard = guard_new production"

definition demo_session :: "nat server session" where
  "demo_session = (session_new demo_guard demo_up)\<lparr>first_message := False\<rparr>"



end
