(* ===== verification/Dashboard.thy ===== *)
theory Dashboard
  imports Prom "HOL-Library.Multiset"
begin

text \<open>
  \<^verbatim>\<open>prom.rs\<close>, the reading side: how the metric families that the registry hands out become the
  numbers, blocks and workers of \<^verbatim>\<open>/api/stats\<close>.  The registry belongs to the metrics library, so that
  the families are an argument.  Counts are the \<^verbatim>\<open>u64\<close> values as \<open>nat\<close> with their saturation written
  out.  Hash maps are lists; where the code runs over one in its unspecified order, the model runs over
  the list.
\<close>

section \<open>Families\<close>

record sample =
  sm_labels :: "(string \<times> string) list"
  sm_counter :: f64
  sm_gauge :: f64

record family =
  fam_name :: string
  fam_samples :: "sample list"

definition sat_add :: "nat \<Rightarrow> nat \<Rightarrow> nat" where
  "sat_add a b = min (a + b) (2 ^ 64 - 1)"

definition metric_matches_instance :: "string \<Rightarrow> sample \<Rightarrow> bool" where
  "metric_matches_instance iid m \<longleftrightarrow> list_ex (\<lambda>(n, v). n = ''instance'' \<and> v = iid) (sm_labels m)"

fun filter_families :: "string \<Rightarrow> family list \<Rightarrow> family list" where
  "filter_families iid [] = []"
| "filter_families iid (f # fs) =
     (if \<not> list_ex (\<lambda>m. list_ex (\<lambda>(n, v). n = ''instance'') (sm_labels m)) (fam_samples f)
      then f # filter_families iid fs
      else let kept = filter (metric_matches_instance iid) (fam_samples f)
           in if kept = [] then filter_families iid fs
              else f\<lparr>fam_samples := kept\<rparr> # filter_families iid fs)"

text \<open>A label that occurs twice counts with its last value, one that is missing is empty.\<close>

definition label_value :: "string \<Rightarrow> (string \<times> string) list \<Rightarrow> string" where
  "label_value name ls = fold (\<lambda>(n, v) old. if n = name then v else old) ls []"

definition parse_worker_labels :: "(string \<times> string) list \<Rightarrow> string \<times> string \<times> string" where
  "parse_worker_labels ls = (label_value ''instance'' ls, label_value ''worker'' ls, label_value ''wallet'' ls)"

definition worker_key :: "string \<Rightarrow> string \<Rightarrow> string \<Rightarrow> string" where
  "worker_key iid w wal = iid @ '':'' @ w @ '':'' @ wal"

section \<open>The response\<close>

record internal_cpu_stats =
  cpu_hashrate_ghs :: f64
  cpu_hashes_tried :: nat
  cpu_blocks_submitted :: nat
  cpu_blocks_accepted :: nat
  cpu_shares :: nat
  cpu_stale :: nat
  cpu_invalid :: nat
  cpu_wallet :: string

record block_info =
  bi_instance :: string
  bi_worker :: string
  bi_wallet :: string
  bi_timestamp :: string
  bi_hash :: string
  bi_nonce :: string
  bi_bluescore :: string

record kas_block_info =
  kb_instance :: string
  kb_worker :: string
  kb_zkas_wallet :: string
  kb_kas_wallet :: string
  kb_timestamp :: string
  kb_hash :: string
  kb_nonce :: string
  kb_daa_score :: string
  kb_reward_sompi :: "nat option"

record worker_info =
  wi_instance :: string
  wi_worker :: string
  wi_wallet :: string
  wi_hashrate :: f64
  wi_shares :: nat
  wi_stale :: nat
  wi_invalid :: nat
  wi_blocks :: nat
  wi_kas_blocks :: nat
  wi_last_seen :: "nat option"
  wi_status :: "string option"
  wi_current_difficulty :: "f64 option"
  wi_session_uptime :: "nat option"

record stats_response =
  total_blocks :: nat
  total_kas_blocks :: nat
  total_shares :: nat
  network_hashrate :: nat
  network_difficulty :: f64
  network_block_count :: nat
  active_workers :: nat
  internal_cpu :: "internal_cpu_stats option"
  res_blocks :: "block_info list"
  res_kas_blocks :: "kas_block_info list"
  res_workers :: "worker_info list"
  bridge_uptime :: "nat option"

definition stats_new :: stats_response where
  "stats_new =
     \<lparr>total_blocks = 0, total_kas_blocks = 0, total_shares = 0, network_hashrate = 0, network_difficulty = Fin 0,
      network_block_count = 0, active_workers = 0, internal_cpu = None, res_blocks = [], res_kas_blocks = [],
      res_workers = [], bridge_uptime = None\<rparr>"

definition new_worker_info :: "string \<Rightarrow> string \<Rightarrow> string \<Rightarrow> worker_info" where
  "new_worker_info iid w wal =
     \<lparr>wi_instance = iid, wi_worker = w, wi_wallet = wal, wi_hashrate = Fin 0, wi_shares = 0, wi_stale = 0,
      wi_invalid = 0, wi_blocks = 0, wi_kas_blocks = 0, wi_last_seen = None, wi_status = None,
      wi_current_difficulty = None, wi_session_uptime = None\<rparr>"

section \<open>Network gauges and the internal miner\<close>

record cpu_gauges =
  cg_hashrate :: "f64 option"
  cg_hashes :: "nat option"
  cg_submitted :: "nat option"
  cg_accepted :: "nat option"

definition read_global_family :: "family \<Rightarrow> stats_response \<times> cpu_gauges \<Rightarrow> stats_response \<times> cpu_gauges" where
  "read_global_family f s =
     (case fam_samples f of
        [] \<Rightarrow> s
      | m # _ \<Rightarrow>
          (let (st, c) = s; name = fam_name f
           in if name = ''ks_estimated_network_hashrate_gauge''
              then (st\<lparr>network_hashrate := to_uint 64 (sm_gauge m)\<rparr>, c)
              else if name = ''ks_network_difficulty_gauge'' then (st\<lparr>network_difficulty := sm_gauge m\<rparr>, c)
              else if name \<in> {''ks_network_block_count'', ''ks_network_block_count_gauge''}
              then (st\<lparr>network_block_count := to_uint 64 (sm_gauge m)\<rparr>, c)
              else if name = ''ks_internal_cpu_hashrate_ghs'' then (st, c\<lparr>cg_hashrate := Some (sm_gauge m)\<rparr>)
              else if name = ''ks_internal_cpu_hashes_tried_total''
              then (st, c\<lparr>cg_hashes := Some (to_uint 64 (fmax (sm_counter m) (Fin 0)))\<rparr>)
              else if name = ''ks_internal_cpu_blocks_submitted_total''
              then (st, c\<lparr>cg_submitted := Some (to_uint 64 (fmax (sm_counter m) (Fin 0)))\<rparr>)
              else if name = ''ks_internal_cpu_blocks_accepted_total''
              then (st, c\<lparr>cg_accepted := Some (to_uint 64 (fmax (sm_counter m) (Fin 0)))\<rparr>)
              else (st, c)))"

definition show_internal_cpu :: "string \<Rightarrow> cpu_gauges \<Rightarrow> internal_cpu_stats option" where
  "show_internal_cpu wallet c =
     (let submitted = the_default 0 (cg_submitted c);
          accepted = the_default 0 (cg_accepted c);
          hashes = the_default 0 (cg_hashes c);
          rate = the_default (Fin 0) (cg_hashrate c)
      in if wallet \<noteq> [] \<or> 0 < submitted \<or> 0 < accepted \<or> 0 < hashes \<or> flt (Fin 0) rate
         then Some \<lparr>cpu_hashrate_ghs = rate, cpu_hashes_tried = hashes, cpu_blocks_submitted = submitted,
                cpu_blocks_accepted = accepted, cpu_shares = accepted, cpu_stale = submitted - accepted,
                cpu_invalid = 0, cpu_wallet = wallet\<rparr>
         else None)"

definition read_global :: "string \<Rightarrow> family list \<Rightarrow> stats_response" where
  "read_global wallet fs =
     (let (st, c) = fold read_global_family fs
            (stats_new, \<lparr>cg_hashrate = None, cg_hashes = None, cg_submitted = None, cg_accepted = None\<rparr>)
      in st\<lparr>internal_cpu := show_internal_cpu wallet c\<rparr>)"

section \<open>Workers and blocks\<close>

text \<open>What the second pass gathers beside the response.\<close>

record scan =
  sc_stats :: stats_response
  sc_workers :: "(string, worker_info) hash_map"
  sc_hash_values :: "(string, f64) hash_map"
  sc_starts :: "(string, f64) hash_map"
  sc_difficulties :: "(string, f64) hash_map"
  sc_block_set :: "string list"
  sc_kas_block_set :: "string list"

definition scan_new :: "stats_response \<Rightarrow> scan" where
  "scan_new st = \<lparr>sc_stats = st, sc_workers = [], sc_hash_values = [], sc_starts = [], sc_difficulties = [],
     sc_block_set = [], sc_kas_block_set = []\<rparr>"

text \<open>\<^verbatim>\<open>entry(key).or_insert_with(new).modify(f)\<close>\<close>

definition with_worker :: "string \<Rightarrow> string \<Rightarrow> string \<Rightarrow> (worker_info \<Rightarrow> worker_info) \<Rightarrow> scan \<Rightarrow> scan" where
  "with_worker iid w wal f s =
     (let k = worker_key iid w wal
      in s\<lparr>sc_workers := hm_insert k (f (the_default (new_worker_info iid w wal) (hm_get (sc_workers s) k))) (sc_workers s)\<rparr>)"

definition read_kas_block :: "sample \<Rightarrow> scan \<Rightarrow> scan" where
  "read_kas_block m s =
     (let ls = sm_labels m; h = label_value ''hash'' ls
      in if fle (sm_gauge m) (Fin 0) \<or> h = [] \<or> h \<in> set (sc_kas_block_set s) then s
         else let st = sc_stats s;
                  info = \<lparr>kb_instance = label_value ''instance'' ls, kb_worker = label_value ''worker'' ls,
                     kb_zkas_wallet = label_value ''zkas_wallet'' ls, kb_kas_wallet = label_value ''kas_wallet'' ls,
                     kb_timestamp = label_value ''timestamp'' ls, kb_hash = h, kb_nonce = label_value ''nonce'' ls,
                     kb_daa_score = label_value ''daa_score'' ls,
                     kb_reward_sompi = parse_uint 10 64 (label_value ''reward_sompi'' ls)\<rparr>
              in s\<lparr>sc_kas_block_set := h # sc_kas_block_set s,
                   sc_stats := st\<lparr>res_kas_blocks := res_kas_blocks st @ [info],
                                  total_kas_blocks := sat_add (total_kas_blocks st) 1\<rparr>\<rparr>)"

definition read_kas_count :: "sample \<Rightarrow> scan \<Rightarrow> scan" where
  "read_kas_count m s =
     (let ls = sm_labels m; w = label_value ''worker'' ls
      in if w = [] then s
         else with_worker (label_value ''instance'' ls) w (label_value ''zkas_wallet'' ls)
                (\<lambda>i. i\<lparr>wi_kas_blocks := sat_add (wi_kas_blocks i) (to_uint 64 (sm_counter m))\<rparr>) s)"

definition read_block :: "sample \<Rightarrow> scan \<Rightarrow> scan" where
  "read_block m s =
     (let ls = sm_labels m; h = label_value ''hash'' ls
      in if \<not> flt (Fin 0) (sm_gauge m) \<or> h = [] \<or> h \<in> set (sc_block_set s) then s
         else let st = sc_stats s;
                  info = \<lparr>bi_instance = label_value ''instance'' ls, bi_worker = label_value ''worker'' ls,
                     bi_wallet = label_value ''wallet'' ls, bi_timestamp = label_value ''timestamp'' ls, bi_hash = h,
                     bi_nonce = label_value ''nonce'' ls, bi_bluescore = label_value ''bluescore'' ls\<rparr>
              in s\<lparr>sc_block_set := h # sc_block_set s,
                   sc_stats := st\<lparr>res_blocks := res_blocks st @ [info], total_blocks := total_blocks st + 1\<rparr>\<rparr>)"

text \<open>The families whose samples belong to a worker.\<close>

definition for_worker :: "sample \<Rightarrow> (string \<Rightarrow> scan \<Rightarrow> scan) \<Rightarrow> (worker_info \<Rightarrow> worker_info) \<Rightarrow> scan \<Rightarrow> scan" where
  "for_worker m before f s =
     (let (iid, w, wal) = parse_worker_labels (sm_labels m)
      in if w = [] then s else with_worker iid w wal f (before (worker_key iid w wal) s))"

definition read_block_count :: "sample \<Rightarrow> scan \<Rightarrow> scan" where
  "read_block_count m =
     for_worker m (\<lambda>_ s. s) (\<lambda>i. i\<lparr>wi_blocks := sat_add (wi_blocks i) (to_uint 64 (sm_counter m))\<rparr>)"

definition read_hash_value :: "sample \<Rightarrow> scan \<Rightarrow> scan" where
  "read_hash_value m =
     for_worker m (\<lambda>k s. s\<lparr>sc_hash_values :=
         hm_insert k (fadd (the_default (Fin 0) (hm_get (sc_hash_values s) k)) (sm_counter m)) (sc_hash_values s)\<rparr>)
       (\<lambda>i. i)"

definition read_shares :: "sample \<Rightarrow> scan \<Rightarrow> scan" where
  "read_shares m =
     (let n = to_uint 64 (sm_counter m)
      in for_worker m (\<lambda>_ s. s\<lparr>sc_stats := (sc_stats s)\<lparr>total_shares := sat_add (total_shares (sc_stats s)) n\<rparr>\<rparr>)
           (\<lambda>i. i\<lparr>wi_shares := sat_add (wi_shares i) n\<rparr>))"

definition read_invalid :: "sample \<Rightarrow> scan \<Rightarrow> scan" where
  "read_invalid m =
     (let n = to_uint 64 (sm_counter m); kind = label_value ''type'' (sm_labels m)
      in for_worker m (\<lambda>_ s. s)
           (\<lambda>i. if kind = ''stale'' then i\<lparr>wi_stale := sat_add (wi_stale i) n\<rparr>
               else if kind = ''invalid'' then i\<lparr>wi_invalid := sat_add (wi_invalid i) n\<rparr> else i))"

definition earlier_start :: "f64 \<Rightarrow> f64 option \<Rightarrow> f64" where
  "earlier_start t old =
     (case old of
        None \<Rightarrow> t
      | Some v \<Rightarrow> if flt (Fin 0) t \<and> (fle v (Fin 0) \<or> flt t v) then t else v)"

definition read_start_time :: "sample \<Rightarrow> scan \<Rightarrow> scan" where
  "read_start_time m =
     for_worker m (\<lambda>k s. s\<lparr>sc_starts := hm_insert k (earlier_start (sm_gauge m) (hm_get (sc_starts s) k)) (sc_starts s)\<rparr>)
       (\<lambda>i. i)"

definition read_difficulty :: "sample \<Rightarrow> scan \<Rightarrow> scan" where
  "read_difficulty m =
     for_worker m (\<lambda>k s. if flt (Fin 0) (sm_gauge m) then s\<lparr>sc_difficulties := hm_insert k (sm_gauge m) (sc_difficulties s)\<rparr>
                         else s)
       (\<lambda>i. i)"

definition read_network_rate :: "sample list \<Rightarrow> scan \<Rightarrow> scan" where
  "read_network_rate ms s =
     (case ms of [] \<Rightarrow> s | m # _ \<Rightarrow> s\<lparr>sc_stats := (sc_stats s)\<lparr>network_hashrate := to_uint 64 (sm_gauge m)\<rparr>\<rparr>)"

definition scan_family :: "family \<Rightarrow> scan \<Rightarrow> scan" where
  "scan_family f s =
     (let name = fam_name f; ms = fam_samples f
      in if name = ''ks_merged_kas_blocks_gauge'' then fold read_kas_block ms s
         else if name = ''ks_merged_kas_blocks_accepted_total'' then fold read_kas_count ms s
         else if name = ''ks_mined_blocks_gauge'' then fold read_block ms s
         else if name = ''ks_blocks_mined'' then fold read_block_count ms s
         else if name = ''ks_valid_share_diff_counter'' then fold read_hash_value ms s
         else if name = ''ks_valid_share_counter'' then fold read_shares ms s
         else if name = ''ks_invalid_share_counter'' then fold read_invalid ms s
         else if name = ''ks_estimated_network_hashrate'' then read_network_rate ms s
         else if name = ''ks_worker_start_time'' then fold read_start_time ms s
         else if name = ''ks_worker_current_difficulty'' then fold read_difficulty ms s
         else s)"

section \<open>Hash rates\<close>

text \<open>The rates of the workers in \<open>GH/s\<close>, and their sum, added in the order of the map.\<close>

definition rate_worker :: "f64 \<Rightarrow> scan \<Rightarrow> string \<times> worker_info \<Rightarrow> (string \<times> worker_info) \<times> f64 option" where
  "rate_worker current_time s e =
     (case e of (k, w) \<Rightarrow>
        (case (hm_get (sc_hash_values s) k, hm_get (sc_starts s) k) of
           (Some gained, Some since) \<Rightarrow>
             (let elapsed = fsub current_time since
              in if flt (Fin 0) elapsed \<and> flt (Fin 0) gained
                 then ((k, w\<lparr>wi_hashrate := fdiv gained elapsed\<rparr>), Some (fdiv gained elapsed))
                 else ((k, w), None))
         | _ \<Rightarrow> ((k, w), None)))"

definition rate_workers :: "f64 \<Rightarrow> scan \<Rightarrow> (string, worker_info) hash_map \<times> f64" where
  "rate_workers current_time s =
     (map (\<lambda>e. fst (rate_worker current_time s e)) (sc_workers s),
      fold (\<lambda>e sum. case snd (rate_worker current_time s e) of Some r \<Rightarrow> fadd sum r | None \<Rightarrow> sum) (sc_workers s) (Fin 0))"

definition network_rate_fallback :: "f64 \<Rightarrow> stats_response \<Rightarrow> stats_response" where
  "network_rate_fallback total_ghs st =
     (if network_hashrate st = 0 \<and> flt (Fin 0) total_ghs
      then st\<lparr>network_hashrate := to_uint 64 (fmul total_ghs (Fin (10 ^ 9)))\<rparr> else st)"

section \<open>Active workers\<close>

text \<open>
  Instants are nanoseconds of the monotonic clock, Unix times are seconds.  \<open>None\<close>: the worker is not
  listed.
\<close>

definition WORKER_INACTIVITY_TIMEOUT :: nat where
  "WORKER_INACTIVITY_TIMEOUT = 300 * 10 ^ 9"

definition WORKER_IDLE_THRESHOLD :: nat where
  "WORKER_IDLE_THRESHOLD = 60 * 10 ^ 9"

definition add_session :: "nat \<Rightarrow> scan \<Rightarrow> string \<Rightarrow> worker_info \<Rightarrow> worker_info" where
  "add_session unix_secs s k w =
     (let w = (case hm_get (sc_difficulties s) k of
                 Some d \<Rightarrow> if flt (Fin 0) d then w\<lparr>wi_current_difficulty := Some d\<rparr> else w
               | None \<Rightarrow> w)
      in case hm_get (sc_starts s) k of
           Some t \<Rightarrow> if flt (Fin 0) t then w\<lparr>wi_session_uptime := Some (unix_secs - to_uint 64 t)\<rparr> else w
         | None \<Rightarrow> w)"

definition seen_online :: "nat \<Rightarrow> worker_info \<Rightarrow> worker_info" where
  "seen_online unix_secs w = w\<lparr>wi_last_seen := Some unix_secs, wi_status := Some ''online''\<rparr>"

definition list_worker :: "nat \<Rightarrow> nat \<Rightarrow> scan \<Rightarrow> string \<times> worker_info \<Rightarrow> (string, nat) hash_map
    \<Rightarrow> worker_info option \<times> (string, nat) hash_map" where
  "list_worker now unix_secs s e activity =
     (case e of (k, w) \<Rightarrow>
        (let w = add_session unix_secs s k w
         in case hm_get activity k of
              Some t \<Rightarrow>
                (if t \<le> now
                 then let d = now - t
                      in if d \<le> WORKER_INACTIVITY_TIMEOUT
                         then (Some (w\<lparr>wi_last_seen := Some (unix_secs - d div 10 ^ 9),
                                      wi_status := Some (if d \<le> WORKER_IDLE_THRESHOLD then ''online'' else ''idle'')\<rparr>), activity)
                         else (None, hm_remove k activity)
                 else (Some (seen_online unix_secs w), hm_insert k now activity))
            | None \<Rightarrow>
                (case hm_get (sc_starts s) k of
                   Some t \<Rightarrow>
                     (if unix_secs - to_uint 64 t < 60 \<and> 0 < wi_shares w
                      then (Some (seen_online unix_secs w), hm_insert k now activity) else (None, activity))
                 | None \<Rightarrow> (None, activity))))"

fun list_workers :: "nat \<Rightarrow> nat \<Rightarrow> scan \<Rightarrow> (string \<times> worker_info) list \<Rightarrow> (string, nat) hash_map
    \<Rightarrow> worker_info list \<times> (string, nat) hash_map" where
  "list_workers now unix_secs s [] activity = ([], activity)"
| "list_workers now unix_secs s (e # es) activity =
     (let (r, activity) = list_worker now unix_secs s e activity;
          (ws, activity) = list_workers now unix_secs s es activity
      in (case r of Some w \<Rightarrow> w # ws | None \<Rightarrow> ws, activity))"

section \<open>The internal miner\<close>

text \<open>
  Its last blocks, newest first, without duplicates and at most \<open>INTERNAL_CPU_RECENT_BLOCKS_LIMIT\<close>.
\<close>

record internal_cpu_block =
  cb_timestamp_unix :: nat
  cb_bluescore :: u64
  cb_nonce :: u64
  cb_hash :: string

definition INTERNAL_CPU_RECENT_BLOCKS_LIMIT :: nat where
  "INTERNAL_CPU_RECENT_BLOCKS_LIMIT = 256"

definition record_internal_cpu_recent_block :: "string \<Rightarrow> u64 \<Rightarrow> u64 \<Rightarrow> nat \<Rightarrow> internal_cpu_block list
    \<Rightarrow> internal_cpu_block list" where
  "record_internal_cpu_recent_block h nonce_val bluescore unix_secs q =
     (if trim h = [] \<or> h \<in> set (map cb_hash q) then q
      else take INTERNAL_CPU_RECENT_BLOCKS_LIMIT
             (\<lparr>cb_timestamp_unix = unix_secs, cb_bluescore = bluescore, cb_nonce = nonce_val, cb_hash = h\<rparr> # q))"

text \<open>The counters of the metrics library only grow: a snapshot adds the difference.\<close>

definition counter_step :: "nat \<Rightarrow> f64 \<Rightarrow> f64" where
  "counter_step n current = (if to_uint 64 current < n then of_n (n - to_uint 64 current) else Fin 0)"

definition snapshot_rate :: "f64 \<Rightarrow> f64" where
  "snapshot_rate hashrate_ghs = (if is_finite hashrate_ghs \<and> fle (Fin 0) hashrate_ghs then hashrate_ghs else Fin 0)"

definition set_internal_cpu_mining_address :: "string \<Rightarrow> string option \<Rightarrow> string option" where
  "set_internal_cpu_mining_address addr old =
     (if trim addr = [] then old else case old of Some a \<Rightarrow> Some a | None \<Rightarrow> Some (trim addr))"

text \<open>Folding it into the response; \<open>seen\<close> are the hashes listed so far.\<close>

fun add_cpu_blocks :: "string \<Rightarrow> internal_cpu_block list \<Rightarrow> string list \<Rightarrow> block_info list \<Rightarrow> block_info list" where
  "add_cpu_blocks wallet [] seen bs = bs"
| "add_cpu_blocks wallet (b # q) seen bs =
     (if cb_hash b = [] \<or> cb_hash b \<in> set seen then add_cpu_blocks wallet q seen bs
      else add_cpu_blocks wallet q (cb_hash b # seen)
             (bs @ [\<lparr>bi_instance = ''-'', bi_worker = ''InternalCPU'', bi_wallet = wallet,
                     bi_timestamp = show_nat (cb_timestamp_unix b), bi_hash = cb_hash b,
                     bi_nonce = show_nat (unat (cb_nonce b)), bi_bluescore = show_nat (unat (cb_bluescore b))\<rparr>]))"

definition add_internal_cpu :: "internal_cpu_block list \<Rightarrow> string list \<Rightarrow> stats_response \<Rightarrow> stats_response" where
  "add_internal_cpu recent seen st =
     (case internal_cpu st of
        None \<Rightarrow> st\<lparr>active_workers := length (res_workers st)\<rparr>
      | Some c \<Rightarrow>
          st\<lparr>active_workers := length (res_workers st) + 1,
             total_blocks := sat_add (total_blocks st) (cpu_blocks_accepted c),
             total_shares := sat_add (total_shares st) (cpu_blocks_accepted c),
             res_blocks := add_cpu_blocks (cpu_wallet c) recent seen (res_blocks st)\<rparr>)"

section \<open>The statistics\<close>

text \<open>Sorting is stable, the greatest first; text that is no number counts as zero.\<close>

definition number_of :: "string \<Rightarrow> nat" where
  "number_of s = the_default 0 (parse_uint 10 64 s)"

definition sort_response :: "stats_response \<Rightarrow> stats_response" where
  "sort_response st =
     st\<lparr>res_blocks := sort_key (\<lambda>b. - int (number_of (bi_bluescore b))) (res_blocks st),
        res_kas_blocks := sort_key (\<lambda>b. - int (number_of (kb_timestamp b))) (res_kas_blocks st),
        res_workers := sort_key (\<lambda>w. - int (wi_blocks w)) (res_workers st)\<rparr>"

record stats_env =
  se_now :: nat
  se_unix_secs :: nat
  se_cpu_wallet :: "string option"
  se_recent :: "internal_cpu_block list"
  se_bridge_start :: "nat option"

definition get_stats_json_filtered :: "string option \<Rightarrow> stats_env \<Rightarrow> family list \<Rightarrow> (string, nat) hash_map
    \<Rightarrow> stats_response \<times> (string, nat) hash_map" where
  "get_stats_json_filtered instance_id e gathered activity =
     (let fs = (case instance_id of Some iid \<Rightarrow> filter_families iid gathered | None \<Rightarrow> gathered);
          s = fold scan_family fs (scan_new (read_global (the_default [] (se_cpu_wallet e)) gathered));
          (workers, total_ghs) = rate_workers (of_n (se_unix_secs e)) s;
          st = network_rate_fallback total_ghs (sc_stats s);
          (listed, activity) = list_workers (se_now e) (se_unix_secs e) s workers activity;
          st = sort_response (add_internal_cpu (se_recent e) (sc_block_set s) (st\<lparr>res_workers := listed\<rparr>));
          st = (case se_bridge_start e of
                  Some t \<Rightarrow> st\<lparr>bridge_uptime := Some ((se_now e - t) div 10 ^ 9)\<rparr> | None \<Rightarrow> st)
      in (st, activity))"

definition get_stats_json :: "string \<Rightarrow> stats_env \<Rightarrow> family list \<Rightarrow> (string, nat) hash_map
    \<Rightarrow> stats_response \<times> (string, nat) hash_map" where
  "get_stats_json instance_id = get_stats_json_filtered (Some instance_id)"

definition get_stats_json_all :: "stats_env \<Rightarrow> family list \<Rightarrow> (string, nat) hash_map
    \<Rightarrow> stats_response \<times> (string, nat) hash_map" where
  "get_stats_json_all = get_stats_json_filtered None"

section \<open>What a pass keeps\<close>

lemma fold_keeps: "(\<And>m s. P s \<Longrightarrow> P (f m s)) \<Longrightarrow> P s \<Longrightarrow> P (fold f ms s)"
  by (induction ms arbitrary: s) auto

lemma if_keeps: "P a \<Longrightarrow> P b \<Longrightarrow> P (if c then a else b)"
  by simp

text \<open>
  A predicate on scans that every kind of sample keeps is kept by the whole pass.
\<close>

locale scan_invariant =
  fixes P :: "scan \<Rightarrow> bool"
  assumes kas_block: "P s \<Longrightarrow> P (read_kas_block m s)" and kas_count: "P s \<Longrightarrow> P (read_kas_count m s)"
    and block: "P s \<Longrightarrow> P (read_block m s)" and block_count: "P s \<Longrightarrow> P (read_block_count m s)"
    and hash_value: "P s \<Longrightarrow> P (read_hash_value m s)" and share_count: "P s \<Longrightarrow> P (read_shares m s)"
    and bad_count: "P s \<Longrightarrow> P (read_invalid m s)" and net_rate: "P s \<Longrightarrow> P (read_network_rate ms s)"
    and start_time: "P s \<Longrightarrow> P (read_start_time m s)" and share_diff: "P s \<Longrightarrow> P (read_difficulty m s)"
begin

lemma family_keeps: "P s \<Longrightarrow> P (scan_family f s)"
  unfolding scan_family_def Let_def
  by (intro if_keeps [where P = P] fold_keeps [where P = P] net_rate)
    (simp_all add: kas_block kas_count block block_count hash_value share_count bad_count start_time share_diff)

lemma families_keep: "P s \<Longrightarrow> P (fold scan_family fs s)"
  by (rule fold_keeps) (rule family_keeps)

end

text \<open>The blocks of a scan have the hashes of its set, each once, and are counted.\<close>

definition blocks_ok :: "scan \<Rightarrow> bool" where
  "blocks_ok s \<longleftrightarrow>
     map bi_hash (res_blocks (sc_stats s)) = rev (sc_block_set s) \<and> distinct (sc_block_set s) \<and> [] \<notin> set (sc_block_set s)
     \<and> total_blocks (sc_stats s) = length (sc_block_set s)
     \<and> map kb_hash (res_kas_blocks (sc_stats s)) = rev (sc_kas_block_set s) \<and> distinct (sc_kas_block_set s)
     \<and> [] \<notin> set (sc_kas_block_set s) \<and> total_kas_blocks (sc_stats s) = min (length (sc_kas_block_set s)) (2 ^ 64 - 1)"

lemma with_worker_fields [simp]:
  "sc_stats (with_worker i w wal f s) = sc_stats s" "sc_block_set (with_worker i w wal f s) = sc_block_set s"
  "sc_kas_block_set (with_worker i w wal f s) = sc_kas_block_set s"
  by (simp_all add: with_worker_def Let_def)

lemma blocks_ok_with [simp]: "blocks_ok (with_worker i w wal f s) = blocks_ok s"
  by (simp add: blocks_ok_def)

lemma blocks_ok_upd [simp]:
  "blocks_ok (s\<lparr>sc_hash_values := x\<rparr>) = blocks_ok s" "blocks_ok (s\<lparr>sc_starts := x\<rparr>) = blocks_ok s"
  "blocks_ok (s\<lparr>sc_difficulties := x\<rparr>) = blocks_ok s"
  "blocks_ok (s\<lparr>sc_stats := (sc_stats s)\<lparr>total_shares := n\<rparr>\<rparr>) = blocks_ok s"
  "blocks_ok (s\<lparr>sc_stats := (sc_stats s)\<lparr>network_hashrate := n\<rparr>\<rparr>) = blocks_ok s"
  by (simp_all add: blocks_ok_def)

lemma blocks_ok_for [simp]: "(\<And>k. blocks_ok (before k s) = blocks_ok s) \<Longrightarrow> blocks_ok s \<Longrightarrow> blocks_ok (for_worker m before f s)"
  by (simp add: for_worker_def split_beta)

lemmas read_worker_defs = read_block_count_def read_hash_value_def read_shares_def read_invalid_def read_start_time_def
  read_difficulty_def Let_def

interpretation blocks: scan_invariant blocks_ok
proof unfold_locales
  show "blocks_ok s \<Longrightarrow> blocks_ok (read_kas_block m s)" for s m
    by (auto simp: read_kas_block_def Let_def blocks_ok_def sat_add_def)
  show "blocks_ok s \<Longrightarrow> blocks_ok (read_block m s)" for s m
    by (auto simp: read_block_def Let_def blocks_ok_def)
  show "blocks_ok s \<Longrightarrow> blocks_ok (read_kas_count m s)" for s m
    by (simp add: read_kas_count_def Let_def)
  show "blocks_ok s \<Longrightarrow> blocks_ok (read_network_rate ms s)" for s ms
    by (simp add: read_network_rate_def split: list.split)
qed (simp_all add: read_worker_defs)

text \<open>The shares of the workers add up to the total.\<close>

definition shares_sum :: "(string, worker_info) hash_map \<Rightarrow> nat" where
  "shares_sum m = sum_list (map wi_shares (hm_values m))"

definition shares_ok :: "scan \<Rightarrow> bool" where
  "shares_ok s \<longleftrightarrow> hm_wf (sc_workers s)
     \<and> (total_shares (sc_stats s) < 2 ^ 64 - 1 \<longrightarrow> shares_sum (sc_workers s) = total_shares (sc_stats s))"

lemma shares_sum_insert:
  "hm_wf m \<Longrightarrow> shares_sum (hm_insert k v m) + (case hm_get m k of Some w \<Rightarrow> wi_shares w | None \<Rightarrow> 0)
     = shares_sum m + wi_shares v"
proof (induction m)
  case (Cons e m)
  have "fst e = k \<Longrightarrow> k \<notin> fst ` set m" using Cons.prems by (auto simp: hm_wf_def)
  with Cons show ?case by (cases e) (auto simp: shares_sum_def hm_wf_def split: option.splits)
qed (simp add: shares_sum_def)

lemma shares_sum_with:
  assumes "hm_wf (sc_workers s)" "\<And>i. wi_shares (f i) = wi_shares i + n"
  shows "shares_sum (sc_workers (with_worker i w wal f s)) = shares_sum (sc_workers s) + n"
  using shares_sum_insert [OF assms(1), of "worker_key i w wal"
      "f (the_default (new_worker_info i w wal) (hm_get (sc_workers s) (worker_key i w wal)))"]
  by (auto simp: with_worker_def Let_def assms(2) new_worker_info_def split: option.splits)

text \<open>Samples that leave the shares alone, and the one that counts them.\<close>

definition spares_shares :: "scan \<Rightarrow> scan \<Rightarrow> bool" where
  "spares_shares s s' \<longleftrightarrow> sc_workers s' = sc_workers s \<and> total_shares (sc_stats s') = total_shares (sc_stats s)"

lemma shares_ok_spared: "shares_ok s \<Longrightarrow> spares_shares s s' \<Longrightarrow> shares_ok s'"
  by (simp add: shares_ok_def spares_shares_def)

lemma hm_wf_with: "hm_wf (sc_workers s) \<Longrightarrow> hm_wf (sc_workers (with_worker i w wal f s))"
  by (simp add: with_worker_def Let_def hm_wf_insert)

lemma shares_ok_with:
  assumes "shares_ok s" "\<And>i. wi_shares (f i) = wi_shares i"
  shows "shares_ok (with_worker i w wal f s)"
  using assms shares_sum_with [of s f 0] hm_wf_with by (auto simp: shares_ok_def)

lemma shares_ok_for:
  "\<lbrakk>shares_ok s; \<And>k. spares_shares s (before k s); \<And>i. wi_shares (f i) = wi_shares i\<rbrakk> \<Longrightarrow> shares_ok (for_worker m before f s)"
  by (auto simp: for_worker_def split_beta intro: shares_ok_with shares_ok_spared)

lemma worker_shares_le: "hm_get m k = Some v \<Longrightarrow> wi_shares v \<le> shares_sum m"
  unfolding shares_sum_def by (rule member_le_sum_list) (auto dest!: map_of_SomeD intro: rev_image_eqI)

lemma shares_ok_counted:
  assumes "shares_ok s"
  shows "shares_ok (with_worker i w wal (\<lambda>i. i\<lparr>wi_shares := sat_add (wi_shares i) n\<rparr>)
    (s\<lparr>sc_stats := (sc_stats s)\<lparr>total_shares := sat_add (total_shares (sc_stats s)) n\<rparr>\<rparr>))"
    (is "shares_ok (with_worker i w wal ?f ?s)")
proof -
  let ?k = "worker_key i w wal" and ?m = "sc_workers s" and ?t = "total_shares (sc_stats s)"
  let ?old = "the_default (new_worker_info i w wal) (hm_get ?m ?k)"
  have wf: "hm_wf ?m" using assms by (simp add: shares_ok_def)
  have "shares_sum (hm_insert ?k (?f ?old) ?m) = ?t + n" if lim: "sat_add ?t n < 2 ^ 64 - 1"
  proof -
    have t: "?t + n < 2 ^ 64 - 1" using lim by (auto simp: sat_add_def min_def split: if_splits)
    then have s: "shares_sum ?m = ?t" using assms by (auto simp: shares_ok_def)
    have "wi_shares ?old \<le> ?t"
      using worker_shares_le [of ?m ?k] s by (cases "hm_get ?m ?k") (simp_all add: new_worker_info_def)
    then have "wi_shares (?f ?old) = wi_shares ?old + n" using t by (auto simp: sat_add_def)
    then show ?thesis
      using shares_sum_insert [OF wf, of ?k "?f ?old"] s
      by (auto simp: new_worker_info_def split: option.splits)
  qed
  moreover have "sat_add ?t n = ?t + n" if "sat_add ?t n < 2 ^ 64 - 1"
    using that by (auto simp: sat_add_def min_def split: if_splits)
  ultimately show ?thesis using wf by (simp add: shares_ok_def with_worker_def Let_def hm_wf_insert)
qed

interpretation shares: scan_invariant shares_ok
proof unfold_locales
  show "shares_ok s \<Longrightarrow> shares_ok (read_kas_block m s)" for s m
    by (erule shares_ok_spared) (simp add: spares_shares_def read_kas_block_def Let_def)
  show "shares_ok s \<Longrightarrow> shares_ok (read_block m s)" for s m
    by (erule shares_ok_spared) (simp add: spares_shares_def read_block_def Let_def)
  show "shares_ok s \<Longrightarrow> shares_ok (read_network_rate ms s)" for s ms
    by (erule shares_ok_spared) (simp add: spares_shares_def read_network_rate_def split: list.split)
  show "shares_ok s \<Longrightarrow> shares_ok (read_kas_count m s)" for s m
    by (auto simp: read_kas_count_def Let_def intro: shares_ok_with)
  show "shares_ok s \<Longrightarrow> shares_ok (read_shares m s)" for s m
    by (simp add: read_shares_def for_worker_def Let_def split_beta shares_ok_counted)
qed (auto simp: read_worker_defs spares_shares_def intro!: shares_ok_for)

section \<open>From the scan to the response\<close>

definition uncounted :: "stats_response \<Rightarrow> bool" where
  "uncounted st \<longleftrightarrow> res_blocks st = [] \<and> res_kas_blocks st = [] \<and> total_blocks st = 0 \<and> total_kas_blocks st = 0
     \<and> total_shares st = 0"

lemma uncounted_global_family: "uncounted (fst s) \<Longrightarrow> uncounted (fst (read_global_family f s))"
  unfolding read_global_family_def Let_def split_beta
  by (cases "fam_samples f")
    (simp_all only: list.case, intro if_keeps [where P = "\<lambda>r. uncounted (fst r)"], simp_all add: uncounted_def)

lemma uncounted_global: "uncounted (read_global wallet fs)"
proof -
  have "uncounted (fst (fold read_global_family fs (stats_new, c)))" for c
    by (rule fold_keeps [where P = "\<lambda>s. uncounted (fst s)"])
      (simp_all add: uncounted_global_family, simp add: uncounted_def stats_new_def)
  then show ?thesis by (simp add: read_global_def split_beta uncounted_def)
qed

lemma scan_new_ok: "uncounted st \<Longrightarrow> blocks_ok (scan_new st)" "uncounted st \<Longrightarrow> shares_ok (scan_new st)"
  by (simp_all add: uncounted_def scan_new_def blocks_ok_def shares_ok_def shares_sum_def)

lemma scanned_ok:
  "blocks_ok (fold scan_family fs (scan_new (read_global wallet gathered)))"
  "shares_ok (fold scan_family fs (scan_new (read_global wallet gathered)))"
  by (simp_all add: blocks.families_keep shares.families_keep scan_new_ok uncounted_global)

lemma add_cpu_blocks_hashes:
  "\<lbrakk>distinct (map bi_hash bs); set (map bi_hash bs) = set seen; [] \<notin> set seen\<rbrakk>
   \<Longrightarrow> distinct (map bi_hash (add_cpu_blocks wallet q seen bs)) \<and> [] \<notin> set (map bi_hash (add_cpu_blocks wallet q seen bs))"
proof (induction wallet q seen bs rule: add_cpu_blocks.induct)
  case (2 wallet b q seen bs)
  then show ?case by (cases "cb_hash b = [] \<or> cb_hash b \<in> set seen") auto
qed auto

lemma rate_worker_shares: "wi_shares (snd (fst (rate_worker t s e))) = wi_shares (snd e)"
  by (simp add: rate_worker_def Let_def split: prod.split option.split)

lemma rate_workers_shares: "map (wi_shares \<circ> snd) (fst (rate_workers t s)) = map (wi_shares \<circ> snd) (sc_workers s)"
  by (simp add: rate_workers_def rate_worker_shares)

lemma list_worker_shares:
  "fst (list_worker now secs s e act) = Some w \<Longrightarrow> wi_shares w = wi_shares (snd e)"
  by (auto simp: list_worker_def add_session_def seen_online_def Let_def split: prod.splits option.splits if_splits)

lemma list_workers_shares:
  "sum_list (map wi_shares (fst (list_workers now secs s es act))) \<le> sum_list (map (wi_shares \<circ> snd) es)"
proof (induction es arbitrary: act)
  case (Cons e es)
  show ?case
    using Cons.IH [of "snd (list_worker now secs s e act)"] list_worker_shares [of now secs s e act]
    by (auto simp: Let_def split_beta split: option.split intro: le_trans trans_le_add2)
qed simp

lemma sort_key_sorted: "sorted_wrt (\<lambda>a b. g b \<le> g a) (sort_key (\<lambda>x. - int (g x)) xs)"
  using sorted_sort_key [of "\<lambda>x. - int (g x)" xs] by (simp add: sorted_wrt_map)

lemma sort_key_distinct: "distinct (map h (sort_key k xs)) = distinct (map h xs)"
  by (metis mset_eq_imp_distinct_iff mset_map mset_sort)

text \<open>The response in terms of a scan.\<close>

lemma stats_result:
  assumes "get_stats_json_filtered iid e gathered act = (st, act')"
  obtains s r up listed where "blocks_ok s" "shares_ok s"
    "st = (sort_response (add_internal_cpu (se_recent e) (sc_block_set s)
        ((network_rate_fallback r (sc_stats s))\<lparr>res_workers := listed\<rparr>)))\<lparr>bridge_uptime := up\<rparr>"
    "sum_list (map wi_shares listed) \<le> shares_sum (sc_workers s)"
proof -
  define fs where "fs = (case iid of Some i \<Rightarrow> filter_families i gathered | None \<Rightarrow> gathered)"
  define s where "s = fold scan_family fs (scan_new (read_global (the_default [] (se_cpu_wallet e)) gathered))"
  define ws where "ws = rate_workers (of_n (se_unix_secs e)) s"
  define listed where "listed = fst (list_workers (se_now e) (se_unix_secs e) s (fst ws) act)"
  define st1 where "st1 = sort_response (add_internal_cpu (se_recent e) (sc_block_set s)
        ((network_rate_fallback (snd ws) (sc_stats s))\<lparr>res_workers := listed\<rparr>))"
  have "st = (case se_bridge_start e of
           Some t \<Rightarrow> st1\<lparr>bridge_uptime := Some ((se_now e - t) div 10 ^ 9)\<rparr> | None \<Rightarrow> st1)"
    using assms unfolding get_stats_json_filtered_def Let_def split_beta fs_def [symmetric] s_def [symmetric]
      ws_def [symmetric] listed_def [symmetric] st1_def [symmetric] by simp
  then have "\<exists>up. st = st1\<lparr>bridge_uptime := up\<rparr>"
    by (cases "se_bridge_start e") (auto intro: exI [of _ "bridge_uptime st1"])
  moreover have "sum_list (map wi_shares listed) \<le> shares_sum (sc_workers s)"
    using list_workers_shares [of "se_now e" "se_unix_secs e" s "fst ws" act]
    by (simp add: listed_def ws_def rate_workers_shares shares_sum_def)
  moreover have "blocks_ok s" "shares_ok s" by (simp_all add: s_def scanned_ok)
  ultimately show thesis using that unfolding st1_def by blast
qed

section \<open>Properties\<close>


text \<open>
  The workers that are listed never show more shares together than the total, however many
  series a worker has and whatever is left out as inactive.
\<close>

lemma listed_shares_within_total:
  assumes "get_stats_json_filtered iid e gathered act = (st, act')" "total_shares st < 2 ^ 64 - 1"
  shows "sum_list (map wi_shares (res_workers st)) \<le> total_shares st"
proof -
  obtain s r up listed where ok: "shares_ok s" and st: "st = (sort_response (add_internal_cpu (se_recent e) (sc_block_set s)
        ((network_rate_fallback r (sc_stats s))\<lparr>res_workers := listed\<rparr>)))\<lparr>bridge_uptime := up\<rparr>"
      and le: "sum_list (map wi_shares listed) \<le> shares_sum (sc_workers s)"
    using assms(1) by (rule stats_result)
  have "total_shares (sc_stats s) \<le> total_shares st" "mset (res_workers st) = mset listed"
    using assms(2) unfolding st
    by (auto simp: sort_response_def add_internal_cpu_def network_rate_fallback_def sat_add_def split: option.split)
  moreover from this(2) have "sum_list (map wi_shares (res_workers st)) = sum_list (map wi_shares listed)"
    by (metis mset_map sum_mset_sum_list)
  ultimately show ?thesis using ok assms(2) le by (auto simp: shares_ok_def)
qed

section \<open>Witnesses\<close>

definition demo_labels :: "(string \<times> string) list" where
  "demo_labels = [(''instance'', ''i''), (''worker'', ''w''), (''wallet'', ''z'')]"

definition demo_families :: "family list" where
  "demo_families =
     [\<lparr>fam_name = ''ks_mined_blocks_gauge'',
        fam_samples = [\<lparr>sm_labels = (''hash'', ''h1'') # (''bluescore'', ''7'') # demo_labels, sm_counter = Fin 0, sm_gauge = Fin 1\<rparr>,
          \<lparr>sm_labels = (''hash'', ''h2'') # (''bluescore'', ''9'') # demo_labels, sm_counter = Fin 0, sm_gauge = Fin 1\<rparr>,
          \<lparr>sm_labels = (''hash'', ''h1'') # demo_labels, sm_counter = Fin 0, sm_gauge = Fin 1\<rparr>]\<rparr>,
      \<lparr>fam_name = ''ks_valid_share_counter'',
        fam_samples = [\<lparr>sm_labels = demo_labels, sm_counter = Fin 5, sm_gauge = Fin 0\<rparr>,
          \<lparr>sm_labels = (''miner'', ''x'') # demo_labels, sm_counter = Fin 3, sm_gauge = Fin 0\<rparr>]\<rparr>]"

definition demo_stats_env :: stats_env where
  "demo_stats_env = \<lparr>se_now = 10 ^ 9, se_unix_secs = 1000, se_cpu_wallet = None, se_recent = [], se_bridge_start = None\<rparr>"

definition demo_stats :: "stats_response \<times> (string, nat) hash_map" where
  "demo_stats = get_stats_json_filtered None demo_stats_env demo_families [(''i:w:z'', 0)]"

lemma demo_global: "read_global [] demo_families = stats_new"
  by (simp add: read_global_def read_global_family_def demo_families_def show_internal_cpu_def stats_new_def flt_def Let_def)

lemma demo_scan: "total_shares (sc_stats (fold scan_family demo_families (scan_new stats_new))) = 8"
    "internal_cpu (sc_stats (fold scan_family demo_families (scan_new stats_new))) = None"
  by (simp_all add: demo_families_def scan_family_def read_block_def read_shares_def for_worker_def parse_worker_labels_def
      label_value_def demo_labels_def scan_new_def stats_new_def flt_def sat_add_def to_uint_def with_worker_def Let_def)

lemma demo_total: "total_shares (fst demo_stats) = 8"
  by (simp add: demo_stats_def get_stats_json_filtered_def demo_stats_env_def demo_global demo_scan split_beta sort_response_def
      add_internal_cpu_def network_rate_fallback_def Let_def)


lemma listed_shares_within_total_witness: "sum_list (map wi_shares (res_workers (fst demo_stats))) \<le> 8"
  using listed_shares_within_total [of None demo_stats_env demo_families "[(''i:w:z'', 0)]" "fst demo_stats" "snd demo_stats"]
  by (simp add: demo_total flip: demo_stats_def)

end
