(* ===== verification/Config.thy ===== *)
theory Config
  imports Server
begin

text \<open>
  \<^verbatim>\<open>app_config.rs\<close>, \<^verbatim>\<open>cli.rs\<close> and the part of \<^verbatim>\<open>main.rs\<close> that makes the configuration
  of one server: the configuration file after the YAML library, the command line after the argument
  parser, and how the two are put together.  Durations are milliseconds.
\<close>

section \<open>Data\<close>

record instance_config =
  ic_stratum_port :: string
  ic_min_share_diff :: f64
  ic_prom_port :: "string option"
  ic_log_to_file :: "bool option"
  ic_block_wait_time :: "nat option"
  ic_extranonce_size :: "u8 option"
  ic_var_diff :: "bool option"
  ic_shares_per_min :: "u32 option"
  ic_var_diff_stats :: "bool option"
  ic_pow2_clamp :: "bool option"
  ic_kaspa_common_protocol :: bool

record global_config =
  gc_kaspad_address :: string
  gc_merged_kaspa_address :: string
  gc_merged_kaspa_pay_address :: string
  gc_block_wait_time :: nat
  gc_print_stats :: bool
  gc_log_to_file :: bool
  gc_health_check_port :: string
  gc_web_dashboard_port :: string
  gc_var_diff :: bool
  gc_shares_per_min :: u32
  gc_var_diff_stats :: bool
  gc_extranonce_size :: u8
  gc_pow2_clamp :: bool
  gc_coinbase_tag_suffix :: "string option"

record app_config =
  ac_global :: global_config
  ac_instances :: "instance_config list"

definition default_instance :: instance_config where
  "default_instance =
     \<lparr>ic_stratum_port = '':5555'', ic_min_share_diff = Fin 8192, ic_prom_port = None, ic_log_to_file = None,
      ic_block_wait_time = None, ic_extranonce_size = None, ic_var_diff = None, ic_shares_per_min = None,
      ic_var_diff_stats = None, ic_pow2_clamp = None, ic_kaspa_common_protocol = False\<rparr>"

definition default_global :: global_config where
  "default_global =
     \<lparr>gc_kaspad_address = ''localhost:16110'', gc_merged_kaspa_address = [], gc_merged_kaspa_pay_address = [],
      gc_block_wait_time = 1000, gc_print_stats = True, gc_log_to_file = True, gc_health_check_port = [],
      gc_web_dashboard_port = [], gc_var_diff = True, gc_shares_per_min = 20, gc_var_diff_stats = False,
      gc_extranonce_size = 0, gc_pow2_clamp = False, gc_coinbase_tag_suffix = None\<rparr>"

definition default_config :: app_config where
  "default_config = \<lparr>ac_global = default_global, ac_instances = [default_instance]\<rparr>"

datatype config_error =
    Yaml string
  | DurationNotNumber
  | InstancesEmpty
  | InstancePortMissing nat
  | DuplicatePort string
  | InvalidBool string
  | SpecPortEmpty string
  | InvalidNumber string string
  | UnknownInstanceKey string string
  | SpecPortMissing string
  | SpecDiffMissing string
  | MixedInstanceFlags
  | NotOneInstance

section \<open>Fields of the file\<close>

datatype yaml_value = YNull | YBool bool | YInt int | YFloat f64 | YString string | YOther

definition deserialize_port :: "string \<Rightarrow> string" where
  "deserialize_port = normalize_port"

definition nonblank :: "string \<Rightarrow> string option" where
  "nonblank s = (if s = [] then None else Some s)"

definition deserialize_optional_port :: "string option \<Rightarrow> string option" where
  "deserialize_optional_port s = Option.bind s (\<lambda>s. nonblank (normalize_port s))"

text \<open>
  An integer of the YAML library is in the range of \<^verbatim>\<open>i64\<close> or of \<^verbatim>\<open>u64\<close>; the cast of a negative
  one wraps, that of a float saturates.
\<close>

definition duration_ms :: "yaml_value \<Rightarrow> config_error + nat" where
  "duration_ms v =
     (case v of
        YInt i \<Rightarrow> Inr (if - (2 ^ 63) \<le> i \<and> i < 2 ^ 63 then nat (i mod 2 ^ 64) else to_uint 64 (of_n (nat i)))
      | YFloat f \<Rightarrow> Inr (to_uint 64 f)
      | _ \<Rightarrow> Inl DurationNotNumber)"

definition deserialize_duration_ms :: "yaml_value \<Rightarrow> config_error + nat" where
  "deserialize_duration_ms v = duration_ms v"

definition deserialize_optional_duration_ms :: "yaml_value \<Rightarrow> config_error + nat option" where
  "deserialize_optional_duration_ms v =
     (if v = YNull then Inr None
      else case duration_ms v of Inl e \<Rightarrow> Inl e | Inr ms \<Rightarrow> Inr (Some ms))"

definition deserialize_coinbase_tag_suffix :: "string option \<Rightarrow> string option" where
  "deserialize_coinbase_tag_suffix s = Option.bind s (\<lambda>s. nonblank (trim s))"

definition serialize_duration_ms :: "nat \<Rightarrow> yaml_value" where
  "serialize_duration_ms ms = YInt (int (ms mod 2 ^ 64))"

definition serialize_optional_duration_ms :: "nat option \<Rightarrow> yaml_value" where
  "serialize_optional_duration_ms d = (case d of Some ms \<Rightarrow> serialize_duration_ms ms | None \<Rightarrow> YNull)"

section \<open>The file\<close>

text \<open>
  What the YAML library makes of the text: the fields as plain serde reads them (\<^verbatim>\<open>#[serde(default)]\<close>
  gives an absent field its default), those with a deserialiser of their own not yet run through it.
  A wait that is absent stays \<open>None\<close>.
\<close>

record config_raw =
  raw_global :: global_config
  raw_block_wait_time :: "yaml_value option"
  raw_instances :: "(instance_config \<times> yaml_value option) list option"
  raw_stratum_port :: "string option"
  raw_min_share_diff :: "f64 option"
  raw_prom_port :: "string option"

definition deserialize_instance :: "instance_config \<times> yaml_value option \<Rightarrow> config_error + instance_config" where
  "deserialize_instance f =
     (case f of (c, wait) \<Rightarrow>
        (case (case wait of Some v \<Rightarrow> deserialize_optional_duration_ms v | None \<Rightarrow> Inr None) of
           Inl e \<Rightarrow> Inl e
         | Inr ms \<Rightarrow> Inr (c\<lparr>ic_stratum_port := deserialize_port (ic_stratum_port c),
                         ic_prom_port := deserialize_optional_port (ic_prom_port c), ic_block_wait_time := ms\<rparr>)))"

definition deserialize_global :: "config_raw \<Rightarrow> config_error + global_config" where
  "deserialize_global raw =
     (case (case raw_block_wait_time raw of Some v \<Rightarrow> deserialize_duration_ms v
            | None \<Rightarrow> Inr (gc_block_wait_time default_global)) of
        Inl e \<Rightarrow> Inl e
      | Inr ms \<Rightarrow>
          (let g = raw_global raw
           in Inr (g\<lparr>gc_block_wait_time := ms, gc_web_dashboard_port := deserialize_port (gc_web_dashboard_port g),
                    gc_coinbase_tag_suffix := deserialize_coinbase_tag_suffix (gc_coinbase_tag_suffix g)\<rparr>)))"

text \<open>The first error of a list of results, or all values.\<close>

fun all_of :: "('e + 'a) list \<Rightarrow> 'e + 'a list" where
  "all_of [] = Inr []"
| "all_of (r # rs) =
     (case r of Inl e \<Rightarrow> Inl e | Inr v \<Rightarrow> (case all_of rs of Inl e \<Rightarrow> Inl e | Inr vs \<Rightarrow> Inr (v # vs)))"

fun first_duplicate :: "string list \<Rightarrow> string list \<Rightarrow> string option" where
  "first_duplicate seen [] = None"
| "first_duplicate seen (p # ps) = (if p \<in> set seen then Some p else first_duplicate (p # seen) ps)"

fun first_without_port :: "nat \<Rightarrow> instance_config list \<Rightarrow> nat option" where
  "first_without_port i [] = None"
| "first_without_port i (c # cs) = (if ic_stratum_port c = [] then Some i else first_without_port (i + 1) cs)"

definition single_instance :: "config_raw \<Rightarrow> instance_config" where
  "single_instance raw =
     default_instance\<lparr>ic_prom_port := deserialize_optional_port (raw_prom_port raw),
       ic_stratum_port :=
         the_default (ic_stratum_port default_instance) (deserialize_optional_port (raw_stratum_port raw)),
       ic_min_share_diff := the_default (ic_min_share_diff default_instance) (raw_min_share_diff raw)\<rparr>"

definition checked_instances :: "instance_config list \<Rightarrow> config_error + instance_config list" where
  "checked_instances cs =
     (if cs = [] then Inl InstancesEmpty
      else (case first_without_port 0 cs of Some i \<Rightarrow> Inl (InstancePortMissing i) | None \<Rightarrow> Inr cs))"

definition instances_of :: "config_raw \<Rightarrow> config_error + instance_config list" where
  "instances_of raw =
     (case raw_instances raw of
        Some fs \<Rightarrow> (case all_of (map deserialize_instance fs) of Inl e \<Rightarrow> Inl e | Inr cs \<Rightarrow> checked_instances cs)
      | None \<Rightarrow> Inr [single_instance raw])"

definition from_yaml :: "(string \<Rightarrow> string + config_raw) \<Rightarrow> string \<Rightarrow> config_error + app_config" where
  "from_yaml parse content =
     (case parse content of
        Inl e \<Rightarrow> Inl (Yaml e)
      | Inr raw \<Rightarrow>
          (case deserialize_global raw of
             Inl e \<Rightarrow> Inl e
           | Inr g \<Rightarrow>
               (case instances_of raw of
                  Inl e \<Rightarrow> Inl e
                | Inr cs \<Rightarrow>
                    (case first_duplicate [] (map ic_stratum_port cs) of
                       Some p \<Rightarrow> Inl (DuplicatePort p)
                     | None \<Rightarrow> Inr \<lparr>ac_global = g, ac_instances = cs\<rparr>))))"

text \<open>
  \<^verbatim>\<open>initialize_config\<close>: the first candidate path that exists is the file; without one the defaults
  hold.  A file that cannot be read or parsed ends the process.
\<close>

datatype 'a loaded = Loaded 'a | Exits

definition candidates :: "(string \<Rightarrow> string \<Rightarrow> string) \<Rightarrow> (string \<Rightarrow> bool) \<Rightarrow> string option \<Rightarrow> string option \<Rightarrow> string
    \<Rightarrow> string list" where
  "candidates join is_relative exe_base exe_root path =
     [path, join ''bridge'' path]
     @ (if is_relative path
        then (case exe_base of Some b \<Rightarrow> [join b path] | None \<Rightarrow> [])
          @ (case exe_root of Some r \<Rightarrow> [join r path, join (join r ''bridge'') path] | None \<Rightarrow> [])
        else [])"

fun initialize_config :: "(string \<Rightarrow> string + config_raw) \<Rightarrow> (string \<Rightarrow> string option option) \<Rightarrow> string list
    \<Rightarrow> app_config loaded" where
  "initialize_config parse file [] = Loaded default_config"
| "initialize_config parse file (p # ps) =
     (case file p of
        None \<Rightarrow> initialize_config parse file ps
      | Some None \<Rightarrow> Exits
      | Some (Some content) \<Rightarrow> (case from_yaml parse content of Inl e \<Rightarrow> Exits | Inr c \<Rightarrow> Loaded c))"

section \<open>The command line\<close>

datatype node_mode = External | Inprocess

definition parse_bool :: "string \<Rightarrow> config_error + bool" where
  "parse_bool s =
     (let t = to_lower (trim s)
      in if t \<in> {''true'', ''1'', ''yes'', ''y'', ''on'', ''enable'', ''enabled''} then Inr True
         else if t \<in> {''false'', ''0'', ''no'', ''n'', ''off'', ''disable'', ''disabled''} then Inr False
         else Inl (InvalidBool s))"

text \<open>The loop of \<^verbatim>\<open>parse_instance_spec\<close> carries the instance and the two flags.\<close>

record spec_state =
  sp_instance :: instance_config
  has_port :: bool
  has_diff :: bool

definition spec_start :: spec_state where
  "spec_start =
     \<lparr>sp_instance = default_instance\<lparr>ic_stratum_port := [], ic_min_share_diff := Fin 0\<rparr>,
      has_port = False, has_diff = False\<rparr>"

definition spec_entry :: "string \<Rightarrow> string \<times> string" where
  "spec_entry part = (case split_once (CHR ''='') part of Some (k, v) \<Rightarrow> (trim k, trim v) | None \<Rightarrow> (''port'', part))"

text \<open>A value of the entry goes into the instance, or its text is reported.\<close>

definition spec_put :: "config_error + 'v \<Rightarrow> ('v \<Rightarrow> instance_config \<Rightarrow> instance_config) \<Rightarrow> spec_state
    \<Rightarrow> config_error + spec_state" where
  "spec_put r f st =
     (case r of Inl e \<Rightarrow> Inl e | Inr v \<Rightarrow> Inr (st\<lparr>sp_instance := f v (sp_instance st)\<rparr>))"

definition spec_number :: "string \<Rightarrow> string \<Rightarrow> 'v option \<Rightarrow> config_error + 'v" where
  "spec_number name v r = (case r of None \<Rightarrow> Inl (InvalidNumber name v) | Some n \<Rightarrow> Inr n)"

definition spec_part :: "string \<Rightarrow> string \<Rightarrow> string \<Rightarrow> spec_state \<Rightarrow> config_error + spec_state" where
  "spec_part spec k v st =
     (let key = to_lower k
      in if key \<in> {''port'', ''stratum'', ''stratum_port''} then
           (let p = normalize_port v
            in if p = [] then Inl (SpecPortEmpty spec)
               else Inr (st\<lparr>sp_instance := (sp_instance st)\<lparr>ic_stratum_port := p\<rparr>, has_port := True\<rparr>))
         else if key \<in> {''prom'', ''prom_port''} then
           spec_put (Inr (nonblank (normalize_port v))) (\<lambda>p c. c\<lparr>ic_prom_port := p\<rparr>) st
         else if key \<in> {''diff'', ''min_share_diff''} then
           (case spec_number ''min_share_diff'' v (parse_f64 v) of
              Inl e \<Rightarrow> Inl e
            | Inr d \<Rightarrow> Inr (st\<lparr>sp_instance := (sp_instance st)\<lparr>ic_min_share_diff := d\<rparr>, has_diff := True\<rparr>))
         else if key \<in> {''wait'', ''block_wait_time''} then
           spec_put (spec_number ''block_wait_time'' v (parse_uint 10 64 v)) (\<lambda>n c. c\<lparr>ic_block_wait_time := Some n\<rparr>) st
         else if key \<in> {''extranonce'', ''extranonce_size''} then
           spec_put (spec_number ''extranonce_size'' v (parse_uint 10 8 v))
             (\<lambda>n c. c\<lparr>ic_extranonce_size := Some (of_nat n)\<rparr>) st
         else if key \<in> {''log'', ''log_to_file''} then
           spec_put (parse_bool v) (\<lambda>b c. c\<lparr>ic_log_to_file := Some b\<rparr>) st
         else if key = ''var_diff'' then spec_put (parse_bool v) (\<lambda>b c. c\<lparr>ic_var_diff := Some b\<rparr>) st
         else if key = ''shares_per_min'' then
           spec_put (spec_number ''shares_per_min'' v (parse_uint 10 32 v))
             (\<lambda>n c. c\<lparr>ic_shares_per_min := Some (of_nat n)\<rparr>) st
         else if key = ''var_diff_stats'' then spec_put (parse_bool v) (\<lambda>b c. c\<lparr>ic_var_diff_stats := Some b\<rparr>) st
         else if key = ''pow2_clamp'' then spec_put (parse_bool v) (\<lambda>b c. c\<lparr>ic_pow2_clamp := Some b\<rparr>) st
         else Inl (UnknownInstanceKey k spec))"

fun spec_loop :: "string \<Rightarrow> string list \<Rightarrow> spec_state \<Rightarrow> config_error + spec_state" where
  "spec_loop spec [] st = Inr st"
| "spec_loop spec (raw_part # parts) st =
     (let part = trim raw_part
      in if part = [] then spec_loop spec parts st
         else (let (k, v) = spec_entry part
               in case spec_part spec k v st of Inl e \<Rightarrow> Inl e | Inr st' \<Rightarrow> spec_loop spec parts st'))"

definition parse_instance_spec :: "string \<Rightarrow> f64 option \<Rightarrow> config_error + instance_config" where
  "parse_instance_spec spec default_min_share_diff =
     (case spec_loop spec (split_at (\<lambda>c. c = CHR '','') spec) spec_start of
        Inl e \<Rightarrow> Inl e
      | Inr st \<Rightarrow>
          if \<not> has_port st then Inl (SpecPortMissing spec)
          else if has_diff st then Inr (sp_instance st)
          else (case default_min_share_diff of
                  Some d \<Rightarrow> Inr ((sp_instance st)\<lparr>ic_min_share_diff := d\<rparr>)
                | None \<Rightarrow> Inl (SpecDiffMissing spec)))"

text \<open>
  The flags the bridge's configuration reads.  \<^verbatim>\<open>config\<close>, \<^verbatim>\<open>appdir\<close> and the arguments of the node are
  paths and text handed on.
\<close>

record cli =
  cli_config :: "string option"
  cli_testnet :: bool
  cli_node_mode :: "node_mode option"
  cli_appdir :: "string option"
  cli_kaspad_args :: "string list"
  cli_kaspad_address :: "string option"
  cli_block_wait_time :: "nat option"
  cli_print_stats :: "bool option"
  cli_log_to_file :: "bool option"
  cli_health_check_port :: "string option"
  cli_web_dashboard_port :: "string option"
  cli_var_diff :: "bool option"
  cli_shares_per_min :: "u32 option"
  cli_var_diff_stats :: "bool option"
  cli_extranonce_size :: "u8 option"
  cli_pow2_clamp :: "bool option"
  cli_coinbase_tag_suffix :: "string option"
  cli_stratum_port :: "string option"
  cli_min_share_diff :: "f64 option"
  cli_prom_port :: "string option"
  cli_instances :: "string list"
  cli_instance_log_to_file :: "bool option"
  cli_instance_var_diff :: "bool option"
  cli_instance_shares_per_min :: "u32 option"
  cli_instance_var_diff_stats :: "bool option"
  cli_instance_pow2_clamp :: "bool option"

definition block_wait_duration :: "cli \<Rightarrow> nat option" where
  "block_wait_duration c = cli_block_wait_time c"

definition override_global :: "cli \<Rightarrow> global_config \<Rightarrow> global_config" where
  "override_global c g =
     g\<lparr>gc_kaspad_address := the_default (gc_kaspad_address g) (cli_kaspad_address c),
       gc_block_wait_time := the_default (gc_block_wait_time g) (block_wait_duration c),
       gc_print_stats := the_default (gc_print_stats g) (cli_print_stats c),
       gc_log_to_file := the_default (gc_log_to_file g) (cli_log_to_file c),
       gc_health_check_port := the_default (gc_health_check_port g) (cli_health_check_port c),
       gc_web_dashboard_port :=
         (case cli_web_dashboard_port c of Some p \<Rightarrow> normalize_port p | None \<Rightarrow> gc_web_dashboard_port g),
       gc_var_diff := the_default (gc_var_diff g) (cli_var_diff c),
       gc_shares_per_min := the_default (gc_shares_per_min g) (cli_shares_per_min c),
       gc_var_diff_stats := the_default (gc_var_diff_stats g) (cli_var_diff_stats c),
       gc_extranonce_size := the_default (gc_extranonce_size g) (cli_extranonce_size c),
       gc_pow2_clamp := the_default (gc_pow2_clamp g) (cli_pow2_clamp c),
       gc_coinbase_tag_suffix :=
         (case cli_coinbase_tag_suffix c of Some s \<Rightarrow> nonblank (trim s) | None \<Rightarrow> gc_coinbase_tag_suffix g)\<rparr>"

text \<open>The flags that only make sense for a single instance, without the difficulty.\<close>

definition single_flags :: "cli \<Rightarrow> bool" where
  "single_flags c \<longleftrightarrow>
     cli_stratum_port c \<noteq> None \<or> cli_prom_port c \<noteq> None \<or> cli_instance_log_to_file c \<noteq> None
     \<or> cli_instance_var_diff c \<noteq> None \<or> cli_instance_shares_per_min c \<noteq> None
     \<or> cli_instance_var_diff_stats c \<noteq> None \<or> cli_instance_pow2_clamp c \<noteq> None"

definition or_some :: "'v option \<Rightarrow> 'v option \<Rightarrow> 'v option" where
  "or_some flag old = (case flag of Some v \<Rightarrow> Some v | None \<Rightarrow> old)"

definition override_instance :: "cli \<Rightarrow> instance_config \<Rightarrow> instance_config" where
  "override_instance c i =
     i\<lparr>ic_stratum_port := (case cli_stratum_port c of Some p \<Rightarrow> normalize_port p | None \<Rightarrow> ic_stratum_port i),
       ic_min_share_diff := the_default (ic_min_share_diff i) (cli_min_share_diff c),
       ic_prom_port := or_some (map_option normalize_port (cli_prom_port c)) (ic_prom_port i),
       ic_log_to_file := or_some (cli_instance_log_to_file c) (ic_log_to_file i),
       ic_var_diff := or_some (cli_instance_var_diff c) (ic_var_diff i),
       ic_shares_per_min := or_some (cli_instance_shares_per_min c) (ic_shares_per_min i),
       ic_var_diff_stats := or_some (cli_instance_var_diff_stats c) (ic_var_diff_stats i),
       ic_pow2_clamp := or_some (cli_instance_pow2_clamp c) (ic_pow2_clamp i)\<rparr>"

definition listed_instances :: "cli \<Rightarrow> config_error + instance_config list" where
  "listed_instances c =
     (if single_flags c then Inl MixedInstanceFlags
      else (case all_of (map (\<lambda>spec. parse_instance_spec spec (cli_min_share_diff c)) (cli_instances c)) of
              Inl e \<Rightarrow> Inl e
            | Inr cs \<Rightarrow>
                if cs = [] then Inl InstancesEmpty
                else (case first_duplicate [] (map ic_stratum_port cs) of
                        Some p \<Rightarrow> Inl (DuplicatePort p)
                      | None \<Rightarrow> Inr cs)))"

definition overridden_instances :: "cli \<Rightarrow> instance_config list \<Rightarrow> config_error + instance_config list" where
  "overridden_instances c cs =
     (if (single_flags c \<or> cli_min_share_diff c \<noteq> None) \<and> length cs \<noteq> 1 then Inl NotOneInstance
      else Inr (case cs of [i] \<Rightarrow> [override_instance c i] | _ \<Rightarrow> cs))"

definition apply_cli_overrides :: "app_config \<Rightarrow> cli \<Rightarrow> config_error + app_config" where
  "apply_cli_overrides conf c =
     (case (if cli_instances c \<noteq> [] then listed_instances c else overridden_instances c (ac_instances conf)) of
        Inl e \<Rightarrow> Inl e
      | Inr cs \<Rightarrow> Inr \<lparr>ac_global = override_global c (ac_global conf), ac_instances = cs\<rparr>)"

section \<open>The servers\<close>

text \<open>What \<^verbatim>\<open>main\<close> makes of the configuration: the merged-mining addresses, and one server for each instance.\<close>

definition merged_node :: "global_config \<Rightarrow> string option" where
  "merged_node g = (if trim (gc_merged_kaspa_address g) \<noteq> [] then Some (gc_merged_kaspa_address g) else None)"

definition merged_pay :: "global_config \<Rightarrow> string option" where
  "merged_pay g = (if trim (gc_merged_kaspa_pay_address g) \<noteq> [] then Some (gc_merged_kaspa_pay_address g) else None)"

definition stratum_config :: "string \<Rightarrow> global_config \<Rightarrow> instance_config \<Rightarrow> bridge_config" where
  "stratum_config instance_id g i =
     \<lparr>cfg_instance_id = instance_id, cfg_stratum_port = ic_stratum_port i, cfg_stratum_ports = [],
      cfg_kaspad_address = gc_kaspad_address g, cfg_prom_port = [], cfg_print_stats = gc_print_stats g,
      cfg_log_to_file = the_default (gc_log_to_file g) (ic_log_to_file i), cfg_health_check_port = [],
      cfg_block_wait_time = the_default (gc_block_wait_time g) (ic_block_wait_time i),
      cfg_min_share_diff = ic_min_share_diff i,
      cfg_var_diff = the_default (gc_var_diff g) (ic_var_diff i),
      cfg_shares_per_min = the_default (gc_shares_per_min g) (ic_shares_per_min i),
      cfg_var_diff_stats = the_default (gc_var_diff_stats g) (ic_var_diff_stats i),
      cfg_extranonce_size = the_default (gc_extranonce_size g) (ic_extranonce_size i),
      cfg_pow2_clamp = the_default (gc_pow2_clamp g) (ic_pow2_clamp i),
      cfg_coinbase_tag_suffix = gc_coinbase_tag_suffix g, cfg_proxy_protocol = False,
      cfg_kaspa_common_protocol = ic_kaspa_common_protocol i\<rparr>"

definition server_configs :: "(nat \<Rightarrow> string) \<Rightarrow> app_config \<Rightarrow> bridge_config list" where
  "server_configs format_instance_id conf =
     map (\<lambda>(n, i). stratum_config (format_instance_id (n + 1)) (ac_global conf) i)
       (enumerate 0 (ac_instances conf))"

section \<open>Lemmas\<close>

lemma first_duplicate_None:
  "first_duplicate seen ps = None \<longleftrightarrow> distinct ps \<and> set seen \<inter> set ps = {}"
  by (induction seen ps rule: first_duplicate.induct) auto

lemma first_without_port_None: "first_without_port i cs = None \<longleftrightarrow> [] \<notin> set (map ic_stratum_port cs)"
  by (induction i cs rule: first_without_port.induct) auto

lemma all_of_Inr: "all_of rs = Inr vs \<longleftrightarrow> rs = map Inr vs"
proof (induction rs arbitrary: vs)
  case (Cons r rs)
  show ?case
  proof (cases r)
    case (Inr v)
    then show ?thesis by (cases "all_of rs"; cases vs) (simp_all add: Cons.IH flip: Cons.IH)
  qed (cases vs; simp)
qed auto

lemma nonblank_Some: "nonblank s = Some t \<longleftrightarrow> s = t \<and> t \<noteq> []"
  by (auto simp: nonblank_def)

lemma single_instance_port: "ic_stratum_port (single_instance raw) \<noteq> []"
  by (cases "deserialize_optional_port (raw_stratum_port raw)")
    (auto simp: single_instance_def default_instance_def deserialize_optional_port_def nonblank_def
      bind_eq_Some_conv split: if_splits)

lemma from_yaml_ports:
  assumes "from_yaml parse content = Inr conf"
  shows "ac_instances conf \<noteq> [] \<and> distinct (map ic_stratum_port (ac_instances conf))
    \<and> [] \<notin> set (map ic_stratum_port (ac_instances conf))"
proof -
  obtain raw g cs where "instances_of raw = Inr cs" "first_duplicate [] (map ic_stratum_port cs) = None"
      "conf = \<lparr>ac_global = g, ac_instances = cs\<rparr>"
    using assms by (auto simp: from_yaml_def split: sum.splits option.splits)
  then show ?thesis
    using first_without_port_None [of 0 cs] single_instance_port [of raw]
    by (auto simp: instances_of_def checked_instances_def first_duplicate_None
        split: sum.splits option.splits if_splits)
qed

lemma initialize_config_ports:
  "initialize_config parse fs ps = Loaded conf \<Longrightarrow>
   ac_instances conf \<noteq> [] \<and> distinct (map ic_stratum_port (ac_instances conf))
    \<and> [] \<notin> set (map ic_stratum_port (ac_instances conf))"
proof (induction parse fs ps rule: initialize_config.induct)
  case (2 parse fs p ps)
  then show ?case by (auto dest: from_yaml_ports split: option.splits sum.splits)
qed (auto simp: default_config_def default_instance_def)

lemma spec_put_port:
  "\<lbrakk>spec_put r f st = Inr st'; \<And>v i. ic_stratum_port (f v i) = ic_stratum_port i\<rbrakk>
   \<Longrightarrow> has_port st' = has_port st \<and> ic_stratum_port (sp_instance st') = ic_stratum_port (sp_instance st)"
  by (auto simp: spec_put_def split: sum.splits)

lemma spec_part_port:
  assumes "spec_part spec k v st = Inr st'" "has_port st \<Longrightarrow> ic_stratum_port (sp_instance st) \<noteq> []" "has_port st'"
  shows "ic_stratum_port (sp_instance st') \<noteq> []"
  using assms unfolding spec_part_def Let_def
  by (auto dest!: spec_put_port simp: spec_number_def split: if_splits option.splits)

lemma spec_loop_port:
  "\<lbrakk>spec_loop spec parts st = Inr st'; has_port st \<Longrightarrow> ic_stratum_port (sp_instance st) \<noteq> []; has_port st'\<rbrakk>
   \<Longrightarrow> ic_stratum_port (sp_instance st') \<noteq> []"
proof (induction spec parts st rule: spec_loop.induct)
  case (2 spec p ps st)
  obtain k v where kv: "spec_entry (trim p) = (k, v)" by fastforce
  show ?case
  proof (cases "trim p = []")
    case False
    then obtain b where b: "spec_part spec k v st = Inr b" "spec_loop spec ps b = Inr st'"
      using "2.prems"(1) kv by (auto simp: Let_def split: sum.splits)
    then show ?thesis
      using "2.IH"(2) [OF refl False kv [symmetric] refl b(1) b(2)] "2.prems" spec_part_port kv by blast
  qed (use 2 in simp)
qed simp

lemma parse_instance_spec_port: "parse_instance_spec spec d = Inr i \<Longrightarrow> ic_stratum_port i \<noteq> []"
  using spec_loop_port [of spec _ spec_start]
  by (auto simp: parse_instance_spec_def spec_start_def split: sum.splits if_splits option.splits)

lemma normalize_port_blank:
  "normalize_port p = [] \<longleftrightarrow> trim p = []" "[] = normalize_port p \<longleftrightarrow> trim p = []"
  by (auto simp: normalize_port_def Let_def)

lemma all_of_specs:
  assumes "all_of (map f xs) = Inr vs"
  shows "length vs = length xs \<and> (\<forall>v \<in> set vs. \<exists>x \<in> set xs. f x = Inr v)"
proof -
  have "map f xs = map Inr vs" using assms by (simp add: all_of_Inr)
  moreover from this have "length vs = length xs" by (metis length_map)
  ultimately show ?thesis by (metis in_set_conv_nth length_map nth_map)
qed

lemma listed_ports:
  assumes "listed_instances c = Inr cs"
  shows "cs \<noteq> [] \<and> distinct (map ic_stratum_port cs) \<and> [] \<notin> set (map ic_stratum_port cs)"
proof -
  have "all_of (map (\<lambda>spec. parse_instance_spec spec (cli_min_share_diff c)) (cli_instances c)) = Inr cs"
      "cs \<noteq> []" "first_duplicate [] (map ic_stratum_port cs) = None"
    using assms by (auto simp: listed_instances_def split: if_splits sum.splits option.splits)
  then show ?thesis
    using parse_instance_spec_port by (fastforce simp: first_duplicate_None dest!: all_of_specs)
qed

lemma overridden_ports:
  assumes "overridden_instances c cs = Inr cs'" "cs \<noteq> []" "distinct (map ic_stratum_port cs)"
    "[] \<notin> set (map ic_stratum_port cs)"
  shows "cs' \<noteq> [] \<and> distinct (map ic_stratum_port cs')
    \<and> ([] \<in> set (map ic_stratum_port cs') \<longrightarrow> map_option trim (cli_stratum_port c) = Some [])"
  using assms
  by (auto simp: overridden_instances_def override_instance_def normalize_port_blank
      split: if_splits list.splits option.splits)

text \<open>
  A wait below zero is read as \<open>2 ^ 64\<close> less its size, a fraction is cut off, and a wait of half the
  range or more goes through a float.
\<close>

lemma negative_wait_wraps: "duration_ms (YInt (-1)) = Inr (2 ^ 64 - 1)"
  by (simp add: duration_ms_def)

lemma wait_reads_back: "ms < 2 ^ 63 \<Longrightarrow> deserialize_duration_ms (serialize_duration_ms ms) = Inr ms"
  by (simp add: deserialize_duration_ms_def serialize_duration_ms_def duration_ms_def flip: of_nat_power)

section \<open>Properties\<close>

text \<open>
  C23: After the configuration file and the command line there is an instance, no two instances have the
  same port text, and a port is empty only when \<^verbatim>\<open>--stratum-port\<close> itself was blank.
\<close>

theorem configured_ports_distinct:
  assumes "initialize_config parse file paths = Loaded conf" "apply_cli_overrides conf c = Inr conf'"
  shows "ac_instances conf' \<noteq> [] \<and> distinct (map ic_stratum_port (ac_instances conf'))
    \<and> ([] \<in> set (map ic_stratum_port (ac_instances conf')) \<longrightarrow> map_option trim (cli_stratum_port c) = Some [])"
  using assms(2) initialize_config_ports [OF assms(1)] listed_ports [of c] overridden_ports [of c]
  by (auto simp: apply_cli_overrides_def split: sum.splits if_splits)

text \<open>
  A server's setting is the instance flag, else the instance's entry in the file, else the global
  flag, else the file's global entry: a global flag does not reach an instance that the file
  settles.
\<close>

lemma setting_precedence:
  assumes "ac_instances conf = [i]" "cli_instances c = []" "apply_cli_overrides conf c = Inr conf'"
    "g = ac_global conf"
  shows "\<exists>s. server_configs fmt conf' = [s]
    \<and> Some (cfg_var_diff s) = or_some (cli_instance_var_diff c)
        (or_some (ic_var_diff i) (or_some (cli_var_diff c) (Some (gc_var_diff g))))
    \<and> Some (cfg_shares_per_min s) = or_some (cli_instance_shares_per_min c)
        (or_some (ic_shares_per_min i) (or_some (cli_shares_per_min c) (Some (gc_shares_per_min g))))
    \<and> Some (cfg_pow2_clamp s) = or_some (cli_instance_pow2_clamp c)
        (or_some (ic_pow2_clamp i) (or_some (cli_pow2_clamp c) (Some (gc_pow2_clamp g))))
    \<and> Some (cfg_block_wait_time s) =
        or_some (ic_block_wait_time i) (or_some (cli_block_wait_time c) (Some (gc_block_wait_time g)))
    \<and> cfg_min_share_diff s = the_default (ic_min_share_diff i) (cli_min_share_diff c)
    \<and> cfg_stratum_port s = the_default (ic_stratum_port i) (map_option normalize_port (cli_stratum_port c))"
proof -
  have "conf' = \<lparr>ac_global = override_global c g, ac_instances = [override_instance c i]\<rparr>"
    using assms by (auto simp: apply_cli_overrides_def overridden_instances_def split: if_splits)
  then show ?thesis
    by (simp add: server_configs_def stratum_config_def override_global_def override_instance_def or_some_def
        block_wait_duration_def split: option.split)
qed

section \<open>Witnesses\<close>

definition demo_flags :: cli where
  "demo_flags =
     \<lparr>cli_config = None, cli_testnet = False, cli_node_mode = None, cli_appdir = None, cli_kaspad_args = [],
      cli_kaspad_address = None, cli_block_wait_time = Some 250, cli_print_stats = None, cli_log_to_file = None,
      cli_health_check_port = None, cli_web_dashboard_port = None, cli_var_diff = Some False,
      cli_shares_per_min = Some 30, cli_var_diff_stats = None, cli_extranonce_size = None, cli_pow2_clamp = None,
      cli_coinbase_tag_suffix = None, cli_stratum_port = None, cli_min_share_diff = None, cli_prom_port = None,
      cli_instances = [], cli_instance_log_to_file = None, cli_instance_var_diff = None,
      cli_instance_shares_per_min = None, cli_instance_var_diff_stats = None, cli_instance_pow2_clamp = None\<rparr>"

definition demo_file :: config_raw where
  "demo_file =
     \<lparr>raw_global = default_global, raw_block_wait_time = None,
      raw_instances = Some [(default_instance\<lparr>ic_stratum_port := ''5555''\<rparr>, None),
        (default_instance\<lparr>ic_stratum_port := '':5556''\<rparr>, Some (YInt 50))],
      raw_stratum_port = None, raw_min_share_diff = None, raw_prom_port = None\<rparr>"

definition demo_conf :: app_config where
  "demo_conf = \<lparr>ac_global = default_global,
     ac_instances = [default_instance, default_instance\<lparr>ic_stratum_port := '':5556'', ic_block_wait_time := Some 50\<rparr>]\<rparr>"

definition settled_conf :: app_config where
  "settled_conf = default_config\<lparr>ac_instances := [default_instance\<lparr>ic_var_diff := Some True\<rparr>]\<rparr>"

lemma demo_ports: "normalize_port ''5555'' = '':5555''" "normalize_port '':5556'' = '':5556''" "normalize_port [] = []"
  by code_simp+

lemma demo_conf_loaded:
  "initialize_config (\<lambda>_. Inr demo_file) (\<lambda>_. Some (Some [])) [''config.yaml''] = Loaded demo_conf"
  by (simp add: from_yaml_def instances_of_def checked_instances_def deserialize_global_def deserialize_instance_def
      deserialize_optional_duration_ms_def duration_ms_def deserialize_port_def deserialize_optional_port_def
      deserialize_coinbase_tag_suffix_def demo_file_def demo_conf_def default_global_def default_instance_def demo_ports)

lemma configured_ports_distinct_witness:
  "distinct (map ic_stratum_port (ac_instances (projr (apply_cli_overrides demo_conf demo_flags))))"
proof -
  have r: "apply_cli_overrides demo_conf demo_flags
      = Inr \<lparr>ac_global = override_global demo_flags default_global, ac_instances = ac_instances demo_conf\<rparr>"
    by (simp add: apply_cli_overrides_def overridden_instances_def single_flags_def demo_flags_def demo_conf_def)
  then show ?thesis using configured_ports_distinct [OF demo_conf_loaded r] by simp
qed

lemma setting_precedence_witness:
  "\<exists>s. server_configs show_nat (projr (apply_cli_overrides settled_conf demo_flags)) = [s]
     \<and> cfg_var_diff s \<and> cfg_shares_per_min s = 30 \<and> cfg_block_wait_time s = 250"
proof -
  have "apply_cli_overrides settled_conf demo_flags
      = Inr (projr (apply_cli_overrides settled_conf demo_flags))"
    by (simp add: apply_cli_overrides_def overridden_instances_def single_flags_def demo_flags_def settled_conf_def)
  from setting_precedence [OF _ _ this refl, of "default_instance\<lparr>ic_var_diff := Some True\<rparr>" show_nat]
  show ?thesis
    by (simp add: settled_conf_def demo_flags_def default_instance_def or_some_def)
      blast
qed

end
