(* ===== verification/NodeLink.thy ===== *)
theory NodeLink
  imports Server
begin

text \<open>
  \<^verbatim>\<open>kaspaapi.rs\<close>, the link to the two nodes: connecting with growing pauses, the decision for merged
  mining, waiting for the node to be in step, the periodic polls, and the two listeners that turn
  template notifications into work for the client handler.  What a node answers and when the process
  is told to stop come as lists of events; a list that runs out leaves the loop waiting.
\<close>

section \<open>Connecting\<close>

text \<open>
  An attempt to connect, or to subscribe, and the pause after a failure: both watch the shutdown
  channel.  The result carries the pauses in milliseconds.
\<close>

datatype 'r attempt = StopWhileTrying | Refused_by_node | StopWhilePausing | Established 'r

datatype 'r waiting = Waiting | Done 'r

fun retry_loop :: "nat \<Rightarrow> 'r attempt list \<Rightarrow> (string + 'r) waiting \<times> nat list" where
  "retry_loop backoff_ms [] = (Waiting, [])"
| "retry_loop backoff_ms (StopWhileTrying # as) = (Done (Inl ''shutdown requested''), [])"
| "retry_loop backoff_ms (StopWhilePausing # as) = (Done (Inl ''shutdown requested''), [backoff_ms])"
| "retry_loop backoff_ms (Established r # as) = (Done (Inr r), [])"
| "retry_loop backoff_ms (Refused_by_node # as) =
     (let (r, pauses) = retry_loop (min (min (backoff_ms * 2) (2 ^ 64 - 1)) 5000) as
      in (r, backoff_ms # pauses))"

definition FIRST_BACKOFF_MS :: nat where
  "FIRST_BACKOFF_MS = 250"

definition grpc_address :: "string \<Rightarrow> string" where
  "grpc_address address = (if starts_with ''grpc://'' address then address else ''grpc://'' @ address)"

section \<open>Merged mining\<close>

text \<open>The environment comes before the configuration, and the new variable names before the old.\<close>

definition env_or :: "(string \<Rightarrow> string option) \<Rightarrow> string \<Rightarrow> string \<Rightarrow> string option" where
  "env_or env new_name old_name = (case env new_name of Some v \<Rightarrow> Some v | None \<Rightarrow> env old_name)"

definition kaspa_node_setting :: "(string \<Rightarrow> string option) \<Rightarrow> string option \<Rightarrow> string" where
  "kaspa_node_setting env configured =
     the_default (the_default [] configured) (env_or env ''ZKAS_KASPA_NODE'' ''FIRECASH_KASPA_NODE'')"

definition kaspa_pay_setting :: "(string \<Rightarrow> string option) \<Rightarrow> string option \<Rightarrow> string" where
  "kaspa_pay_setting env configured =
     the_default (the_default [] configured) (env_or env ''ZKAS_KASPA_PAY'' ''FIRECASH_KASPA_PAY'')"

definition merged_mining_setting :: "(string \<Rightarrow> string option) \<Rightarrow> string \<Rightarrow> string \<Rightarrow> bool" where
  "merged_mining_setting env node_addr pay_addr =
     (case env_or env ''ZKAS_MERGED_MINING'' ''FIRECASH_MERGED_MINING'' of
        Some v \<Rightarrow> v = ''1'' \<or> to_lower v = ''true''
      | None \<Rightarrow> trim node_addr \<noteq> [] \<and> trim pay_addr \<noteq> [])"

text \<open>\<open>dial\<close> says whether the parent node answers at an address.\<close>

definition kaspa_link :: "'tx consensus \<Rightarrow> (string \<Rightarrow> bool) \<Rightarrow> bool \<Rightarrow> string \<Rightarrow> string \<Rightarrow> kaspa_address option" where
  "kaspa_link C dial merged node_addr pay_addr =
     (if merged \<and> node_addr \<noteq> [] \<and> pay_addr \<noteq> [] \<and> dial (grpc_address node_addr)
      then (case address_try_from C pay_addr of Inr a \<Rightarrow> Some a | Inl e \<Rightarrow> None)
      else None)"

definition new_with_merged :: "'tx consensus \<Rightarrow> (string \<Rightarrow> string option) \<Rightarrow> (string \<Rightarrow> bool) \<Rightarrow> string option
    \<Rightarrow> kaspa_address option \<Rightarrow> string option \<Rightarrow> string option \<Rightarrow> 'tx kaspa_api" where
  "new_with_merged C env dial tag_suffix override configured_node configured_pay =
     (let node_addr = kaspa_node_setting env configured_node;
          pay_addr = kaspa_pay_setting env configured_pay;
          merged = merged_mining_setting env node_addr pay_addr;
          link = kaspa_link C dial merged node_addr pay_addr
      in \<lparr>coinbase_tag = build_coinbase_tag tag_suffix, coinbase_address_override = override,
          merged_mining = merged, pending_fc = pending_new 4096, kaspa_client = (link \<noteq> None), kaspa_pay = link,
          kaspa_parent_cache = None, submit_guard_state = BLOCK_SUBMIT_GUARD, zkas_log = [], kas_log = [],
          template_requests = [], parent_requests = []\<rparr>)"

definition api_new_solo :: "'tx consensus \<Rightarrow> (string \<Rightarrow> string option) \<Rightarrow> (string \<Rightarrow> bool) \<Rightarrow> string option
    \<Rightarrow> kaspa_address option \<Rightarrow> 'tx kaspa_api" where
  "api_new_solo C env dial tag_suffix override = new_with_merged C env dial tag_suffix override None None"

text \<open>
  The whole start: connect, subscribe, then the API.  The two lists are the attempts.
\<close>

definition start_api :: "unit attempt list \<Rightarrow> unit attempt list \<Rightarrow> 'tx kaspa_api \<Rightarrow> (string + 'tx kaspa_api) waiting" where
  "start_api dials subscriptions api =
     (case fst (retry_loop FIRST_BACKOFF_MS dials) of
        Waiting \<Rightarrow> Waiting
      | Done (Inl e) \<Rightarrow> Done (Inl e)
      | Done (Inr _) \<Rightarrow>
          (case fst (retry_loop FIRST_BACKOFF_MS subscriptions) of
             Waiting \<Rightarrow> Waiting
           | Done (Inl e) \<Rightarrow> Done (Inl e)
           | Done (Inr _) \<Rightarrow> Done (Inr api)))"

section \<open>Waiting for the node\<close>

datatype sync_event = Stop_requested | Sync_failed string | Sync_status bool

text \<open>The listener's own wait does not look at the shutdown channel.\<close>

fun wait_for_sync :: "(string + bool) list \<Rightarrow> (string + unit) waiting" where
  "wait_for_sync [] = Waiting"
| "wait_for_sync (r # rs) = (if r = Inr True then Done (Inr ()) else wait_for_sync rs)"

fun sync_loop :: "sync_event list \<Rightarrow> (string + unit) waiting" where
  "sync_loop [] = Waiting"
| "sync_loop (Stop_requested # es) = Done (Inl ''shutdown requested'')"
| "sync_loop (Sync_failed e # es) = sync_loop es"
| "sync_loop (Sync_status synced # es) = (if synced then Done (Inr ()) else sync_loop es)"

definition wait_for_sync_with_shutdown :: "(string \<Rightarrow> string option) \<Rightarrow> sync_event list \<Rightarrow> (string + unit) waiting" where
  "wait_for_sync_with_shutdown env es =
     (if env ''BRIDGE_ALLOW_UNSYNCED'' = Some ''1'' then Done (Inr ()) else sync_loop es)"

section \<open>Polls\<close>

record dag_info =
  dag_block_count :: u64
  dag_header_count :: u64
  dag_difficulty :: f64
  dag_tip_hashes :: "hash list"
  dag_virtual_daa_score :: u64
  dag_network :: string

text \<open>One tick of the statistics: the hash rate is asked for at the first tip.\<close>

definition stats_poll :: "string + dag_info \<Rightarrow> (hash \<Rightarrow> string + u64) \<Rightarrow> prom \<Rightarrow> prom" where
  "stats_poll dag_reply hashrate_at m =
     (case dag_reply of
        Inl e \<Rightarrow> m
      | Inr dag \<Rightarrow>
          (case dag_tip_hashes dag of
             [] \<Rightarrow> m
           | tip # _ \<Rightarrow>
               (case hashrate_at tip of
                  Inl e \<Rightarrow> m
                | Inr rate \<Rightarrow> record_network_stats rate (dag_virtual_daa_score dag) (dag_difficulty dag) m)))"

record server_info =
  si_synced :: bool
  si_network_id :: string
  si_version :: string
  si_virtual_daa_score :: u64

record node_status_snapshot =
  ns_last_updated :: "nat option"
  ns_is_connected :: bool
  ns_is_synced :: "bool option"
  ns_network_id :: "string option"
  ns_server_version :: "string option"
  ns_virtual_daa_score :: "u64 option"
  ns_block_count :: "u64 option"
  ns_header_count :: "u64 option"
  ns_difficulty :: "f64 option"
  ns_tip_hash :: "string option"
  ns_peers :: "nat option"
  ns_mempool_size :: "u64 option"

definition NODE_STATUS_default :: node_status_snapshot where
  "NODE_STATUS_default =
     \<lparr>ns_last_updated = None, ns_is_connected = False, ns_is_synced = None, ns_network_id = None,
      ns_server_version = None, ns_virtual_daa_score = None, ns_block_count = None, ns_header_count = None,
      ns_difficulty = None, ns_tip_hash = None, ns_peers = None, ns_mempool_size = None\<rparr>"

definition or_else :: "'v option \<Rightarrow> 'v \<Rightarrow> 'v option" where
  "or_else old v = (if old = None then Some v else old)"

definition take_server_info :: "string + server_info \<Rightarrow> node_status_snapshot \<Rightarrow> node_status_snapshot" where
  "take_server_info r s =
     (case r of
        Inl e \<Rightarrow> s
      | Inr i \<Rightarrow> s\<lparr>ns_is_synced := Some (si_synced i), ns_network_id := Some (si_network_id i),
                  ns_server_version := Some (si_version i), ns_virtual_daa_score := Some (si_virtual_daa_score i)\<rparr>)"

definition take_dag_info :: "string + dag_info \<Rightarrow> node_status_snapshot \<Rightarrow> node_status_snapshot" where
  "take_dag_info r s =
     (case r of
        Inl e \<Rightarrow> s
      | Inr d \<Rightarrow> s\<lparr>ns_block_count := Some (dag_block_count d), ns_header_count := Some (dag_header_count d),
                  ns_difficulty := Some (dag_difficulty d),
                  ns_tip_hash := (case dag_tip_hashes d of [] \<Rightarrow> None | h # _ \<Rightarrow> Some (hex_encode h)),
                  ns_virtual_daa_score := or_else (ns_virtual_daa_score s) (dag_virtual_daa_score d),
                  ns_network_id := or_else (ns_network_id s) (dag_network d)\<rparr>)"

definition take_peers :: "string + nat \<Rightarrow> node_status_snapshot \<Rightarrow> node_status_snapshot" where
  "take_peers r s = (case r of Inl e \<Rightarrow> s | Inr n \<Rightarrow> s\<lparr>ns_peers := Some n\<rparr>)"

definition take_info :: "string + (u64 \<times> string) \<Rightarrow> node_status_snapshot \<Rightarrow> node_status_snapshot" where
  "take_info r s =
     (case r of
        Inl e \<Rightarrow> s
      | Inr (mempool, ver) \<Rightarrow> s\<lparr>ns_mempool_size := Some mempool,
                              ns_server_version := or_else (ns_server_version s) ver\<rparr>)"

definition node_status_poll :: "nat \<Rightarrow> bool \<Rightarrow> string + server_info \<Rightarrow> string + dag_info \<Rightarrow> string + nat
    \<Rightarrow> string + (u64 \<times> string) \<Rightarrow> node_status_snapshot \<Rightarrow> node_status_snapshot" where
  "node_status_poll now alive server dag peers info s =
     take_info info (take_peers peers (take_dag_info dag (take_server_info server
       (s\<lparr>ns_last_updated := Some now, ns_is_connected := alive\<rparr>))))"

section \<open>Balances and block colours\<close>

text \<open>The sum of a wallet's outputs is a \<^verbatim>\<open>u64\<close> that wraps in a release build.\<close>

fun sum_entries :: "(string option \<times> u64) list \<Rightarrow> (string, u64) hash_map \<Rightarrow> (string, u64) hash_map" where
  "sum_entries [] m = m"
| "sum_entries ((None, amount) # es) m = sum_entries es m"
| "sum_entries ((Some a, amount) # es) m =
     sum_entries es (hm_insert a (the_default 0 (hm_get m a) + amount) m)"

fun parse_addresses :: "'tx consensus \<Rightarrow> string list \<Rightarrow> string + kaspa_address list" where
  "parse_addresses C [] = Inr []"
| "parse_addresses C (a # as) =
     (case address_try_from C a of
        Inl e \<Rightarrow> Inl (''Failed to parse addresses: '' @ e)
      | Inr x \<Rightarrow> (case parse_addresses C as of Inl e \<Rightarrow> Inl e | Inr xs \<Rightarrow> Inr (x # xs)))"

definition get_balances_by_addresses :: "'tx consensus \<Rightarrow> (kaspa_address list \<Rightarrow> string + (string option \<times> u64) list)
    \<Rightarrow> string list \<Rightarrow> string + (string \<times> u64) list" where
  "get_balances_by_addresses C utxos_of addresses =
     (case parse_addresses C addresses of
        Inl e \<Rightarrow> Inl e
      | Inr xs \<Rightarrow>
          (case utxos_of xs of
             Inl e \<Rightarrow> Inl ''Failed to get UTXOs by addresses''
           | Inr es \<Rightarrow> Inr (sum_entries es [])))"

definition get_current_block_color :: "(string \<Rightarrow> hash option) \<Rightarrow> (hash \<Rightarrow> string + bool) \<Rightarrow> string \<Rightarrow> string + bool" where
  "get_current_block_color parse_hash color_of text =
     (case parse_hash text of
        None \<Rightarrow> Inl ''Failed to parse block hash''
      | Some h \<Rightarrow> (case color_of h of Inl e \<Rightarrow> Inl ''Failed to query current block color'' | Inr blue \<Rightarrow> Inr blue))"

section \<open>Template notifications\<close>

text \<open>
  A feed is the channel of notifications with the listener behind it: what waits in the channel,
  whether its sender still exists, whether the listener holds the receiver, whether it runs, and the
  state its callback works on.
\<close>

datatype notification = NewBlockTemplate | OtherNotification

record 'a feed =
  feed_queue :: "notification list"
  feed_open :: bool
  feed_has_rx :: bool
  feed_running :: bool
  feed_sink :: 'a

definition feed_new :: "bool \<Rightarrow> 'a \<Rightarrow> 'a feed" where
  "feed_new has_rx a =
     \<lparr>feed_queue = [], feed_open = True, feed_has_rx = has_rx, feed_running = True, feed_sink = a\<rparr>"

text \<open>The receiver can be taken once.\<close>

definition take_receiver :: "bool \<Rightarrow> (string + unit) \<times> bool" where
  "take_receiver present =
     (if present then (Inr (), False) else (Inl ''Notification receiver already taken'', False))"

text \<open>\<open>None\<close>: nothing to receive yet; \<open>Some None\<close>: the channel is closed.\<close>

definition recv :: "'a feed \<Rightarrow> notification option option \<times> 'a feed" where
  "recv f =
     (case feed_queue f of
        n # q \<Rightarrow> (Some (Some n), f\<lparr>feed_queue := q\<rparr>)
      | [] \<Rightarrow> (if feed_open f then None else Some None, f))"

definition drain_and_call :: "('a \<Rightarrow> 'a) \<Rightarrow> 'a feed \<Rightarrow> 'a feed" where
  "drain_and_call cb f = f\<lparr>feed_queue := [], feed_sink := cb (feed_sink f)\<rparr>"

text \<open>What ends the wait of one turn; a change of the shutdown flag carries its new value.\<close>

datatype wake = Wake_notified | Wake_ticked | Wake_shutdown bool

definition template_wake :: "('a \<Rightarrow> 'a) \<Rightarrow> wake \<Rightarrow> 'a feed \<Rightarrow> 'a feed" where
  "template_wake cb w f =
     (case w of
        Wake_shutdown flag \<Rightarrow> if flag then f\<lparr>feed_running := False\<rparr> else f
      | Wake_ticked \<Rightarrow> f\<lparr>feed_sink := cb (feed_sink f)\<rparr>
      | Wake_notified \<Rightarrow>
          (case recv f of
             (None, f) \<Rightarrow> f
           | (Some (Some NewBlockTemplate), f) \<Rightarrow> drain_and_call cb f
           | (Some (Some OtherNotification), f) \<Rightarrow> f
           | (Some None, f) \<Rightarrow> f\<lparr>feed_running := False\<rparr>))"

text \<open>
  One turn of the loop: without a node in step it goes no further than the wait.
\<close>

definition template_turn :: "('a \<Rightarrow> 'a) \<Rightarrow> (string + bool) list \<Rightarrow> wake \<Rightarrow> 'a feed \<Rightarrow> 'a feed" where
  "template_turn cb sync w f = (case wait_for_sync sync of Waiting \<Rightarrow> f | Done _ \<Rightarrow> template_wake cb w f)"

definition template_turn_with_shutdown :: "('a \<Rightarrow> 'a) \<Rightarrow> bool \<Rightarrow> (string + bool) list \<Rightarrow> wake \<Rightarrow> 'a feed \<Rightarrow> 'a feed" where
  "template_turn_with_shutdown cb flag sync w f =
     (if flag then f\<lparr>feed_running := False\<rparr> else template_turn cb sync w f)"

text \<open>
  The listener of the parent node does not wait for anything, and goes on with its ticker when the
  channel is closed.
\<close>

definition parent_turn :: "('a \<Rightarrow> 'a) \<Rightarrow> wake \<Rightarrow> 'a feed \<Rightarrow> 'a feed" where
  "parent_turn cb w f =
     (case w of
        Wake_shutdown flag \<Rightarrow> if flag then f\<lparr>feed_running := False\<rparr> else f
      | Wake_ticked \<Rightarrow> f\<lparr>feed_sink := cb (feed_sink f)\<rparr>
      | Wake_notified \<Rightarrow>
          (if \<not> feed_has_rx f then f
           else case recv f of
             (None, f) \<Rightarrow> f
           | (Some (Some NewBlockTemplate), f) \<Rightarrow> drain_and_call cb f
           | (Some (Some OtherNotification), f) \<Rightarrow> f
           | (Some None, f) \<Rightarrow> f\<lparr>feed_has_rx := False\<rparr>))"

text \<open>
  The life of a feed: notifications arrive, the sender goes away, and the listener takes a turn of
  one of its three forms.
\<close>

datatype feed_event =
    Arrives notification
  | Sender_gone
  | Turn "(string + bool) list" wake
  | Turn_with_shutdown bool "(string + bool) list" wake
  | Parent_turn wake

definition feed_step :: "('a \<Rightarrow> 'a) \<Rightarrow> feed_event \<Rightarrow> 'a feed \<Rightarrow> 'a feed" where
  "feed_step cb e f =
     (case e of
        Arrives n \<Rightarrow> if feed_open f then f\<lparr>feed_queue := feed_queue f @ [n]\<rparr> else f
      | Sender_gone \<Rightarrow> f\<lparr>feed_open := False\<rparr>
      | Turn sync w \<Rightarrow> if feed_running f then template_turn cb sync w f else f
      | Turn_with_shutdown flag sync w \<Rightarrow>
          if feed_running f then template_turn_with_shutdown cb flag sync w f else f
      | Parent_turn w \<Rightarrow> if feed_running f then parent_turn cb w f else f)"

definition feed_run :: "('a \<Rightarrow> 'a) \<Rightarrow> feed_event list \<Rightarrow> 'a feed \<Rightarrow> 'a feed" where
  "feed_run cb es f = fold (feed_step cb) es f"

lemmas feed_defs = feed_step_def template_turn_def template_turn_with_shutdown_def template_wake_def parent_turn_def
  recv_def drain_and_call_def

lemma feed_run_simps [simp]:
  "feed_run cb [] f = f" "feed_run cb (e # es) f = feed_run cb es (feed_step cb e f)"
  "feed_run cb (es @ es') f = feed_run cb es' (feed_run cb es f)"
  by (simp_all add: feed_run_def)

section \<open>Lemmas\<close>

lemma wait_for_sync_never_fails: "wait_for_sync rs \<noteq> Done (Inl e)"
  by (induction rs) auto

lemma wait_for_sync_iff: "wait_for_sync rs = Done (Inr ()) \<longleftrightarrow> Inr True \<in> set rs"
  by (induction rs) auto

text \<open>Whatever the callback keeps, the listener keeps.\<close>

locale feed_client =
  fixes cb :: "'a \<Rightarrow> 'a" and good :: "'a \<Rightarrow> bool"
  assumes cb_keeps: "good a \<Longrightarrow> good (cb a)"
begin

lemma feed_step_keeps: "good (feed_sink f) \<Longrightarrow> good (feed_sink (feed_step cb e f))"
  by (auto simp: feed_defs cb_keeps split: feed_event.split wake.split list.split notification.split waiting.split)

lemma feed_keeps: "good (feed_sink f) \<Longrightarrow> good (feed_sink (feed_run cb es f))"
  by (induction es arbitrary: f) (simp_all add: feed_step_keeps)

end

text \<open>Counting the calls.\<close>

interpretation calls_counted: feed_client Suc "\<lambda>n. k \<le> n"
  by unfold_locales simp

text \<open>On the server, a call spawns the search for new blocks.\<close>

interpretation block_feed: feed_client "\<lambda>s. s\<lparr>srv_pool := snd (new_block_available now (srv_pool s))\<rparr>"
    "reachable C H env log2 envs"
  by unfold_locales (metis prod.collapse reachable.step server_step.new_block)

lemma capped_double: "0 < p \<Longrightarrow> min (min c k * p) k = min (c * p) (k::nat)"
proof (cases "c \<le> k")
  case False
  moreover assume "0 < p"
  ultimately have "k \<le> c * p" "k \<le> k * p" using mult_le_mono [of k c 1 p] mult_le_mono [of k k 1 p] by auto
  then show ?thesis using False by simp
qed simp

lemma retry_pauses:
  "\<lbrakk>b \<le> 5000; i < length (snd (retry_loop b as))\<rbrakk> \<Longrightarrow> snd (retry_loop b as) ! i = min (b * 2 ^ i) 5000"
proof (induction b as arbitrary: i rule: retry_loop.induct)
  case (5 b as)
  then have "min (min (b * 2) (2 ^ 64 - 1)) 5000 = min (b * 2) 5000" by simp
  with 5 show ?case by (cases i) (auto simp: split_beta capped_double mult.assoc)
qed auto

lemma retry_ends:
  "fst (retry_loop b as) \<in> {Waiting, Done (Inl ''shutdown requested'')} \<union> {Done (Inr v) |v. Established v \<in> set as}"
  by (induction b as rule: retry_loop.induct) (auto simp: split_beta)

lemma paired_links: "kaspa_client (new_with_merged C env dial sfx ov n p) \<longleftrightarrow> kaspa_pay (new_with_merged C env dial sfx ov n p) \<noteq> None"
  by (simp add: new_with_merged_def Let_def)

lemma merged_link_needs:
  "kaspa_link C dial merged node_addr pay_addr = Some a \<longleftrightarrow>
     merged \<and> node_addr \<noteq> [] \<and> pay_addr \<noteq> [] \<and> dial (grpc_address node_addr) \<and> address_try_from C pay_addr = Inr a"
  by (auto simp: kaspa_link_def split: sum.splits)

text \<open>A feed that has lost its sender and its queue ends its block listener, while the parent's goes on.\<close>

lemma closed_feed:
  assumes "feed_queue f = []" "\<not> feed_open f" "feed_running f"
  shows "\<not> feed_running (template_wake cb Wake_notified f)" "feed_running (parent_turn cb Wake_notified f)"
  using assms by (auto simp: feed_defs)

definition seen_since :: "nat \<Rightarrow> nat feed \<Rightarrow> bool" where
  "seen_since k f \<longleftrightarrow> NewBlockTemplate \<in> set (feed_queue f) \<and> k \<le> feed_sink f \<or> k < feed_sink f"

lemma seen_since_step: "seen_since k f \<Longrightarrow> seen_since k (feed_step Suc e f)"
  by (auto simp: seen_since_def feed_defs
      split: feed_event.splits wake.splits list.splits notification.splits waiting.splits if_splits)

lemma seen_since_run: "seen_since k f \<Longrightarrow> seen_since k (feed_run Suc es f)"
  by (induction es arbitrary: f) (simp_all add: seen_since_step)

lemma no_entries: "\<forall>e \<in> set es. Some a \<noteq> fst e \<Longrightarrow> filter (\<lambda>e. fst e = Some a) es = []"
  by (auto simp: filter_empty_conv)

lemma sum_entries_get:
  "hm_get (sum_entries es m) a =
     (if Some a \<in> fst ` set es
      then Some (the_default 0 (hm_get m a) + sum_list (map snd (filter (\<lambda>e. fst e = Some a) es)))
      else hm_get m a)"
  by (induction es m rule: sum_entries.induct) (auto simp: add.assoc image_iff no_entries)

section \<open>Properties\<close>

text \<open>
  A connection is retried until it stands or the process is told to stop, and the pauses double
  from 250 milliseconds up to five seconds.
\<close>

lemma retries_back_off:
  assumes "retry_loop FIRST_BACKOFF_MS as = (r, pauses)"
  shows "(\<forall>i < length pauses. pauses ! i = min (250 * 2 ^ i) 5000)
    \<and> (r = Waiting \<or> r = Done (Inl ''shutdown requested'') \<or> (\<exists>v. r = Done (Inr v) \<and> Established v \<in> set as))"
  using assms retry_pauses [of FIRST_BACKOFF_MS _ as] retry_ends [of FIRST_BACKOFF_MS as]
  by (auto simp: FIRST_BACKOFF_MS_def)

text \<open>
  C18: A template notification that reaches the channel is never lost: whatever arrives and whichever
  turns the listeners take afterwards, once the channel is empty the callback has run since.
\<close>

theorem notification_never_missed:
  assumes "feed_open (feed_run Suc before (feed_new rx n))"
    "feed_queue (feed_run Suc (before @ Arrives NewBlockTemplate # later) (feed_new rx n)) = []"
  shows "feed_sink (feed_run Suc before (feed_new rx n))
    < feed_sink (feed_run Suc (before @ Arrives NewBlockTemplate # later) (feed_new rx n))"
proof -
  let ?f = "feed_run Suc before (feed_new rx n)"
  have "seen_since (feed_sink ?f) (feed_step Suc (Arrives NewBlockTemplate) ?f)"
    using assms(1) by (simp add: seen_since_def feed_step_def)
  from seen_since_run [OF this, of later] assms(2) show ?thesis by (simp add: seen_since_def)
qed

text \<open>
  The balance reported for an address is the sum of the amounts of its unspent outputs, modulo
  \<open>2 ^ 64\<close>, and an address without outputs is not reported at all.
\<close>

lemma balances_are_sums:
  assumes "get_balances_by_addresses C utxos_of as = Inr balances" "parse_addresses C as = Inr xs"
    "utxos_of xs = Inr es"
  shows "hm_get balances a =
    (if Some a \<in> fst ` set es then Some (sum_list (map snd (filter (\<lambda>e. fst e = Some a) es))) else None)"
  using assms by (force simp: get_balances_by_addresses_def sum_entries_get)

section \<open>Witnesses\<close>

abbreviation "demo_attempts \<equiv> [Refused_by_node, Refused_by_node, Refused_by_node, Refused_by_node, Refused_by_node,
  Refused_by_node, Established (7::nat)]"

lemma demo_attempts_run:
  "retry_loop FIRST_BACKOFF_MS demo_attempts = (Done (Inr 7), [250, 500, 1000, 2000, 4000, 5000])"
  by (simp add: FIRST_BACKOFF_MS_def)

lemma retries_back_off_witness: "[250, 500, 1000, 2000, 4000, 5000] ! 5 = min (250 * 2 ^ 5) (5000::nat)"
proof -
  have "5 < length [250, 500, 1000, 2000, 4000, 5000::nat]" by simp
  then show ?thesis using retries_back_off [OF demo_attempts_run] by blast
qed

lemma notification_never_missed_witness:
  "feed_sink (feed_run Suc [Arrives OtherNotification, Arrives NewBlockTemplate, Turn [Inr True] Wake_notified,
      Turn [Inr False, Inr True] Wake_notified] (feed_new True 0)) > 0"
  using notification_never_missed [of "[Arrives OtherNotification]" True 0
      "[Turn [Inr True] Wake_notified, Turn [Inr False, Inr True] Wake_notified]"]
  by (simp add: feed_defs feed_new_def)

lemma balances_are_sums_witness:
  "hm_get (projr (get_balances_by_addresses demo_consensus (\<lambda>_. Inr [(Some ''a'', 2), (None, 5), (Some ''a'', 3)]) [])) ''a''
     = Some 5"
proof -
  let ?u = "\<lambda>_. Inr [(Some ''a'', 2), (None, 5), (Some ''a'', 3)]"
  let ?r = "get_balances_by_addresses demo_consensus ?u []"
  have "?r = Inr (projr ?r)" by (simp add: get_balances_by_addresses_def)
  from balances_are_sums [OF this _ refl, of "[]" "''a''"] show ?thesis by simp
qed

end
