(* ===== verification/Http.thy ===== *)
theory Http
  imports Dashboard Config NodeLink
begin

text \<open>
  \<^verbatim>\<open>prom.rs\<close>, the web server: static files, the configuration that can be read and written over
  HTTP, and the routes.  Reading and writing files, the environment, the encoders of the metrics and
  JSON libraries and the YAML library are fields of an environment record; paths are those of Unix.
\<close>

section \<open>Static files\<close>

definition content_type_for_path :: "string \<Rightarrow> string" where
  "content_type_for_path path =
     (let p = to_lower path
      in if suffix ''.html'' p then ''text/html; charset=utf-8''
         else if suffix ''.css'' p then ''text/css; charset=utf-8''
         else if suffix ''.js'' p then ''application/javascript; charset=utf-8''
         else if suffix ''.svg'' p then ''image/svg+xml''
         else ''application/octet-stream'')"

text \<open>The prefix is taken off as often as it stands there.\<close>

function trim_start_matches :: "string \<Rightarrow> string \<Rightarrow> string" where
  "trim_start_matches p s =
     (if p = [] then s
      else case strip_prefix p s of Some t \<Rightarrow> trim_start_matches p t | None \<Rightarrow> s)"
  by pat_completeness auto

termination
  by (relation "measure (length \<circ> snd)") (auto simp: strip_prefix_Some_iff)

declare trim_start_matches.simps [simp del]

definition static_rel :: "string \<Rightarrow> string option" where
  "static_rel url =
     (if url = ''/'' \<or> url = ''/index.html'' then Some ''index.html''
      else if url = ''/raw.html'' then Some ''raw.html''
      else if starts_with ''/static/'' url then Some (trim_start_matches ''/static/'' url)
      else None)"

definition safe_rel :: "string \<Rightarrow> bool" where
  "safe_rel rel \<longleftrightarrow> \<not> contains ''..'' rel \<and> CHR 0x5C \<notin> set rel"

text \<open>\<^verbatim>\<open>Path::join\<close>: an absolute path takes the place of the base.\<close>

definition path_join :: "string \<Rightarrow> string \<Rightarrow> string" where
  "path_join base p =
     (if starts_with ''/'' p then p else if base = [] \<or> last base = CHR ''/'' then base @ p else base @ ''/'' @ p)"

definition static_disk_path :: "string \<Rightarrow> string \<Rightarrow> string option" where
  "static_disk_path dir url =
     (case static_rel url of
        None \<Rightarrow> None
      | Some rel \<Rightarrow> if safe_rel rel then Some (path_join (path_join dir ''static'') rel) else None)"

text \<open>\<open>embedded\<close> are the files built into the program, \<open>disk\<close> those of the file system.\<close>

definition try_read_static_file :: "string \<Rightarrow> (string \<Rightarrow> string option) \<Rightarrow> (string \<Rightarrow> string option) \<Rightarrow> string
    \<Rightarrow> (string \<times> string) option" where
  "try_read_static_file dir embedded disk url =
     (case static_rel url of
        None \<Rightarrow> None
      | Some rel \<Rightarrow>
          if \<not> safe_rel rel then None
          else (case embedded rel of
                  Some bytes \<Rightarrow> Some (rel, bytes)
                | None \<Rightarrow> map_option (\<lambda>bytes. (rel, bytes)) (disk (path_join (path_join dir ''static'') rel))))"

section \<open>The configuration\<close>

definition config_write_allowed :: "(string \<Rightarrow> string option) \<Rightarrow> bool" where
  "config_write_allowed env =
     (case env ''RKSTRATUM_ALLOW_CONFIG_WRITE'' of
        Some v \<Rightarrow> v \<in> {''1'', ''true'', ''TRUE'', ''yes'', ''YES'', ''on'', ''ON''}
      | None \<Rightarrow> False)"

definition json_opt :: "('v \<Rightarrow> json) \<Rightarrow> 'v option \<Rightarrow> json" where
  "json_opt f x = (case x of Some v \<Rightarrow> f v | None \<Rightarrow> JNull)"

abbreviation json_nat :: "nat \<Rightarrow> json" where
  "json_nat n \<equiv> JNum (NumInt (int n))"

definition config_as_json :: "app_config \<Rightarrow> json" where
  "config_as_json conf =
     (let g = ac_global conf; i = (case ac_instances conf of [] \<Rightarrow> None | c # _ \<Rightarrow> Some c)
      in JObj
        [(''kaspad_address'', JStr (gc_kaspad_address g)),
         (''block_wait_time'', json_nat (gc_block_wait_time g mod 2 ^ 64)),
         (''print_stats'', JBool (gc_print_stats g)),
         (''log_to_file'', JBool (gc_log_to_file g)),
         (''health_check_port'', JStr (gc_health_check_port g)),
         (''web_dashboard_port'', JStr (gc_web_dashboard_port g)),
         (''var_diff'', JBool (gc_var_diff g)),
         (''shares_per_min'', json_nat (unat (gc_shares_per_min g))),
         (''var_diff_stats'', JBool (gc_var_diff_stats g)),
         (''extranonce_size'', json_nat (unat (gc_extranonce_size g))),
         (''pow2_clamp'', JBool (gc_pow2_clamp g)),
         (''coinbase_tag_suffix'', json_opt JStr (gc_coinbase_tag_suffix g)),
         (''stratum_port'', json_opt (\<lambda>c. JStr (ic_stratum_port c)) i),
         (''min_share_diff'', json_opt (\<lambda>c. JNum (NumFloat (ic_min_share_diff c))) i),
         (''prom_port'', json_opt JStr (Option.bind i ic_prom_port))])"

definition get_config_json :: "(string \<Rightarrow> string + config_raw) \<Rightarrow> (json \<Rightarrow> string) \<Rightarrow> string option \<Rightarrow> string" where
  "get_config_json parse show_json file =
     (case file of
        None \<Rightarrow> ''{}''
      | Some content \<Rightarrow>
          (case from_yaml parse content of Inl e \<Rightarrow> ''{}'' | Inr conf \<Rightarrow> show_json (config_as_json conf)))"

text \<open>Reading a JSON value: a key that stands twice counts with its last value.\<close>

fun json_get :: "string \<Rightarrow> json \<Rightarrow> json option" where
  "json_get k (JObj kvs) = map_of (rev kvs) k"
| "json_get k _ = None"

fun json_bool :: "json \<Rightarrow> bool option" where
  "json_bool (JBool b) = Some b"
| "json_bool _ = None"

fun json_u64 :: "json \<Rightarrow> nat option" where
  "json_u64 (JNum (NumInt i)) = (if 0 \<le> i \<and> i < 2 ^ 64 then Some (nat i) else None)"
| "json_u64 _ = None"

fun json_f64 :: "json \<Rightarrow> f64 option" where
  "json_f64 (JNum (NumInt i)) = Some (if 0 \<le> i then of_n (nat i) else fneg (of_n (nat (- i))))"
| "json_f64 (JNum (NumFloat f)) = Some f"
| "json_f64 _ = None"

definition field :: "(json \<Rightarrow> 'v option) \<Rightarrow> string \<Rightarrow> json \<Rightarrow> 'v option" where
  "field f k u = Option.bind (json_get k u) f"

definition update_suffix :: "json \<Rightarrow> string option \<Rightarrow> string option" where
  "update_suffix u old =
     (case json_get ''coinbase_tag_suffix'' u of
        Some JNull \<Rightarrow> None
      | Some (JStr s) \<Rightarrow> nonblank (trim s)
      | _ \<Rightarrow> old)"

definition update_global :: "json \<Rightarrow> global_config \<Rightarrow> global_config" where
  "update_global u g =
     g\<lparr>gc_kaspad_address := the_default (gc_kaspad_address g) (field as_str ''kaspad_address'' u),
       gc_block_wait_time := the_default (gc_block_wait_time g) (field json_u64 ''block_wait_time'' u),
       gc_print_stats := the_default (gc_print_stats g) (field json_bool ''print_stats'' u),
       gc_log_to_file := the_default (gc_log_to_file g) (field json_bool ''log_to_file'' u),
       gc_health_check_port := the_default (gc_health_check_port g) (field as_str ''health_check_port'' u),
       gc_web_dashboard_port :=
         the_default (gc_web_dashboard_port g) (map_option normalize_port (field as_str ''web_dashboard_port'' u)),
       gc_var_diff := the_default (gc_var_diff g) (field json_bool ''var_diff'' u),
       gc_shares_per_min := the_default (gc_shares_per_min g) (map_option of_nat (field json_u64 ''shares_per_min'' u)),
       gc_var_diff_stats := the_default (gc_var_diff_stats g) (field json_bool ''var_diff_stats'' u),
       gc_extranonce_size := the_default (gc_extranonce_size g) (map_option of_nat (field json_u64 ''extranonce_size'' u)),
       gc_pow2_clamp := the_default (gc_pow2_clamp g) (field json_bool ''pow2_clamp'' u),
       gc_coinbase_tag_suffix := update_suffix u (gc_coinbase_tag_suffix g)\<rparr>"

definition update_instance :: "json \<Rightarrow> instance_config \<Rightarrow> instance_config" where
  "update_instance u i =
     i\<lparr>ic_stratum_port := the_default (ic_stratum_port i) (map_option normalize_port (field as_str ''stratum_port'' u)),
       ic_min_share_diff := the_default (ic_min_share_diff i) (field json_f64 ''min_share_diff'' u),
       ic_prom_port :=
         (case field as_str ''prom_port'' u of
            Some p \<Rightarrow> nonblank (normalize_port p)
          | None \<Rightarrow> if json_get ''prom_port'' u = Some JNull then None else ic_prom_port i)\<rparr>"

definition update_config :: "json \<Rightarrow> app_config \<Rightarrow> app_config" where
  "update_config u conf =
     (let cs = (if ac_instances conf = [] then [default_instance] else ac_instances conf)
      in \<lparr>ac_global = update_global u (ac_global conf), ac_instances = update_instance u (hd cs) # tl cs\<rparr>)"

text \<open>What the update starts from: a file that is missing, empty or does not parse gives the defaults.\<close>

definition config_on_disk :: "(string \<Rightarrow> string + config_raw) \<Rightarrow> string option \<Rightarrow> app_config" where
  "config_on_disk parse file =
     (case file of
        None \<Rightarrow> default_config
      | Some content \<Rightarrow>
          if content = [] then default_config
          else (case from_yaml parse content of Inl e \<Rightarrow> default_config | Inr conf \<Rightarrow> conf))"

section \<open>The server\<close>

datatype http_mode = Aggregated string | Instance string string

fun web_bind :: "http_mode \<Rightarrow> string" where
  "web_bind (Aggregated b) = b"
| "web_bind (Instance iid b) = b"

fun is_instance :: "http_mode \<Rightarrow> bool" where
  "is_instance (Aggregated b) = False"
| "is_instance (Instance iid b) = True"

record http_env =
  he_env :: "string \<Rightarrow> string option"
  he_dir :: string
  he_embedded :: "string \<Rightarrow> string option"
  he_disk :: "string \<Rightarrow> string option"
  he_parse_yaml :: "string \<Rightarrow> string + config_raw"
  he_show_yaml :: "app_config \<Rightarrow> string + string"
  he_parse_json :: "string \<Rightarrow> string + json"
  he_show_json :: "json \<Rightarrow> string"
  he_show_stats :: "stats_response \<Rightarrow> string"
  he_encode_metrics :: "family list \<Rightarrow> string + string"
  he_gather :: "family list"
  he_stats :: stats_env
  he_node_status :: node_status_snapshot
  he_write_ok :: bool

record web_state =
  ws_config_file :: "string option"
  ws_status_config :: "string \<times> nat"
  ws_activity :: "(string, nat) hash_map"

definition set_web_status_config :: "string \<Rightarrow> nat \<Rightarrow> web_state \<Rightarrow> web_state" where
  "set_web_status_config kaspad_address instances w = w\<lparr>ws_status_config := (kaspad_address, max instances 1)\<rparr>"

definition update_config_from_json :: "http_env \<Rightarrow> string \<Rightarrow> web_state \<Rightarrow> (string + unit) \<times> web_state" where
  "update_config_from_json e body w =
     (case he_parse_json e body of
        Inl err \<Rightarrow> (Inl err, w)
      | Inr u \<Rightarrow>
          (case he_show_yaml e (update_config u (config_on_disk (he_parse_yaml e) (ws_config_file w))) of
             Inl err \<Rightarrow> (Inl (''Failed to serialize config to YAML: '' @ err), w)
           | Inr yaml \<Rightarrow>
               if he_write_ok e then (Inr (), w\<lparr>ws_config_file := Some yaml\<rparr>) else (Inl ''write'', w)))"

section \<open>Requests\<close>

fun words_loop :: "string \<Rightarrow> string list \<Rightarrow> string list" where
  "words_loop w [] = (if w = [] then [] else [w])"
| "words_loop w (c # cs) =
     (if is_ws c then (if w = [] then words_loop [] cs else w # words_loop [] cs) else words_loop (w @ c) cs)"

definition request_path :: "string \<Rightarrow> string" where
  "request_path request =
     (case words_loop [] (scalars (takeWhile (\<lambda>c. c \<noteq> CHR 0x0A) request)) of
        _ # p # _ \<Rightarrow> p
      | _ \<Rightarrow> ''/'')"

definition CRLF :: string where
  "CRLF = [CHR 0x0D, CHR 0x0A]"

text \<open>What follows the first blank line; without one the slice is out of range.\<close>

fun request_body :: "string \<Rightarrow> string option" where
  "request_body [] = None"
| "request_body (c # s) =
     (if starts_with (CRLF @ CRLF) (c # s) then Some (drop 4 (c # s)) else request_body s)"

definition with_length :: "string \<Rightarrow> string \<Rightarrow> string" where
  "with_length head_lines body =
     head_lines @ ''Content-Length: '' @ show_nat (length body) @ CRLF @ CRLF @ body"

definition json_response :: "string \<Rightarrow> string \<Rightarrow> string" where
  "json_response status body =
     with_length (''HTTP/1.1 '' @ status @ CRLF @ ''Content-Type: application/json'' @ CRLF
       @ ''Access-Control-Allow-Origin: *'' @ CRLF) body"

definition not_found :: string where
  "not_found = ''HTTP/1.1 404 Not Found'' @ CRLF @ CRLF"

definition WRITE_DISABLED :: string where
  "WRITE_DISABLED = ''{\"success\": false, \"message\": \"Config write disabled. Set RKSTRATUM_ALLOW_CONFIG_WRITE=1 to enable.\"}''"

definition WRITE_DONE :: string where
  "WRITE_DONE = ''{\"success\": true, \"message\": \"Config updated successfully. Bridge restart required for changes to take effect.\"}''"

definition WRITE_FAILED :: string where
  "WRITE_FAILED = ''{\"success\": false, \"message\": \"Failed to update config\"}''"

datatype http_outcome = Answered string | Failed string | Panicked

definition serve_metrics :: "http_env \<Rightarrow> http_mode \<Rightarrow> http_outcome" where
  "serve_metrics e mode =
     (case he_encode_metrics e (case mode of Aggregated b \<Rightarrow> he_gather e | Instance iid b \<Rightarrow> filter_families iid (he_gather e)) of
        Inl err \<Rightarrow> Failed err
      | Inr text \<Rightarrow> Answered (''HTTP/1.1 200 OK'' @ CRLF @ ''Content-Type: text/plain; version=0.0.4'' @ CRLF
          @ ''Content-Length: '' @ show_nat (length text) @ CRLF @ CRLF @ from_utf8_lossy text))"

definition serve_status :: "http_env \<Rightarrow> http_mode \<Rightarrow> web_state \<Rightarrow> http_outcome" where
  "serve_status e mode w =
     Answered (json_response ''200 OK'' (he_show_json e (JObj
       [(''kaspad_address'', JStr (fst (ws_status_config w))),
        (''kaspad_version'', JStr (the_default ''-'' (ns_server_version (he_node_status e)))),
        (''instances'', json_nat (snd (ws_status_config w))),
        (''web_bind'', JStr (web_bind mode))])))"

definition serve_stats :: "http_env \<Rightarrow> http_mode \<Rightarrow> web_state \<Rightarrow> http_outcome \<times> web_state" where
  "serve_stats e mode w =
     (let (st, act) = (case mode of
            Aggregated b \<Rightarrow> get_stats_json_all (he_stats e) (he_gather e) (ws_activity w)
          | Instance iid b \<Rightarrow> get_stats_json iid (he_stats e) (he_gather e) (ws_activity w))
      in (Answered (json_response ''200 OK'' (he_show_stats e st)), w\<lparr>ws_activity := act\<rparr>))"

definition serve_config_update :: "http_env \<Rightarrow> string \<Rightarrow> web_state \<Rightarrow> http_outcome \<times> web_state" where
  "serve_config_update e request w =
     (if \<not> config_write_allowed (he_env e) then (Answered (json_response ''403 Forbidden'' WRITE_DISABLED), w)
      else case request_body request of
             None \<Rightarrow> (Panicked, w)
           | Some body \<Rightarrow>
               (let (r, w) = update_config_from_json e body w
                in (Answered (json_response ''200 OK'' (if is_ok r then WRITE_DONE else WRITE_FAILED)), w)))"

definition serve_static :: "http_env \<Rightarrow> string \<Rightarrow> http_outcome" where
  "serve_static e url =
     (case try_read_static_file (he_dir e) (he_embedded e) (he_disk e) url of
        None \<Rightarrow> Answered not_found
      | Some (rel, bytes) \<Rightarrow>
          Answered (with_length (''HTTP/1.1 200 OK'' @ CRLF @ ''Content-Type: '' @ content_type_for_path rel @ CRLF) bytes))"

definition handle_http_request :: "http_env \<Rightarrow> http_mode \<Rightarrow> string \<Rightarrow> web_state \<Rightarrow> http_outcome \<times> web_state" where
  "handle_http_request e mode request w =
     (if starts_with ''GET /metrics'' request then (serve_metrics e mode, w)
      else if starts_with ''GET /api/status'' request then (serve_status e mode w, w)
      else if starts_with ''GET /api/stats'' request then serve_stats e mode w
      else if is_instance mode \<and> starts_with ''GET /api/config'' request
      then (Answered (json_response ''200 OK'' (get_config_json (he_parse_yaml e) (he_show_json e) (ws_config_file w))), w)
      else if is_instance mode \<and> starts_with ''POST /api/config'' request then serve_config_update e request w
      else if starts_with ''GET /'' request then (serve_static e (request_path request), w)
      else (Answered not_found, w))"

text \<open>
  One read of at most 8192 bytes makes the request, within five seconds (\<open>None\<close> otherwise); an empty
  one is dropped.
\<close>

definition serve_connection :: "http_env \<Rightarrow> http_mode \<Rightarrow> string option \<Rightarrow> web_state \<Rightarrow> http_outcome option \<times> web_state" where
  "serve_connection e mode received w =
     (case received of
        None \<Rightarrow> (None, w)
      | Some bytes \<Rightarrow>
          if bytes = [] then (None, w)
          else let (r, w) = handle_http_request e mode (from_utf8_lossy (take 8192 bytes)) w in (Some r, w))"

section \<open>Lemmas\<close>

lemma trim_prefix: "p \<noteq> [] \<Longrightarrow> trim_start_matches p (p @ t) = trim_start_matches p t"
  by (subst trim_start_matches.simps) (simp add: strip_prefix_def)

lemma trim_start_matches_suffix: "\<exists>u. s = u @ trim_start_matches p s"
proof (induction p s rule: trim_start_matches.induct)
  case (1 p s)
  show ?case
  proof (cases "p = [] \<or> strip_prefix p s = None")
    case False
    then obtain t where t: "strip_prefix p s = Some t" "p \<noteq> []" by auto
    with 1 obtain u where "t = u @ trim_start_matches p t" by blast
    moreover have "s = p @ t" "trim_start_matches p s = trim_start_matches p t"
      using t by (auto simp: strip_prefix_Some_iff trim_prefix)
    ultimately show ?thesis by (metis append.assoc)
  qed (subst trim_start_matches.simps, auto)
qed

lemma rooted_static_rel:
  assumes "static_rel url = Some rel" "starts_with ''/'' rel"
  shows "starts_with ''/static//'' url"
proof -
  have st: "starts_with ''/static/'' url" "rel = trim_start_matches ''/static/'' url"
    using assms by (auto simp: static_rel_def starts_with_def split: if_splits)
  then obtain t where t: "url = ''/static/'' @ t" by (auto simp: starts_with_iff)
  have "starts_with ''/'' t"
  proof (cases "strip_prefix ''/static/'' t")
    case None
    then have "trim_start_matches ''/static/'' t = t" by (simp add: trim_start_matches.simps [of _ t])
    then have "rel = t" using st(2) t trim_prefix [of "''/static/''" t] by simp
    then show ?thesis using assms(2) by simp
  next
    case (Some r)
    then show ?thesis by (auto simp: strip_prefix_Some_iff starts_with_def)
  qed
  then show ?thesis using t by (auto simp: starts_with_iff)
qed

lemma path_join_relative: "\<not> starts_with ''/'' rel \<Longrightarrow>
  path_join (path_join dir ''static'') rel = path_join dir ''static'' @ ''/'' @ rel"
  by (simp add: path_join_def starts_with_def)

lemma escape_example: "static_disk_path dir ''/static//etc/passwd'' = Some ''/etc/passwd''"
proof -
  have "trim_start_matches ''/static/'' ''/static//etc/passwd'' = ''/etc/passwd''"
    by (simp add: trim_start_matches.simps [of "''/static/''"] strip_prefix_def starts_with_def)
  then show ?thesis
    by (simp add: static_disk_path_def static_rel_def safe_rel_def path_join_def starts_with_def)
qed

lemma stats_keep_file: "ws_config_file (snd (serve_stats e mode w)) = ws_config_file w"
  by (simp add: serve_stats_def split_beta)

definition loadable :: "instance_config list \<Rightarrow> bool" where
  "loadable cs \<longleftrightarrow> (checked_instances cs = Inr cs \<and> first_duplicate [] (map ic_stratum_port cs) = None)"

lemma loadable_iff:
  "loadable cs \<longleftrightarrow> cs \<noteq> [] \<and> [] \<notin> set (map ic_stratum_port cs) \<and> distinct (map ic_stratum_port cs)"
  using first_without_port_None [of 0 cs]
  by (auto simp: loadable_def checked_instances_def first_duplicate_None split: option.splits if_splits)

lemma config_on_disk_loadable: "loadable (ac_instances (config_on_disk parse file))"
  using from_yaml_ports
  by (auto simp: loadable_iff config_on_disk_def default_config_def default_instance_def split: option.split sum.split)

section \<open>Properties\<close>

text \<open>
  C19: A request changes the configuration file only on the server of an instance, by a POST to
  \<^verbatim>\<open>/api/config\<close>, while the environment allows it; what is written is the update of what was there.
\<close>

theorem config_write_guarded:
  assumes "ws_config_file (snd (serve_connection e mode received w)) \<noteq> ws_config_file w"
  shows "is_instance mode \<and> config_write_allowed (he_env e)
    \<and> (\<exists>bytes body u yaml. received = Some bytes \<and> starts_with ''POST /api/config'' (from_utf8_lossy (take 8192 bytes))
        \<and> request_body (from_utf8_lossy (take 8192 bytes)) = Some body \<and> he_parse_json e body = Inr u
        \<and> he_show_yaml e (update_config u (config_on_disk (he_parse_yaml e) (ws_config_file w))) = Inr yaml
        \<and> ws_config_file (snd (serve_connection e mode received w)) = Some yaml)"
  using assms
  by (auto simp: serve_connection_def handle_http_request_def stats_keep_file serve_config_update_def
      update_config_from_json_def split_beta split: option.splits sum.splits if_splits)



section \<open>Witnesses\<close>


definition demo_http :: http_env where
  "demo_http =
     \<lparr>he_env = (\<lambda>_. Some ''1''), he_dir = ''/srv'', he_embedded = (\<lambda>_. None), he_disk = (\<lambda>_. None),
      he_parse_yaml = (\<lambda>_. Inl ''bad''), he_show_yaml = (\<lambda>c. Inr ''new''), he_parse_json = (\<lambda>_. Inr (JObj [])),
      he_show_json = (\<lambda>_. []), he_show_stats = (\<lambda>_. []), he_encode_metrics = (\<lambda>_. Inr []), he_gather = [],
      he_stats = demo_stats_env, he_node_status = NODE_STATUS_default, he_write_ok = True\<rparr>"

definition demo_post :: string where
  "demo_post = ''POST /api/config'' @ CRLF @ CRLF @ ''{}''"

definition demo_web :: web_state where
  "demo_web = \<lparr>ws_config_file = None, ws_status_config = (''-'', 1), ws_activity = []\<rparr>"

lemma config_write_guarded_witness:
  "ws_config_file (snd (serve_connection demo_http (Instance ''i'' ''b'') (Some demo_post) demo_web)) = Some ''new''"
proof -
  let ?r = "serve_connection demo_http (Instance ''i'' ''b'') (Some demo_post) demo_web"
  have a: "from_utf8_lossy (take 8192 demo_post) = demo_post"
    by (simp add: demo_post_def CRLF_def lossy_ascii is_ascii_def byte_def)
  have b: "request_body demo_post = Some ''{}''"
    by (simp add: demo_post_def CRLF_def starts_with_def)
  have "ws_config_file (snd ?r) \<noteq> ws_config_file demo_web"
    using a b
    by (simp add: serve_connection_def handle_http_request_def serve_config_update_def update_config_from_json_def
        config_write_allowed_def demo_http_def demo_web_def)
      (simp add: demo_post_def CRLF_def starts_with_def)
  from config_write_guarded [OF this] show ?thesis by (auto simp: demo_http_def)
qed


end
