(* ===== verification/Ledger.thy ===== *)
theory Ledger
  imports LiveCounts
begin

text \<open>
  The books of the share handler: what an invariant of its statistics must survive, stated once as
  a locale, proved of every operation of the server and instantiated with two invariants: the
  overall counters are the sums of the workers' counters, and no counter is negative.
\<close>

section \<open>The counters\<close>

datatype counter = FoundShares | StaleShares | InvalidShares | FoundBlocks

fun tally :: "work_stats \<Rightarrow> counter \<Rightarrow> int" where
  "tally st FoundShares = shares_found st"
| "tally st StaleShares = stale_shares st"
| "tally st InvalidShares = invalid_shares st"
| "tally st FoundBlocks = blocks_found st"

definition bumps :: "counter \<Rightarrow> (work_stats \<Rightarrow> work_stats) \<Rightarrow> bool" where
  "bumps c f \<longleftrightarrow> (\<forall>st d. tally (f st) d = tally st d + (if d = c then 1 else 0))"

definition spares :: "(work_stats \<Rightarrow> work_stats) \<Rightarrow> bool" where
  "spares f \<longleftrightarrow> (\<forall>st d. tally (f st) d = tally st d)"

lemma tally_eqI:
  assumes "shares_found st = shares_found st'" and "stale_shares st = stale_shares st'"
    and "invalid_shares st = invalid_shares st'" and "blocks_found st = blocks_found st'"
  shows "tally st d = tally st' d"
  using assms by (cases d) simp_all

lemma tally_new [simp]: "tally (work_stats_new w now) d = 0" "tally (st\<lparr>min_diff := x\<rparr>) d = tally st d"
  by (cases d; simp add: work_stats_new_def)+


lemma all_counters: "(\<forall>d. P d) \<longleftrightarrow> P FoundShares \<and> P StaleShares \<and> P InvalidShares \<and> P FoundBlocks"
  by (metis counter.exhaust)

lemmas counting = bumps_def spares_def all_counters

section \<open>Invariants of the handler\<close>

text \<open>
  What an invariant of the statistics must survive: a change of the guard or of the channels, a new
  worker, an update of one worker's cells that moves no counter, one share or block counted for a
  worker and overall, and the start of a confirmation task.
\<close>

named_theorems kept \<open>operations that keep an invariant of the handler\<close>

locale handler_invariant =
  fixes P :: "share_handler \<Rightarrow> bool"
  assumes known: "P sh \<Longrightarrow> table_ok sh \<and> (\<forall>task\<in>set (confirm_tasks sh). task_stats task < next_stats sh)"
    and outside: "P sh \<Longrightarrow> P (sh\<lparr>duplicate_submit_guard := gd\<rparr>)" "P sh \<Longrightarrow> P (sh\<lparr>events := evs\<rparr>)"
      "P sh \<Longrightarrow> P (sh\<lparr>refreshes := rs\<rparr>)"
    and new_worker: "P sh \<Longrightarrow> hm_get (stats sh) k = None \<Longrightarrow> (\<And>d. tally st d = 0) \<Longrightarrow>
      P (sh\<lparr>stats := hm_insert k (next_stats sh) (stats sh), stats_heap := (stats_heap sh)(next_stats sh := st),
            next_stats := Suc (next_stats sh)\<rparr>)"
    and spared: "P sh \<Longrightarrow> spares f \<Longrightarrow> P (sh\<lparr>stats_heap := (stats_heap sh)(a := f (stats_heap sh a))\<rparr>)"
    and counted_once: "P sh \<Longrightarrow> a < next_stats sh \<Longrightarrow> bumps c f \<Longrightarrow> bumps c g \<Longrightarrow>
      P (sh\<lparr>stats_heap := (stats_heap sh)(a := f (stats_heap sh a)), overall := g (overall sh)\<rparr>)"
    and spawned: "P sh \<Longrightarrow> task_stats task < next_stats sh \<Longrightarrow> P (sh\<lparr>confirm_tasks := confirm_tasks sh @ [task]\<rparr>)"
    and joined: "P sh \<Longrightarrow> P (sh\<lparr>confirm_tasks := remove1 task (confirm_tasks sh)\<rparr>)"
    and pruned: "P sh \<Longrightarrow> P (prune_stats now sh)"
begin

lemma handler_parts [kept]:
  assumes "P sh"
  shows "P (emit ev sh)" "P (emit_rejected wal wor r now cor sh)" "P (emit_block_found env wal wor h d sh)"
    "P (emit_credited env wal wor x d sh)" "P (sh\<lparr>duplicate_submit_guard := g\<rparr>)" "P (sh\<lparr>refreshes := rs\<rparr>)"
  using assms by (auto simp: emit_def emit_rejected_def emit_block_found_def emit_credited_def outside
      split: option.splits sum.splits)

lemma upd_kept [kept]:
  "P (handler b) \<Longrightarrow> spares f \<Longrightarrow> P (handler (upd_stats a f b))"
  "P (handler b) \<Longrightarrow> a < next_stats (handler b) \<Longrightarrow> bumps c f \<Longrightarrow> bumps c g \<Longrightarrow>
     P (handler (upd_overall g (upd_stats a f b)))"
  using spared counted_once by (simp_all add: upd_stats_def upd_overall_def)

lemma settle_kept [kept]: "P (handler b) \<Longrightarrow> P (handler (settle t k out b))"
  by (simp add: settle_def kept)

lemma get_create_kept [kept]:
  assumes "P (handler b)"
  shows "P (handler (snd (get_create_stats t b)))"
    and "fst (get_create_stats t b) < next_stats (handler (snd (get_create_stats t b)))"
proof -
  show *: "P (handler (snd (get_create_stats t b)))"
    using assms unfolding get_create_stats_def effective_worker_name_def Let_def split_beta
    by (auto simp: WorkStats.frame intro!: new_worker split: option.splits)
  obtain a b' where g: "get_create_stats t b = (a, b')" by fastforce
  have "table_ok (handler b')" using * known g by simp
  then show "fst (get_create_stats t b) < next_stats (handler (snd (get_create_stats t b)))"
    using map_of_SomeD [OF get_create_found(1) [OF g]] by (force simp: table_ok_def g)
qed


text \<open>Submissions.\<close>

lemma plain_kept [kept]:
  "P (handler b) \<Longrightarrow> P (handler (snd (duplicate_check t key b)))"
  "P (handler b) \<Longrightarrow> P (handler (snd (answer f b)))"
  "P (handler b) \<Longrightarrow> P (handler (snd (send_on f b)))"
  unfolding duplicate_check_def answer_def send_on_def Let_def split_beta
  by (auto intro!: kept split: option.splits)

lemma labels_kept [kept]:
  "P (handler b) \<Longrightarrow> P (handler (snd (worker_prom_context b m)))"
  "P (handler b) \<Longrightarrow> P (handler (snd (prom_context iid m b)))"
  "P (handler b) \<Longrightarrow> P (handler (sync_worker_prom_session t st b))"
  by (simp_all add: prom_context_def split_beta WorkStats.frame)

lemma answers_kept [kept]:
  "P (handler b) \<Longrightarrow> P (handler (answer_low_diff i b))"
  "P (handler b) \<Longrightarrow> P (handler (snd (answer_duplicate i out b)))"
  "P (handler b) \<Longrightarrow> P (handler (reject_submit env code reason b))"
  unfolding answer_low_diff_def answer_duplicate_def reject_submit_def Let_def
  by (auto intro!: kept split: option.splits duplicate_submit_outcome.splits)

lemma counted_kept [kept]:
  "P (handler b) \<Longrightarrow> P (handler (snd (block_stale env i key wal wor b)))"
  "P (handler b) \<Longrightarrow> P (handler (snd (block_bad env i key wal wor b)))"
  "P (handler b) \<Longrightarrow> P (handler (snd (reject_weak env i key b)))"
  "P (handler b) \<Longrightarrow> P (handler (snd (credit_share env i key cur j b)))"
  unfolding block_stale_def block_bad_def reject_weak_def credit_share_def Let_def split_beta
  by (auto intro!: kept simp: counting)

lemma block_kept [kept]:
  assumes "P (handler b)"
  shows "P (handler (block_accepted env blk h b))" "P (handler (snd (announce_block C env j blk wal wor b)))"
proof -
  have s: "P sh \<Longrightarrow> task_stats task < next_stats sh \<Longrightarrow> P (spawn_confirm task sh)" for sh task
    by (simp add: spawn_confirm_def spawned)
  have e: "next_stats (emit ev sh) = next_stats sh" for ev sh by (simp add: emit_def)
  show "P (handler (block_accepted env blk h b))"
    using assms get_create_kept [OF assms] unfolding block_accepted_def Let_def split_beta
    by (auto intro!: kept s simp: WorkStats.frame e split: sum.splits)
  show "P (handler (snd (announce_block C env j blk wal wor b)))"
    using assms unfolding announce_block_def Let_def split_beta by (auto intro!: kept)
qed

lemma submission_kept [kept]:
  "P (handler b) \<Longrightarrow> P (handler (snd (submit_claimed_block C env i key jid j blk wal wor b)))"
  unfolding submit_claimed_block_def Let_def split_beta
  by (auto intro!: kept split: sum.splits block_submit_outcome.splits)

lemma network_kept [kept]:
  "P (handler b) \<Longrightarrow> P (handler (snd (network_branch C env i key jid j blk meets b)))"
  unfolding network_branch_def Let_def split_beta by (auto intro!: kept simp: WorkStats.frame)

lemma pow_loop_kept [kept]:
  "P (handler b) \<Longrightarrow> P (handler (snd (snd (pow_loop C env i key nv jid n cur j weak b))))"
  by (induction n arbitrary: cur j weak) (auto simp: Let_def split_beta intro!: kept split: option.splits)

lemma judge_kept [kept]:
  "P (handler b) \<Longrightarrow> P (handler (snd (snd (judge_share C env i ns jid j nv b))))"
  unfolding judge_share_def Let_def split_beta
  by (auto intro!: kept split: option.splits share_verdict.splits)

lemma handle_submit_kept [kept]: "P (handler b) \<Longrightarrow> P (handler (snd (snd (handle_submit C env ev b))))"
  unfolding handle_submit_def by (auto intro!: kept split: sum.splits option.splits)

lemma confirm_kept [kept]:
  assumes "P (handler b)" and "task_stats task < next_stats (handler b)"
  shows "P (handler (snd (confirm_block colors task secs b)))"
proof -
  have "P (handler (snd (confirm_loop n colors task secs b)))" for n
    using assms by (induction n colors task secs b rule: confirm_loop.induct)
      (auto simp: Let_def split_beta counting intro!: kept split: list.splits)
  then show ?thesis by (simp add: confirm_block_def)
qed


text \<open>Tasks and frames.\<close>

lemma errors_kept [kept]:
  "P (handler b) \<Longrightarrow> P (handler (worker_error iid wal code b))"
  "P (handler b) \<Longrightarrow> P (handler (show_difficulty iid app d b))"
  "P (handler b) \<Longrightarrow> P (handler (snd (apply_diff te k d app b)))"
  "P (handler b) \<Longrightarrow> P (handler (snd (send_client_diff iid d b)))"
  by (auto simp: apply_diff_def send_client_diff_def Let_def split_beta WorkStats.frame split: option.splits)

lemma vardiff_kept [kept]:
  "P (handler b) \<Longrightarrow> P (handler (snd (register_client_vardiff t seed b)))"
  "P (handler b) \<Longrightarrow> P (handler (snd (set_client_vardiff t d b)))"
  "P (handler b) \<Longrightarrow> P (handler (start_client_vardiff t b))"
  "P (handler b) \<Longrightarrow> P (handler (activate_client_vardiff t b))"
  "P (handler b) \<Longrightarrow> P (handler (deactivate_client_vardiff t b))"
  "P (handler b) \<Longrightarrow> P (handler (create_stats_task t b))"
  unfolding register_client_vardiff_def set_client_vardiff_def start_client_vardiff_def create_stats_task_def
    activate_client_vardiff_def deactivate_client_vardiff_def Let_def split_beta
  by (auto intro!: kept simp: counting split: option.splits)

lemma follow_kept [kept]: "P (handler b) \<Longrightarrow> P (handler (snd (follow_vardiff je iid b)))"
  unfolding follow_vardiff_def Let_def split_beta by (auto intro!: kept split: option.splits)

lemma fetch_kept [kept]:
  "P (handler b) \<Longrightarrow> P (handler (snd (fetch_template C H je iid b)))"
  "P (handler b) \<Longrightarrow> P (handler (snd (store_job H iid wal block b)))"
  "P (handler b) \<Longrightarrow> P (handler (snd (publish_job t iid wal app mini jid h stamp b)))"
  unfolding fetch_template_def store_job_def publish_job_def Let_def split_beta
  by (auto intro!: kept split: option.splits sum.splits)

lemma immediate_kept [kept]:
  "P (handler b) \<Longrightarrow> P (handler (snd (immediate_job_start h je b)))"
  "P (handler b) \<Longrightarrow> P (handler (snd (init_mining_state te iid app d b)))"
  unfolding immediate_job_start_def init_mining_state_def Let_def split_beta by (auto intro!: kept)

lemma first_kept [kept]: "P (handler b) \<Longrightarrow> P (handler (snd (first_or_follow je iid app d b)))"
  unfolding first_or_follow_def Let_def split_beta by (auto intro!: kept)

lemma publishes_kept [kept]:
  "P (handler b) \<Longrightarrow> P (handler (snd (immediate_job_publish H je iid wal app d block b)))"
  "P (handler b) \<Longrightarrow> P (handler (snd (new_block_publish H h je wal app block b)))"
  "P (handler b) \<Longrightarrow> P (handler (snd (parent_refresh_fetch C je old b)))"
  "P (handler b) \<Longrightarrow> P (handler (snd (parent_refresh_publish C H je iid hfc busy parent b)))"
  unfolding immediate_job_publish_def new_block_publish_def parent_refresh_fetch_def parent_refresh_publish_def
    Let_def split_beta
  by (auto intro!: kept split: option.splits sum.splits)

lemma job_tasks_kept [kept]:
  "P (handler b) \<Longrightarrow> P (handler (snd (immediate_job_task C H je iid d b)))"
  "P (handler b) \<Longrightarrow> P (handler (snd (new_block_task C H h je busy b)))"
  "P (handler b) \<Longrightarrow> P (handler (snd (parent_refresh_task C H je iid busy old b)))"
  unfolding immediate_job_task_def new_block_task_def parent_refresh_task_def Let_def split_beta
  by (auto intro!: kept split: option.splits)

lemma new_parent_kept [kept]: "P (handler b) \<Longrightarrow> P (handler (snd (new_parent_available C H env h je busy b)))"
  unfolding new_parent_available_def Let_def split_beta by (auto intro!: kept split: option.splits)

lemma replies_kept [kept]:
  "P (handler b) \<Longrightarrow> P (handler (snd (reply_on what ev v b)))"
  "P (handler b) \<Longrightarrow> P (handler (snd (common_handshake h x b)))"
  "P (handler b) \<Longrightarrow> P (handler (snd (send_extranonce b)))"
  "P (handler b) \<Longrightarrow> P (handler (fst (assign_on env ho b n)))"
  "P (handler b) \<Longrightarrow> P (handler (snd (login_wallet C env ho address b)))"
  "P (handler b) \<Longrightarrow> P (handler (open_session cor ho address name b))"
  unfolding reply_on_def common_handshake_def send_extranonce_def assign_on_def login_wallet_def open_session_def
    Let_def split_beta
  by (auto intro!: kept split: option.splits sum.splits)

lemma handshake_kept [kept]:
  "P (handler b) \<Longrightarrow> P (handler (fst (snd (handle_subscribe env ho ev b n))))"
  "P (handler b) \<Longrightarrow> P (handler (snd (handle_extranonce_subscribe ev b)))"
  "P (handler b) \<Longrightarrow> P (handler (snd (authorize_reply je ho api ev b)))"
  "P (handler b) \<Longrightarrow> P (handler (snd (set_identity t ho address worker b)))"
  unfolding handle_subscribe_def handle_extranonce_subscribe_def authorize_reply_def start_immediate_job_def
    set_identity_def prepare_worker_identity_change_def sync_worker_prom_metrics_def Let_def split_beta
  by (auto intro!: kept split: option.splits sum.splits)

lemma authorize_kept [kept]: "P (handler b) \<Longrightarrow> P (handler (snd (handle_authorize C env je cor ho api ev b)))"
  unfolding handle_authorize_def authorize_identity_def Let_def split_beta
  by (auto intro!: kept split: list.splits option.splits)

lemma disconnect_kept [kept]: "P (pool_handler p) \<Longrightarrow> P (pool_handler (on_disconnect t cor a p))"
  unfolding on_disconnect_def Let_def split_beta by (auto intro!: kept simp: bridge_of_def)

lemma tick_kept [kept]: "P sh \<Longrightarrow> P (vardiff_tick log2 now rate clamp sh)"
proof -
  have t: "spares (vardiff_tick1 log2 now e clamp)" for e
    by (auto simp: counting vardiff_tick1_def Let_def split: option.splits)
  have "P sh \<Longrightarrow> P (sh\<lparr>stats_heap := fold (\<lambda>(k, a) h. h(a := vardiff_tick1 log2 now e clamp (h a))) xs (stats_heap sh)\<rparr>)"
    for e xs and sh :: share_handler
  proof (induction xs arbitrary: sh)
    case (Cons x xs)
    show ?case
      using Cons.IH [OF spared [OF Cons.prems t, of "snd x" e]] by (simp add: split_beta)
  qed simp
  then show "P sh \<Longrightarrow> ?thesis" by (simp add: vardiff_tick_def)
qed


text \<open>The steps of the server.\<close>

lemma run_kept:
  assumes "P (pool_handler (srv_pool s))" and "\<And>b. P (handler b) \<Longrightarrow> P (handler (snd (f b)))"
  shows "P (pool_handler (srv_pool (snd (run_on a f s))))"
  using assms by (simp add: bridge_of_def)

lemma frame_kept:
  assumes "P (pool_handler (srv_pool s))" and "handler_map C env envs a m = Some f"
  shows "P (pool_handler (srv_pool (f ev s)))"
proof -
  let ?s = "s\<lparr>srv_calls := Suc (srv_calls s)\<rparr>"
  have "P (pool_handler (srv_pool (on_subscribe env a ev ?s)))"
    using assms(1) by (simp add: on_subscribe_def split_beta Let_def kept bridge_of_def)
  moreover have "P (pool_handler (srv_pool (on_authorize C env ce a ev ?s)))" for ce
    using assms(1) by (auto simp: on_authorize_def split_beta intro!: kept split: sum.splits) (simp_all add: bridge_of_def kept)
  moreover have "P (pool_handler (srv_pool (on_submit C ce a ev ?s)))" for ce
    using assms(1) by (simp add: on_submit_def split_beta kept bridge_of_def)
  moreover have "P (pool_handler (srv_pool (snd (run_on a (handle_extranonce_subscribe ev) ?s))))"
    using assms(1) by (intro run_kept) (simp_all add: kept)
  ultimately show ?thesis using assms(2) by (auto simp: handler_map_def split: if_splits)
qed

lemma step_kept:
  assumes "server_step C H env log2 envs s s'" and "P (pool_handler (srv_pool s))"
  shows "P (pool_handler (srv_pool s'))"
  using assms
proof (induction rule: server_step.induct)
  case (frame_in a s m f ev)
  then show ?case using frame_kept by blast
next
  case (confirm a s task colors secs)
  then show ?case
    using known [of "pool_handler (srv_pool s)"] joined [of "pool_handler (srv_pool s)" task]
    by (simp add: confirm_step_def on_handler_def bridge_of_def kept)
next
  case (refresh s je uid)
  then show ?case
    by (auto simp: refresh_step_def split_beta Let_def bridge_of_def kept split: option.splits)
next
  case (new_block now s r p)
  then show ?case by (auto simp: new_block_available_def Let_def split: if_splits)
next
  case (balances s reply_of_node)
  then show ?case by (simp add: balance_task_def split: sum.splits)
qed (simp_all add: connect_step_def on_connect_def Let_def hang_up_step_def kept drop_step_def metric_step_def
    watchdog_step_def job_step_def bridge_of_def pruned on_handler_def disconnect_all_def)


lemma reachable_kept:
  assumes "reachable C H env log2 envs s" and "\<And>i now. P (share_handler_new i now)"
    and "\<And>sh. P sh \<Longrightarrow> P (with_event_bus sh)"
  shows "P (pool_handler (srv_pool s))"
  using assms(1) by induction (auto simp: server_new_def Let_def assms(2,3) intro: step_kept)

end

section \<open>Two invariants\<close>

definition tasks_known :: "share_handler \<Rightarrow> bool" where
  "tasks_known sh \<longleftrightarrow> (\<forall>task\<in>set (confirm_tasks sh). task_stats task < next_stats sh)"

text \<open>Every share and block is in the books of one worker, the pruned ones included.\<close>

definition books :: "share_handler \<Rightarrow> bool" where
  "books sh \<longleftrightarrow> table_ok sh \<and> tasks_known sh
     \<and> (\<forall>d. (\<Sum>a<next_stats sh. tally (stats_heap sh a) d) = tally (overall sh) d)"

definition never_negative :: "share_handler \<Rightarrow> bool" where
  "never_negative sh \<longleftrightarrow> table_ok sh \<and> tasks_known sh
     \<and> (\<forall>a d. 0 \<le> tally (stats_heap sh a) d) \<and> (\<forall>d. 0 \<le> tally (overall sh) d)"

lemma tasks_grow: "tasks_known sh \<Longrightarrow> tasks_known (sh\<lparr>stats := m, stats_heap := h, next_stats := Suc (next_stats sh)\<rparr>)"
  by (auto simp: tasks_known_def less_Suc_eq)

lemma tasks_same [simp]:
  "tasks_known (sh\<lparr>stats_heap := h\<rparr>) = tasks_known sh" "tasks_known (sh\<lparr>overall := st\<rparr>) = tasks_known sh"
  "tasks_known (sh\<lparr>duplicate_submit_guard := g\<rparr>) = tasks_known sh" "tasks_known (sh\<lparr>events := evs\<rparr>) = tasks_known sh"
  "tasks_known (sh\<lparr>refreshes := rs\<rparr>) = tasks_known sh" "tasks_known (sh\<lparr>event_tx := e\<rparr>) = tasks_known sh"
  "tasks_known (prune_stats now sh) = tasks_known sh"
  by (simp_all add: tasks_known_def prune_stats_def)

lemma table_same [simp]:
  "table_ok (sh\<lparr>stats_heap := h\<rparr>) = table_ok sh" "table_ok (sh\<lparr>overall := st\<rparr>) = table_ok sh"
  "table_ok (sh\<lparr>duplicate_submit_guard := g\<rparr>) = table_ok sh" "table_ok (sh\<lparr>events := evs\<rparr>) = table_ok sh"
  "table_ok (sh\<lparr>refreshes := rs\<rparr>) = table_ok sh" "table_ok (sh\<lparr>event_tx := e\<rparr>) = table_ok sh"
  "table_ok (sh\<lparr>confirm_tasks := ts'\<rparr>) = table_ok sh"
  by (simp_all add: table_ok_def)

lemma tasks_change:
  "tasks_known sh \<Longrightarrow> task_stats task < next_stats sh \<Longrightarrow> tasks_known (sh\<lparr>confirm_tasks := confirm_tasks sh @ [task]\<rparr>)"
  "tasks_known sh \<Longrightarrow> tasks_known (sh\<lparr>confirm_tasks := remove1 task (confirm_tasks sh)\<rparr>)"
  by (auto simp: tasks_known_def dest: notin_set_remove1)

lemma sum_bumped:
  fixes n :: nat
  assumes "a < n" and "bumps c f"
  shows "(\<Sum>x<n. tally ((h(a := f (h a))) x) d) = (\<Sum>x<n. tally (h x) d) + (if d = c then 1 else (0::int))"
proof -
  have "(\<Sum>x<n. tally ((h(a := f (h a))) x) d) = (\<Sum>x<n. tally (h x) d + (if x = a then (if d = c then 1 else 0) else 0))"
    using assms(2) by (intro sum.cong) (auto simp: bumps_def)
  then show ?thesis using assms(1) by (simp add: sum.distrib)
qed

lemma sum_spared: "spares f \<Longrightarrow> (\<Sum>x<n. tally ((h(a := f (h a))) x) d) = (\<Sum>x<n. tally (h x) d)"
  by (intro sum.cong) (auto simp: spares_def)

interpretation book: handler_invariant books
proof
  fix sh :: share_handler and k st and f g :: "work_stats \<Rightarrow> work_stats" and a c task now
  assume b: "books sh"
  show "table_ok sh \<and> (\<forall>task\<in>set (confirm_tasks sh). task_stats task < next_stats sh)"
    using b by (simp add: books_def tasks_known_def)
  show "hm_get (stats sh) k = None \<Longrightarrow> (\<And>d. tally st d = 0) \<Longrightarrow>
      books (sh\<lparr>stats := hm_insert k (next_stats sh) (stats sh), stats_heap := (stats_heap sh)(next_stats sh := st),
        next_stats := Suc (next_stats sh)\<rparr>)"
    using b by (simp add: books_def table_ok_insert tasks_grow)
  show "spares f \<Longrightarrow> books (sh\<lparr>stats_heap := (stats_heap sh)(a := f (stats_heap sh a))\<rparr>)"
    using b by (simp add: books_def sum_spared del: fun_upd_apply)
  show "a < next_stats sh \<Longrightarrow> bumps c f \<Longrightarrow> bumps c g \<Longrightarrow>
      books (sh\<lparr>stats_heap := (stats_heap sh)(a := f (stats_heap sh a)), overall := g (overall sh)\<rparr>)"
    using b by (simp add: books_def sum_bumped bumps_def [of c g] del: fun_upd_apply)
qed (auto simp: books_def tasks_change table_ok_prune, auto simp: prune_stats_def)

interpretation nonneg: handler_invariant never_negative
proof
  fix sh :: share_handler and k st and f g :: "work_stats \<Rightarrow> work_stats" and a c
  assume b: "never_negative sh"
  show "table_ok sh \<and> (\<forall>task\<in>set (confirm_tasks sh). task_stats task < next_stats sh)"
    using b by (simp add: never_negative_def tasks_known_def)
  show "hm_get (stats sh) k = None \<Longrightarrow> (\<And>d. tally st d = 0) \<Longrightarrow>
      never_negative (sh\<lparr>stats := hm_insert k (next_stats sh) (stats sh), stats_heap := (stats_heap sh)(next_stats sh := st),
        next_stats := Suc (next_stats sh)\<rparr>)"
    using b by (simp add: never_negative_def table_ok_insert tasks_grow)
  show "spares f \<Longrightarrow> never_negative (sh\<lparr>stats_heap := (stats_heap sh)(a := f (stats_heap sh a))\<rparr>)"
    using b by (simp add: never_negative_def spares_def)
  show "a < next_stats sh \<Longrightarrow> bumps c f \<Longrightarrow> bumps c g \<Longrightarrow>
      never_negative (sh\<lparr>stats_heap := (stats_heap sh)(a := f (stats_heap sh a)), overall := g (overall sh)\<rparr>)"
    using b by (simp add: never_negative_def bumps_def)
qed (auto simp: never_negative_def tasks_change table_ok_prune, auto simp: prune_stats_def)

lemma books_reachable: "reachable C H env log2 envs s \<Longrightarrow> books (pool_handler (srv_pool s))"
  by (erule book.reachable_kept)
    (simp_all add: books_def tasks_known_def table_ok_new with_event_bus_def, simp add: share_handler_new_def)

lemma never_negative_reachable: "reachable C H env log2 envs s \<Longrightarrow> never_negative (pool_handler (srv_pool s))"
  by (erule nonneg.reachable_kept)
    (simp_all add: never_negative_def tasks_known_def table_ok_new with_event_bus_def, simp add: share_handler_new_def)

text \<open>The workers in the table, which are the ones not pruned, never account for more than the whole.\<close>

lemma listed_within:
  assumes "books sh" and "never_negative sh"
  shows "(\<Sum>(k, a)\<leftarrow>stats sh. tally (stats_heap sh a) d) \<le> tally (overall sh) d"
proof -
  have "(\<Sum>(k, a)\<leftarrow>stats sh. tally (stats_heap sh a) d) = (\<Sum>a\<in>snd ` set (stats sh). tally (stats_heap sh a) d)"
    using assms(1) sum_list_distinct_conv_sum_set [of "map snd (stats sh)" "\<lambda>a. tally (stats_heap sh a) d"]
    by (simp add: books_def table_ok_def split_def o_def)
  also have "\<dots> \<le> (\<Sum>a<next_stats sh. tally (stats_heap sh a) d)"
    using assms by (intro sum_mono2) (auto simp: books_def table_ok_def never_negative_def)
  finally show ?thesis using assms(1) by (simp add: books_def)
qed

section \<open>Properties\<close>

text \<open>
  C3: the books of the server balance: in every state that it can reach, by any interleaving of
  submissions, confirmations, prunings and the rest, the overall number of shares found, of stale
  shares, of invalid shares and of blocks found is the sum over all workers that the server has
  had, the pruned ones included; no counter is negative, so that the workers still in the table
  account for at most the whole.
\<close>

theorem books_balance:
  assumes "reachable C H env log2 envs s"
  shows "tally (overall (pool_handler (srv_pool s))) d
      = (\<Sum>a<next_stats (pool_handler (srv_pool s)). tally (stats_heap (pool_handler (srv_pool s)) a) d)
    \<and> (\<forall>a. 0 \<le> tally (stats_heap (pool_handler (srv_pool s)) a) d)
    \<and> (\<Sum>(k, a)\<leftarrow>stats (pool_handler (srv_pool s)). tally (stats_heap (pool_handler (srv_pool s)) a) d)
      \<le> tally (overall (pool_handler (srv_pool s))) d"
  using books_reachable [OF assms] never_negative_reachable [OF assms] listed_within
  by (simp add: books_def never_negative_def)

lemma books_balance_witness:
  "tally (overall (pool_handler (srv_pool demo_in))) FoundBlocks
    = (\<Sum>a<next_stats (pool_handler (srv_pool demo_in)). tally (stats_heap (pool_handler (srv_pool demo_in)) a) FoundBlocks)"
  using books_balance [OF demo_in_reachable] by blast

end
