(* ===== verification/Console.thy ===== *)
theory Console
  imports Ledger NodeLink "HOL-Library.List_Lexorder" "HOL-Library.Char_ord"
begin

text \<open>
  The statistics table that the console prints every ten seconds
  (\<^verbatim>\<open>start_print_stats_thread_impl\<close> in \<^verbatim>\<open>share_handler.rs\<close>): the registry of printers, the
  formatting of numbers and cells, the rows of the workers, the line on the node, the internal
  miner and the totals.  One tick reads the clock once.  The lemmas show that the totals are those of the books
  of the servers printed and that the cells of text keep the columns aligned.
\<close>

section \<open>Formatting\<close>

definition char_count :: "string \<Rightarrow> nat" where
  "char_count s = length (scalars s)"

text \<open>\<^verbatim>\<open>{:<w$}\<close> and \<^verbatim>\<open>{:>w$}\<close>: the width counts characters, a longer text is not cut.\<close>

definition pad_right :: "nat \<Rightarrow> string \<Rightarrow> string" where
  "pad_right w s = s @ replicate (w - char_count s) CHR '' ''"

definition pad_left :: "nat \<Rightarrow> string \<Rightarrow> string" where
  "pad_left w s = replicate (w - char_count s) CHR '' '' @ s"

definition pad_zeros :: "nat \<Rightarrow> string \<Rightarrow> string" where
  "pad_zeros w s = replicate (w - length s) CHR ''0'' @ s"

text \<open>\<^verbatim>\<open>{:.k}\<close>: the exact value rounded to \<open>k\<close> decimals, ties to even.\<close>

definition show_decimals :: "nat \<Rightarrow> nat \<Rightarrow> string" where
  "show_decimals k m = show_nat (m div 10 ^ k) @ (if k = 0 then [] else CHR ''.'' # pad_zeros k (show_nat (m mod 10 ^ k)))"

fun show_fixed :: "nat \<Rightarrow> f64 \<Rightarrow> string" where
  "show_fixed k NaN = ''NaN''"
| "show_fixed k PInf = ''inf''"
| "show_fixed k NInf = ''-inf''"
| "show_fixed k (Fin q) = (if q < 0 then ''-'' else []) @ show_decimals k (nat (rne (\<bar>q\<bar> * 10 ^ k)))"

text \<open>\<^verbatim>\<open>{:.2e}\<close>: three significant digits and the decimal exponent.\<close>

definition decimal_exponent :: "rat \<Rightarrow> int" where
  "decimal_exponent q =
     (if 1 \<le> q then int (length (show_nat (nat \<lfloor>q\<rfloor>))) - 1
      else - int (length (show_nat (nat (\<lceil>1 / q\<rceil> - 1)))))"

fun show_exp2 :: "f64 \<Rightarrow> string" where
  "show_exp2 NaN = ''NaN''"
| "show_exp2 PInf = ''inf''"
| "show_exp2 NInf = ''-inf''"
| "show_exp2 (Fin q) =
     (if q = 0 then ''0.00e0''
      else let e = decimal_exponent \<bar>q\<bar>;
               m = nat (rne (\<bar>q\<bar> / 10 powi (e - 2)));
               (m, e) = (if m = 1000 then (100, e + 1) else (m, e))
           in (if q < 0 then ''-'' else []) @ show_decimals 2 m @ ''e'' @ show_int e)"

text \<open>\<^verbatim>\<open>f64::round\<close>: ties away from zero.\<close>

definition fround :: "f64 \<Rightarrow> f64" where
  "fround x = (case x of Fin q \<Rightarrow> Fin (if 0 \<le> q then of_int \<lfloor>q + 1/2\<rfloor> else - of_int \<lfloor>1/2 - q\<rfloor>) | _ \<Rightarrow> x)"

definition format_hashrate :: "f64 \<Rightarrow> string" where
  "format_hashrate ghs =
     (if flt ghs (Fin 1) then show_fixed 2 (fmul ghs (Fin 1000)) @ ''MH/s''
      else if flt ghs (Fin 1000) then show_fixed 2 ghs @ ''GH/s''
      else show_fixed 2 (fdiv ghs (Fin 1000)) @ ''TH/s'')"

text \<open>The test is on bytes, the cut on characters.\<close>

definition trunc :: "string \<Rightarrow> nat \<Rightarrow> string" where
  "trunc s limit = (if length s \<le> limit then s else concat (take limit (scalars s)))"

definition format_uptime :: "nat \<Rightarrow> string" where
  "format_uptime d =
     (let total_secs = d div 10 ^ 9;
          two = (\<lambda>n. pad_zeros 2 (show_nat n))
      in two (total_secs div 86400) @ '':'' @ two (total_secs mod 86400 div 3600) @ '':''
         @ two (total_secs mod 3600 div 60) @ '':'' @ two (total_secs mod 60))"

section \<open>Columns\<close>

datatype side = Lft | Rgt

definition columns :: "(side \<times> nat) list" where
  "columns = [(Lft, 16), (Lft, 5), (Rgt, 11), (Rgt, 6), (Rgt, 11), (Lft, 4), (Rgt, 12), (Rgt, 6), (Rgt, 6), (Rgt, 11)]"

definition cell :: "side \<times> nat \<Rightarrow> string \<Rightarrow> string" where
  "cell c s = (case c of (Lft, w) \<Rightarrow> pad_right w s | (Rgt, w) \<Rightarrow> pad_left w s)"

fun join :: "string \<Rightarrow> string list \<Rightarrow> string" where
  "join sep [] = []"
| "join sep [s] = s"
| "join sep (s # t # rest) = s @ sep @ join sep (t # rest)"

definition border :: string where
  "border = ''+-'' @ join ''-+-'' (map (\<lambda>(_, w). replicate w CHR ''-'') columns) @ ''-+''"

definition table_line :: "string list \<Rightarrow> string" where
  "table_line cells = ''| '' @ join '' | '' (map2 cell columns cells) @ '' |''"

definition table_header :: string where
  "table_header = table_line [''Worker'', ''Inst'', ''Hash'', ''Diff'', ''SPM|TGT'', ''Trnd'', ''Acc|Stl|Inv'',
     ''Blocks'', ''Total'', ''D|HR|M|S'']"

section \<open>The registry\<close>

text \<open>A printer shares the statistics of its handler: it is registered with the handler's address.\<close>

record printer_entry =
  pe_instance_id :: string
  pe_inst_short :: string
  pe_target_spm :: f64
  pe_start :: nat
  pe_stats :: nat

record printer_registry =
  reg_entries :: "printer_entry list"
  reg_started :: bool

definition inst_short_of :: "string \<Rightarrow> string" where
  "inst_short_of instance_id =
     (case parse_uint 10 32 (filter is_ascii_digit instance_id) of
        Some n \<Rightarrow> ''Ins'' @ pad_zeros 2 (show_nat n)
      | None \<Rightarrow> ''Ins??'')"

text \<open>The result tells whether the printing task is to be spawned: once for all instances.\<close>

definition start_print_stats :: "nat \<Rightarrow> string \<Rightarrow> u32 \<Rightarrow> nat \<Rightarrow> printer_registry \<Rightarrow> bool \<times> printer_registry" where
  "start_print_stats now instance_id target_spm handler_at r =
     (let target = (if target_spm = 0 then Fin 20 else of_n (unat target_spm));
          entry = \<lparr>pe_instance_id = instance_id, pe_inst_short = inst_short_of instance_id, pe_target_spm = target,
            pe_start = now, pe_stats = handler_at\<rparr>;
          es = (if list_ex (\<lambda>e. pe_instance_id e = instance_id) (reg_entries r) then reg_entries r
                else reg_entries r @ [entry])
      in (\<not> reg_started r, \<lparr>reg_entries = es, reg_started = True\<rparr>))"

section \<open>Rows and totals\<close>

record console_totals =
  tot_rate :: f64
  tot_spm :: f64
  tot_count :: nat
  tot_shares :: int
  tot_stales :: int
  tot_invalids :: int
  tot_blocks :: int
  tot_blocks_all_time :: int
  tot_target :: "f64 option"

definition totals_new :: "f64 \<Rightarrow> console_totals" where
  "totals_new target =
     \<lparr>tot_rate = Fin 0, tot_spm = Fin 0, tot_count = 0, tot_shares = 0, tot_stales = 0, tot_invalids = 0,
      tot_blocks = 0, tot_blocks_all_time = 0, tot_target = Some target\<rparr>"

definition spm_cell :: "f64 \<Rightarrow> string \<Rightarrow> string" where
  "spm_cell spm target = pad_left 4 (show_fixed 1 spm) @ ''/'' @ target"

definition counts_cell :: "int \<Rightarrow> int \<Rightarrow> int \<Rightarrow> string" where
  "counts_cell acc stl bad = show_int acc @ ''/'' @ show_int stl @ ''/'' @ show_int bad"

definition row_rate :: "nat \<Rightarrow> work_stats \<Rightarrow> f64" where
  "row_rate now v =
     (let elapsed = as_secs_f64 (now - start_time v)
      in if flt (Fin 0) elapsed then fdiv (shares_diff v) elapsed else Fin 0)"

definition row_spm :: "nat \<Rightarrow> work_stats \<Rightarrow> f64" where
  "row_spm now v =
     (let elapsed = as_secs_f64 (now - start_time v)
      in if flt (Fin 0) elapsed then fdiv (rnd (of_int (shares_found v))) (fdiv elapsed (Fin 60)) else Fin 0)"

definition trend_of :: "f64 \<Rightarrow> f64 \<Rightarrow> string" where
  "trend_of spm target =
     (if flt (fmul target (rnd (6/5))) spm then ''up''
      else if flt spm (fmul target (rnd (4/5))) then ''down'' else ''flat'')"

definition worker_line :: "nat \<Rightarrow> string \<Rightarrow> f64 \<Rightarrow> work_stats \<Rightarrow> string" where
  "worker_line now inst target v =
     (let spm = row_spm now v
      in table_line [trunc (ws_worker_name v) 16, inst, format_hashrate (row_rate now v),
           show_nat (to_uint 64 (fround (min_diff v))), spm_cell spm (pad_right 4 (show_fixed 1 target)),
           trend_of spm target, counts_cell (shares_found v) (stale_shares v) (invalid_shares v),
           show_int (blocks_found v), show_int (blocks_found v), format_uptime (now - start_time v)])"

definition add_worker :: "nat \<Rightarrow> string \<Rightarrow> f64 \<Rightarrow> work_stats \<Rightarrow> console_totals \<times> (string \<times> string) list
    \<Rightarrow> console_totals \<times> (string \<times> string) list" where
  "add_worker now inst target v = (\<lambda>(t, rows).
     (t\<lparr>tot_rate := fadd (tot_rate t) (row_rate now v), tot_blocks := tot_blocks t + blocks_found v,
        tot_spm := fadd (tot_spm t) (row_spm now v), tot_count := tot_count t + 1\<rparr>,
      rows @ [(inst @ '':'' @ ws_worker_name v, worker_line now inst target v)]))"

definition add_overall :: "f64 \<Rightarrow> work_stats \<Rightarrow> console_totals \<Rightarrow> console_totals" where
  "add_overall target ov t =
     (let other = (case tot_target t of Some x \<Rightarrow> flt (rnd (1/10000)) (fabs (fsub x target)) | None \<Rightarrow> False)
      in t\<lparr>tot_target := (if other then None else tot_target t), tot_shares := tot_shares t + shares_found ov,
           tot_stales := tot_stales t + stale_shares ov, tot_invalids := tot_invalids t + invalid_shares ov,
           tot_blocks_all_time := tot_blocks_all_time t + blocks_found ov\<rparr>)"

definition add_entry :: "nat \<Rightarrow> (nat \<Rightarrow> share_handler) \<Rightarrow> printer_entry \<Rightarrow> console_totals \<times> (string \<times> string) list
    \<Rightarrow> console_totals \<times> (string \<times> string) list" where
  "add_entry now handlers e acc =
     (let sh = handlers (pe_stats e)
      in fold (\<lambda>(k, a). add_worker now (pe_inst_short e) (pe_target_spm e) (stats_heap sh a)) (stats sh)
           (map_prod (add_overall (pe_target_spm e) (overall sh)) id acc))"

definition scan_entries :: "nat \<Rightarrow> (nat \<Rightarrow> share_handler) \<Rightarrow> printer_entry list
    \<Rightarrow> console_totals \<times> (string \<times> string) list" where
  "scan_entries now handlers es = fold (add_entry now handlers) es (totals_new (pe_target_spm (hd es)), [])"

section \<open>The internal miner\<close>

text \<open>
  Compiled in by a feature: hashes tried, blocks submitted and blocks accepted, when it is running.
  The rate is taken between two ticks.
\<close>

record miner_counters =
  mc_hashes_tried :: u64
  mc_blocks_submitted :: u64
  mc_blocks_accepted :: u64

record miner_sample =
  last_internal_hashes :: "u64 option"
  last_internal_sample :: nat

definition sat_sub :: "u64 \<Rightarrow> u64 \<Rightarrow> u64" where
  "sat_sub x y = (if y \<le> x then x - y else 0)"

definition internal_rate :: "nat \<Rightarrow> u64 \<Rightarrow> miner_sample \<Rightarrow> f64" where
  "internal_rate now hashes s =
     (case last_internal_hashes s of
        Some h \<Rightarrow> fdiv (fdiv (of_n (unat (sat_sub hashes h)))
                          (fmax (as_secs_f64 (now - last_internal_sample s)) (rnd (1 / 10 ^ 6)))) (Fin (10 ^ 9))
      | None \<Rightarrow> Fin 0)"

definition internal_row :: "nat \<Rightarrow> nat \<Rightarrow> miner_counters \<Rightarrow> miner_sample \<Rightarrow> string list" where
  "internal_row now start m s =
     (let acc = mc_blocks_accepted m; stl = sat_sub (mc_blocks_submitted m) acc
      in [table_line [''InternalCPU'', ''-'', format_hashrate (internal_rate now (mc_hashes_tried m) s), ''-'', ''-'', ''-'',
            show_nat (unat acc) @ ''/'' @ show_nat (unat stl) @ ''/0'', show_nat (unat acc), show_nat (unat acc),
            format_uptime (now - start)], border])"

definition add_internal :: "nat \<Rightarrow> miner_counters \<Rightarrow> miner_sample \<Rightarrow> console_totals \<Rightarrow> console_totals" where
  "add_internal now m s t =
     (let acc = sint (mc_blocks_accepted m)
      in t\<lparr>tot_rate := fadd (tot_rate t) (internal_rate now (mc_hashes_tried m) s), tot_shares := tot_shares t + acc,
           tot_stales := tot_stales t + sint (sat_sub (mc_blocks_submitted m) (mc_blocks_accepted m)),
           tot_blocks := tot_blocks t + acc, tot_blocks_all_time := tot_blocks_all_time t + acc\<rparr>)"

section \<open>The line on the node\<close>

fun after_first :: "string \<Rightarrow> string \<Rightarrow> string option" where
  "after_first pat [] = strip_prefix pat []"
| "after_first pat (c # s) = (case strip_prefix pat (c # s) of Some rest \<Rightarrow> Some rest | None \<Rightarrow> after_first pat s)"

definition trim_start :: "string \<Rightarrow> string" where
  "trim_start s = concat (dropWhile is_ws (scalars s))"

definition debug_field :: "string \<Rightarrow> string \<Rightarrow> string option" where
  "debug_field name net =
     map_option (\<lambda>s. trim (hd (split_at (\<lambda>c. c = CHR '','' \<or> c = CHR ''}'') (trim_start s)))) (after_first name net)"

definition net_short_of :: "string \<Rightarrow> string" where
  "net_short_of net =
     (let suffix = (case debug_field ''suffix:'' net of Some s \<Rightarrow> if s = ''None'' then None else Some s | None \<Rightarrow> None)
      in case (debug_field ''network_type:'' net, suffix) of
           (Some nt, Some suf) \<Rightarrow> nt @ ''-'' @ suf
         | (Some nt, None) \<Rightarrow> nt
         | _ \<Rightarrow> net)"

definition tip_short_of :: "string \<Rightarrow> string" where
  "tip_short_of tip = (if 28 < length tip then take 16 tip @ ''...'' @ drop (length tip - 8) tip else tip)"

definition shown :: "('v \<Rightarrow> string) \<Rightarrow> 'v option \<Rightarrow> string" where
  "shown f v = (case v of Some x \<Rightarrow> f x | None \<Rightarrow> ''-'')"

definition node_line :: "node_status_snapshot \<Rightarrow> string" where
  "node_line ns =
     (let num = shown (\<lambda>v. show_nat (unat v))
      in ''[NODE] '' @ (if ns_is_connected ns then ''connected'' else ''disconnected'') @ ''|''
         @ (case ns_is_synced ns of Some True \<Rightarrow> ''synced'' | Some False \<Rightarrow> ''syncing'' | None \<Rightarrow> ''unknown'')
         @ '' | n='' @ net_short_of (shown id (ns_network_id ns)) @ '' | v='' @ shown id (ns_server_version ns)
         @ '' | p='' @ shown show_nat (ns_peers ns) @ '' | vd='' @ num (ns_virtual_daa_score ns)
         @ '' | blk='' @ num (ns_block_count ns) @ ''/'' @ num (ns_header_count ns)
         @ '' | d='' @ shown show_exp2 (ns_difficulty ns) @ '' | mp='' @ num (ns_mempool_size ns)
         @ '' | tip='' @ tip_short_of (shown id (ns_tip_hash ns)))"

section \<open>One tick\<close>

definition total_line :: "nat \<Rightarrow> nat \<Rightarrow> console_totals \<Rightarrow> string" where
  "total_line now start t =
     (let spm = average_worker_spm (tot_spm t) (tot_count t)
      in table_line [''TOTAL'', ''ALL'', format_hashrate (tot_rate t), ''-'',
           spm_cell spm (case tot_target t of Some x \<Rightarrow> pad_right 4 (show_fixed 1 x) | None \<Rightarrow> ''-''), ''-'',
           counts_cell (tot_shares t) (tot_stales t) (tot_invalids t), show_int (tot_blocks t),
           show_int (tot_blocks_all_time t), format_uptime (now - start)])"

definition earliest :: "printer_entry list \<Rightarrow> nat" where
  "earliest es = fold (\<lambda>e. min (pe_start e)) es (pe_start (hd es))"

text \<open>Nothing is printed while no printer is registered.  The rows are sorted by instance and worker.\<close>

definition console_tick :: "nat \<Rightarrow> node_status_snapshot \<Rightarrow> (nat \<Rightarrow> share_handler) \<Rightarrow> miner_counters option
    \<Rightarrow> printer_entry list \<Rightarrow> miner_sample \<Rightarrow> string list option \<times> miner_sample" where
  "console_tick now ns handlers internal es sample =
     (if es = [] then (None, sample)
      else let (t, rows) = scan_entries now handlers es;
               start = earliest es;
               (t, extra, sample) = (case internal of
                   None \<Rightarrow> (t, [], sample)
                 | Some m \<Rightarrow> (add_internal now m sample t, internal_row now start m sample,
                     \<lparr>last_internal_hashes = Some (mc_hashes_tried m), last_internal_sample = now\<rparr>))
           in (Some ([node_line ns, border, table_header, border] @ map snd (sort_key fst rows) @ [border] @ extra
                 @ [total_line now start t, border]), sample))"

section \<open>Lemmas\<close>

text \<open>One printer for each instance, and one task for all of them.\<close>

lemma printers_distinct:
  assumes "distinct (map pe_instance_id (reg_entries r))"
  shows "distinct (map pe_instance_id (reg_entries (snd (start_print_stats now iid spm at_handler r))))"
    and "reg_started (snd (start_print_stats now iid spm at_handler r))"
    and "reg_started r \<Longrightarrow> \<not> fst (start_print_stats now iid spm at_handler r)"
  using assms by (auto simp: start_print_stats_def Let_def list_ex_iff)

text \<open>A name is cut to whole characters, and never to more than the column holds.\<close>

lemma chunked_take: "chunked xs \<Longrightarrow> chunked (take n xs)"
  by (induction xs arbitrary: n) (auto simp: take_Cons' split: if_splits)

lemma char_count_le: "char_count s \<le> length s"
proof -
  have "length xs \<le> length (concat xs)" if "\<forall>x\<in>set xs. x \<noteq> []" for xs :: "string list"
    using that
  proof (induction xs)
    case (Cons x xs)
    then show ?case by (cases x) simp_all
  qed simp
  from this [of "scalars s"] show ?thesis using scalars_nonempty by (auto simp: char_count_def)
qed

lemma trunc_fits: "char_count (trunc s n) \<le> n"
  using char_count_le [of s] scalars_concat [OF chunked_take [OF chunked_scalars], of n s]
  by (auto simp: trunc_def char_count_def)

text \<open>The suffix of a network is shown as the debug format has it, option and all.\<close>

lemma suffix_keeps_option:
  "net_short_of ''NetworkId { network_type: Testnet, suffix: Some(10) }'' = ''Testnet-Some(10)''"
  by code_simp

text \<open>What the pass over the printers adds up.\<close>

definition listed_blocks :: "share_handler \<Rightarrow> int" where
  "listed_blocks sh = (\<Sum>(k, a)\<leftarrow>stats sh. blocks_found (stats_heap sh a))"

lemma add_workers:
  "fold (\<lambda>(k, a). add_worker now inst target (h a)) ws (t, rows) = (t', rows') \<Longrightarrow>
     tot_shares t' = tot_shares t \<and> tot_stales t' = tot_stales t \<and> tot_invalids t' = tot_invalids t
     \<and> tot_blocks_all_time t' = tot_blocks_all_time t
     \<and> tot_blocks t' = tot_blocks t + (\<Sum>(k, a)\<leftarrow>ws. blocks_found (h a))
     \<and> rows' = rows @ map (\<lambda>(k, a). (inst @ '':'' @ ws_worker_name (h a), worker_line now inst target (h a))) ws"
proof (induction ws arbitrary: t rows)
  case (Cons w ws)
  obtain k a where w: "w = (k, a)" by fastforce
  obtain t1 r1 where one: "add_worker now inst target (h a) (t, rows) = (t1, r1)" by fastforce
  then show ?case
    using Cons.IH [of t1 r1] Cons.prems by (auto simp: w add_worker_def)
qed simp

definition entry_rows :: "nat \<Rightarrow> (nat \<Rightarrow> share_handler) \<Rightarrow> printer_entry \<Rightarrow> (string \<times> string) list" where
  "entry_rows now handlers e =
     (let h = stats_heap (handlers (pe_stats e))
      in map (\<lambda>(k, a). (pe_inst_short e @ '':'' @ ws_worker_name (h a), worker_line now (pe_inst_short e) (pe_target_spm e) (h a)))
           (stats (handlers (pe_stats e))))"

definition sum_overall :: "(work_stats \<Rightarrow> int) \<Rightarrow> (nat \<Rightarrow> share_handler) \<Rightarrow> printer_entry list \<Rightarrow> int" where
  "sum_overall f handlers es = (\<Sum>e\<leftarrow>es. f (overall (handlers (pe_stats e))))"

lemma add_entries:
  "fold (add_entry now handlers) es (t, rows) = (t', rows') \<Longrightarrow>
     tot_shares t' = tot_shares t + sum_overall shares_found handlers es
     \<and> tot_stales t' = tot_stales t + sum_overall stale_shares handlers es
     \<and> tot_invalids t' = tot_invalids t + sum_overall invalid_shares handlers es
     \<and> tot_blocks_all_time t' = tot_blocks_all_time t + sum_overall blocks_found handlers es
     \<and> tot_blocks t' = tot_blocks t + (\<Sum>e\<leftarrow>es. listed_blocks (handlers (pe_stats e)))
     \<and> rows' = rows @ concat (map (entry_rows now handlers) es)"
proof (induction es arbitrary: t rows)
  case (Cons e es)
  obtain t1 r1 where one: "add_entry now handlers e (t, rows) = (t1, r1)" by fastforce
  then show ?case
    using Cons.IH [of t1 r1] Cons.prems
      add_workers [of now "pe_inst_short e" "pe_target_spm e" "stats_heap (handlers (pe_stats e))"
        "stats (handlers (pe_stats e))" "add_overall (pe_target_spm e) (overall (handlers (pe_stats e))) t" rows t1 r1]
    by (simp add: add_entry_def Let_def add_overall_def listed_blocks_def entry_rows_def sum_overall_def)
qed (simp add: sum_overall_def)

text \<open>The shares and blocks in the books of all the servers printed.\<close>

definition booked :: "counter \<Rightarrow> (nat \<Rightarrow> share_handler) \<Rightarrow> printer_entry list \<Rightarrow> int" where
  "booked d handlers es =
     (\<Sum>e\<leftarrow>es. \<Sum>a<next_stats (handlers (pe_stats e)). tally (stats_heap (handlers (pe_stats e)) a) d)"

lemma booked_overall:
  assumes "\<And>e. e \<in> set es \<Longrightarrow> books (handlers (pe_stats e))"
  shows "booked d handlers es = sum_overall (\<lambda>st. tally st d) handlers es"
  unfolding booked_def sum_overall_def using assms
  by (intro arg_cong [where f = sum_list] map_cong) (simp_all add: books_def)

lemma listed_booked:
  assumes "\<And>e. e \<in> set es \<Longrightarrow> books (handlers (pe_stats e)) \<and> never_negative (handlers (pe_stats e))"
  shows "(\<Sum>e\<leftarrow>es. listed_blocks (handlers (pe_stats e))) \<le> sum_overall blocks_found handlers es"
proof -
  have "listed_blocks (handlers (pe_stats e)) \<le> blocks_found (overall (handlers (pe_stats e)))" if "e \<in> set es" for e
    using listed_within [of "handlers (pe_stats e)" FoundBlocks] assms [OF that] by (simp add: listed_blocks_def)
  then show ?thesis unfolding sum_overall_def by (rule sum_list_mono)
qed

section \<open>Properties\<close>

text \<open>
  C22: what the console prints is what the books say: for printers of servers in reachable states
  the table has one row for every worker of every server, ordered by instance and worker name, and
  a last row whose shares, stale shares, invalid shares and blocks of all time are the sums over
  all workers that the servers have had, pruned ones included; the blocks of the workers listed
  never exceed the blocks of all time.
\<close>

theorem console_prints_the_books:
  assumes "es \<noteq> []"
    and "\<And>e. e \<in> set es \<Longrightarrow> \<exists>C H env log2 envs s.
      reachable C H env log2 envs (s :: 'tx server) \<and> handlers (pe_stats e) = pool_handler (srv_pool s)"
  shows "\<exists>t. console_tick now ns handlers None es sample = (Some ([node_line ns, border, table_header, border]
        @ map snd (sort_key fst (concat (map (entry_rows now handlers) es)))
        @ [border, total_line now (earliest es) t, border]), sample)
    \<and> tot_shares t = booked FoundShares handlers es \<and> tot_stales t = booked StaleShares handlers es
    \<and> tot_invalids t = booked InvalidShares handlers es \<and> tot_blocks_all_time t = booked FoundBlocks handlers es
    \<and> tot_blocks t = (\<Sum>e\<leftarrow>es. listed_blocks (handlers (pe_stats e))) \<and> tot_blocks t \<le> tot_blocks_all_time t"
proof -
  have ok: "books (handlers (pe_stats e)) \<and> never_negative (handlers (pe_stats e))" if "e \<in> set es" for e
    using assms(2) [OF that] books_reachable never_negative_reachable by metis
  obtain t rows where scan: "scan_entries now handlers es = (t, rows)" by fastforce
  have sums: "booked FoundShares handlers es = sum_overall shares_found handlers es"
    "booked StaleShares handlers es = sum_overall stale_shares handlers es"
    "booked InvalidShares handlers es = sum_overall invalid_shares handlers es"
    "booked FoundBlocks handlers es = sum_overall blocks_found handlers es"
    using booked_overall [of es handlers] ok by simp_all
  have "(\<Sum>e\<leftarrow>es. listed_blocks (handlers (pe_stats e))) \<le> sum_overall blocks_found handlers es"
    using ok by (rule listed_booked)
  with add_entries [OF scan [unfolded scan_entries_def]] show ?thesis
    using assms(1) by (intro exI [of _ t]) (simp add: console_tick_def scan totals_new_def sums)
qed

text \<open>The console of a server with one worker.\<close>

definition demo_printer :: printer_entry where
  "demo_printer = \<lparr>pe_instance_id = ''i1'', pe_inst_short = inst_short_of ''i1'', pe_target_spm = Fin 20,
     pe_start = 0, pe_stats = 0\<rparr>"

definition demo_sample :: miner_sample where
  "demo_sample = \<lparr>last_internal_hashes = None, last_internal_sample = 0\<rparr>"

lemma console_prints_the_books_witness:
  "\<exists>t lines. console_tick 10 NODE_STATUS_default (\<lambda>_. pool_handler (srv_pool demo_in)) None [demo_printer] demo_sample
        = (Some lines, demo_sample)
    \<and> total_line 10 (earliest [demo_printer]) t \<in> set lines
    \<and> tot_shares t = booked FoundShares (\<lambda>_. pool_handler (srv_pool demo_in)) [demo_printer]"
proof -
  have r: "\<exists>C H env log2 envs s. reachable C H env log2 envs (s :: nat server)
      \<and> pool_handler (srv_pool demo_in) = pool_handler (srv_pool s)"
    using demo_in_reachable by blast
  obtain t where "console_tick 10 NODE_STATUS_default (\<lambda>_. pool_handler (srv_pool demo_in)) None [demo_printer] demo_sample
      = (Some ([node_line NODE_STATUS_default, border, table_header, border]
        @ map snd (sort_key fst (concat (map (entry_rows 10 (\<lambda>_. pool_handler (srv_pool demo_in))) [demo_printer])))
        @ [border, total_line 10 (earliest [demo_printer]) t, border]), demo_sample)"
    "tot_shares t = booked FoundShares (\<lambda>_. pool_handler (srv_pool demo_in)) [demo_printer]"
    using console_prints_the_books [of "[demo_printer]" "\<lambda>_. pool_handler (srv_pool demo_in)", OF _ r] by blast
  then show ?thesis by (intro exI [of _ t]) auto
qed

end
