(* ===== verification/Service.thy ===== *)
theory Service
  imports Serving
begin

text \<open>
  The life of the connections of one server: \<^verbatim>\<open>listen_impl\<close> of \<^verbatim>\<open>stratum_listener.rs\<close> for
  every bound port, over the guard and the server that the ports share.  A listener has an accept loop and a task that
  receives the disconnects; every connection has a task that runs the read loop and holds a ticket of
  the guard.  The steps are those of the tasks; a shutdown ends the accept loops and the receivers
  in any order, and an accept loop may also end on an error.  Failed accepts and the keepalive of a socket change nothing here.
\<close>

section \<open>State\<close>

text \<open>A connection task keeps what its read loop has between two reads.\<close>

record conn_task =
  ct_conn :: nat
  ct_ticket :: ip_addr
  ct_listener :: nat
  ct_buffer :: string
  ct_first :: bool
  ct_frames :: nat

text \<open>
  \<open>sv_queue\<close> holds what the disconnect channels have not delivered, each entry with its listener; a
  channel whose receiver is gone delivers nothing.
\<close>

record 'tx service =
  sv_server :: "'tx server"
  sv_guard :: anti_abuse_guard
  sv_tasks :: "conn_task list"
  sv_queue :: "(nat \<times> nat) list"
  sv_disconnects :: nat
  sv_accepting :: "nat set"
  sv_receiving :: "nat set"
  sv_shutdown :: bool

definition service_new :: "anti_abuse_config \<Rightarrow> nat \<Rightarrow> 'tx server \<Rightarrow> 'tx service" where
  "service_new cfg ports s =
     \<lparr>sv_server = s, sv_guard = guard_new cfg, sv_tasks = [], sv_queue = [], sv_disconnects = 0,
      sv_accepting = {..< ports}, sv_receiving = {..< ports}, sv_shutdown = False\<rparr>"

section \<open>Steps\<close>

definition turn_away :: "anti_abuse_guard \<Rightarrow> prom \<Rightarrow> 'tx service \<Rightarrow> 'tx service" where
  "turn_away g m v = v\<lparr>sv_guard := g, sv_server := metric_step (\<lambda>_. m) (sv_server v)\<rparr>"

definition admit :: "nat \<Rightarrow> nat \<Rightarrow> ip_addr \<Rightarrow> string \<Rightarrow> u16 \<Rightarrow> u16 \<Rightarrow> u64 \<Rightarrow> write_attempt list \<Rightarrow> 'tx service \<Rightarrow> 'tx service" where
  "admit l now ip addr port lport uid sock v =
     v\<lparr>sv_tasks := sv_tasks v @ [\<lparr>ct_conn = next_ctx (srv_pool (sv_server v)), ct_ticket = ip, ct_listener = l,
            ct_buffer = [], ct_first = True, ct_frames = 0\<rparr>],
       sv_server := connect_step now addr port lport uid sock (sv_server v)\<rparr>"

text \<open>The end of a connection task: the disconnect is sent, then the ticket is dropped.\<close>

definition end_task :: "conn_task \<Rightarrow> 'tx service \<Rightarrow> 'tx service" where
  "end_task t v =
     v\<lparr>sv_tasks := remove1 t (sv_tasks v), sv_guard := release (ct_ticket t) (sv_guard v),
       sv_queue := (if ct_listener t \<in> sv_receiving v then sv_queue v @ [(ct_listener t, ct_conn t)] else sv_queue v)\<rparr>"

text \<open>What the read loop calls: its notice of the disconnect only goes to the channel.\<close>

definition task_callbacks :: "'tx consensus \<Rightarrow> (string \<Rightarrow> string option) \<Rightarrow> (nat \<Rightarrow> 'tx call_env) \<Rightarrow> nat
    \<Rightarrow> 'tx server callbacks" where
  "task_callbacks C env envs a =
     \<lparr>cb_connected = (\<lambda>s. ctx_connected (ctxs (srv_pool s) a)),
      cb_authorized = (\<lambda>s. wallet_addr (ctxs (srv_pool s) a) \<noteq> []),
      cb_disconnect = drop_step a, cb_notify_disconnect = id,
      cb_metric = metric_step, cb_handler = handler_map C env envs a\<rparr>"

definition session_of :: "conn_task \<Rightarrow> 'tx service \<Rightarrow> 'tx server session" where
  "session_of t v = \<lparr>line_buffer = ct_buffer t, first_message = ct_first t, frames_seen = ct_frames t,
     abuse_guard = sv_guard v, sink = sv_server v\<rparr>"

definition resume :: "'tx server session \<Rightarrow> conn_task \<Rightarrow> conn_task" where
  "resume s t = t\<lparr>ct_buffer := line_buffer s, ct_first := first_message s, ct_frames := frames_seen s\<rparr>"

definition after_turn :: "conn_task \<Rightarrow> bool \<Rightarrow> 'tx server session \<Rightarrow> 'tx service \<Rightarrow> 'tx service" where
  "after_turn t ended s v =
     (let v = v\<lparr>sv_guard := abuse_guard s, sv_server := sink s\<rparr>
      in if ended then end_task t v
         else v\<lparr>sv_tasks := map (\<lambda>u. if u = t then resume s t else u) (sv_tasks v)\<rparr>)"

definition receive :: "clock \<Rightarrow> correlation_id \<Rightarrow> nat \<Rightarrow> (nat \<times> nat) list \<Rightarrow> 'tx service \<Rightarrow> 'tx service" where
  "receive tm corr a queue v =
     v\<lparr>sv_server := hang_up_step tm corr a (sv_server v), sv_queue := queue, sv_disconnects := sv_disconnects v + 1\<rparr>"

definition stop_receiving :: "nat \<Rightarrow> 'tx service \<Rightarrow> 'tx service" where
  "stop_receiving l v = v\<lparr>sv_receiving := sv_receiving v - {l}, sv_queue := filter (\<lambda>(k, a). k \<noteq> l) (sv_queue v)\<rparr>"

inductive service_step :: "'tx consensus \<Rightarrow> (u8 list \<Rightarrow> hash) \<Rightarrow> (string \<Rightarrow> string option) \<Rightarrow> (f64 \<Rightarrow> f64)
    \<Rightarrow> (nat \<Rightarrow> 'tx call_env) \<Rightarrow> 'tx service \<Rightarrow> 'tx service \<Rightarrow> bool"
  for C H env log2 envs where
  accept: "l \<in> sv_accepting v \<Longrightarrow>
    accept_connection ppp show_ip proxy iid now peer peer_port bytes (sv_guard v) (pool_metrics (srv_pool (sv_server v)))
      = (Accepted_from ip port, g, m) \<Longrightarrow>
    service_step C H env log2 envs v (admit l now ip (show_ip ip) port lport uid sock (turn_away g m v))"
| refuse: "l \<in> sv_accepting v \<Longrightarrow>
    accept_connection ppp show_ip proxy iid now peer peer_port bytes (sv_guard v) (pool_metrics (srv_pool (sv_server v)))
      = (out, g, m) \<Longrightarrow> (\<And>ip port. out \<noteq> Accepted_from ip port) \<Longrightarrow>
    service_step C H env log2 envs v (turn_away g m v)"
| turn: "t \<in> set (sv_tasks v) \<Longrightarrow> le_ip le = ct_ticket t \<Longrightarrow>
    spawn_client_listener le (task_callbacks C env envs (ct_conn t)) [r] (session_of t v) = (ended, s) \<Longrightarrow>
    service_step C H env log2 envs v (after_turn t ended s v)"
| received: "l \<in> sv_receiving v \<Longrightarrow> sv_queue v = q1 @ (l, a) # q2 \<Longrightarrow> l \<notin> fst ` set q1 \<Longrightarrow>
    service_step C H env log2 envs v (receive tm corr a (q1 @ q2) v)"
| other_task: "server_step C H env log2 envs (sv_server v) s \<Longrightarrow> served s = served (sv_server v) \<Longrightarrow>
    next_ctx (srv_pool s) = next_ctx (srv_pool (sv_server v)) \<Longrightarrow>
    service_step C H env log2 envs v (v\<lparr>sv_server := s\<rparr>)"
| signal: "service_step C H env log2 envs v (v\<lparr>sv_shutdown := True\<rparr>)"
| stop_accept: "service_step C H env log2 envs v (v\<lparr>sv_accepting := sv_accepting v - {l}\<rparr>)"
| stop_receive: "sv_shutdown v \<Longrightarrow> service_step C H env log2 envs v (stop_receiving l v)"

inductive service_reachable :: "'tx consensus \<Rightarrow> (u8 list \<Rightarrow> hash) \<Rightarrow> (string \<Rightarrow> string option) \<Rightarrow> (f64 \<Rightarrow> f64)
    \<Rightarrow> (nat \<Rightarrow> 'tx call_env) \<Rightarrow> anti_abuse_config \<Rightarrow> nat \<Rightarrow> 'tx service \<Rightarrow> bool"
  for C H env log2 envs cfg ports where
  start: "service_reachable C H env log2 envs cfg ports
    (service_new cfg ports (server_new log2 scfg bus api m cs now))"
| step: "service_reachable C H env log2 envs cfg ports v \<Longrightarrow> service_step C H env log2 envs v v' \<Longrightarrow>
    service_reachable C H env log2 envs cfg ports v'"

section \<open>Turns of the read loop\<close>

lemma task_callback_simps [simp]:
  "cb_connected (task_callbacks C env envs a) = (\<lambda>s. ctx_connected (ctxs (srv_pool s) a))"
  "cb_disconnect (task_callbacks C env envs a) = drop_step a"
  "cb_notify_disconnect (task_callbacks C env envs a) = id"
  "cb_metric (task_callbacks C env envs a) = metric_step"
  "cb_handler (task_callbacks C env envs a) = handler_map C env envs a"
  by (simp_all add: task_callbacks_def)

lemma handler_next_ctx:
  assumes "handler_map C env envs a m = Some f"
  shows "next_ctx (srv_pool (f ev s)) = next_ctx (srv_pool s)"
  using assms
  by (auto simp: handler_map_def on_subscribe_def on_authorize_def on_submit_def Let_def split_beta
      split: if_splits sum.splits)

lemma step_next_ctx [simp]:
  "next_ctx (srv_pool (drop_step a s)) = next_ctx (srv_pool s)" "next_ctx (srv_pool (metric_step g s)) = next_ctx (srv_pool s)"
  by (simp_all add: drop_step_def metric_step_def)

text \<open>A session in order: reachable states of server and guard, the connections unchanged.\<close>

definition session_ok :: "'tx consensus \<Rightarrow> (u8 list \<Rightarrow> hash) \<Rightarrow> (string \<Rightarrow> string option) \<Rightarrow> (f64 \<Rightarrow> f64)
    \<Rightarrow> (nat \<Rightarrow> 'tx call_env) \<Rightarrow> anti_abuse_config \<Rightarrow> ip_addr multiset \<Rightarrow> 'tx server \<Rightarrow> 'tx server session \<Rightarrow> bool" where
  "session_ok C H env log2 envs cfg T s0 s \<longleftrightarrow> reachable C H env log2 envs (sink s) \<and> served (sink s) = served s0
     \<and> next_ctx (srv_pool (sink s)) = next_ctx (srv_pool s0) \<and> aa_reachable cfg (abuse_guard s, T)"

lemma session_fields [simp]:
  "session_ok C H env log2 envs cfg T s0 (s\<lparr>line_buffer := x\<rparr>) = session_ok C H env log2 envs cfg T s0 s"
  "session_ok C H env log2 envs cfg T s0 (s\<lparr>first_message := f\<rparr>) = session_ok C H env log2 envs cfg T s0 s"
  "session_ok C H env log2 envs cfg T s0 (s\<lparr>frames_seen := n\<rparr>) = session_ok C H env log2 envs cfg T s0 s"
  by (simp_all add: session_ok_def)

lemma session_sink:
  assumes "session_ok C H env log2 envs cfg T s0 s"
  shows "session_ok C H env log2 envs cfg T s0 (s\<lparr>sink := drop_step a (sink s)\<rparr>)"
    and "session_ok C H env log2 envs cfg T s0 (s\<lparr>sink := metric_step g (sink s)\<rparr>)"
    and "a \<in> served s0 \<Longrightarrow> handler_map C env envs a m = Some f \<Longrightarrow>
      session_ok C H env log2 envs cfg T s0 (s\<lparr>sink := f ev (sink s)\<rparr>)"
    and "try_consume_frame ip now (abuse_guard s) = (b, gd) \<Longrightarrow>
      session_ok C H env log2 envs cfg T s0 (s\<lparr>abuse_guard := gd\<rparr>)"
proof -
  have m: "reachable C H env log2 envs (metric_step g (sink s))" for g
    using assms unfolding session_ok_def by (auto intro: reachable.step server_step.metric)
  show "session_ok C H env log2 envs cfg T s0 (s\<lparr>sink := drop_step a (sink s)\<rparr>)"
    "session_ok C H env log2 envs cfg T s0 (s\<lparr>sink := metric_step g (sink s)\<rparr>)"
    using assms m by (auto simp: session_ok_def reachable_drop)
  show "session_ok C H env log2 envs cfg T s0 (s\<lparr>sink := f ev (sink s)\<rparr>)"
    if "a \<in> served s0" "handler_map C env envs a m = Some f"
    using assms that unfolding session_ok_def
    by (auto simp: handler_served handler_next_ctx intro: reachable.step server_step.frame_in)
  show "session_ok C H env log2 envs cfg T s0 (s\<lparr>abuse_guard := gd\<rparr>)"
    if "try_consume_frame ip now (abuse_guard s) = (b, gd)"
    using assms that unfolding session_ok_def by (auto intro: aa_reachable.step aa_step.frame)
qed

lemma session_line:
  assumes "session_ok C H env log2 envs cfg T s0 s" and "a \<in> served s0"
  shows "session_ok C H env log2 envs cfg T s0 (snd (process_line le (task_callbacks C env envs a) l s))"
proof -
  obtain b gd where g: "try_consume_frame (le_ip le) (le_clock le (frames_seen s)) (abuse_guard s) = (b, gd)" by fastforce
  let ?s = "s\<lparr>abuse_guard := gd, frames_seen := Suc (frames_seen s)\<rparr>"
  have s: "session_ok C H env log2 envs cfg T s0 ?s"
    using session_sink(4) [OF assms(1) g] by (simp add: session_ok_def)
  note more = session_sink(1,2) [OF s, simplified] session_sink(3) [OF s assms(2), simplified]
  have "session_ok C H env log2 envs cfg T s0 (?s\<lparr>sink := drop_step a (metric_step h (sink s))\<rparr>)" for h
    using session_sink(1) [OF session_sink(2) [OF s]] by simp
  then show ?thesis
    using assms s more session_sink(1) [OF assms(1)]
    by (auto simp: process_line_def Let_def split_beta g split: sum.splits option.splits)
qed

lemma session_drain:
  "session_ok C H env log2 envs cfg T s0 s \<Longrightarrow> a \<in> served s0 \<Longrightarrow>
     session_ok C H env log2 envs cfg T s0 (drain le (task_callbacks C env envs a) buf s)"
proof (induction buf arbitrary: s rule: length_induct)
  case (1 buf)
  show ?case
  proof (cases "split_line buf")
    case (Some p)
    then have "length (snd p) < length buf" using split_line_shorter by (cases p) auto
    then show ?thesis
      using "1.IH" session_line [OF "1.prems"] "1.prems"(2) Some by (auto simp: drain.simps [of le _ buf] split_beta)
  qed (use "1.prems" in \<open>simp add: drain.simps\<close>)
qed

lemma session_loop:
  assumes "session_ok C H env log2 envs cfg T s0 s" and "a \<in> served s0"
    and "spawn_client_listener le (task_callbacks C env envs a) [r] s = (ended, s')"
  shows "session_ok C H env log2 envs cfg T s0 s'"
proof -
  have leave: "session_ok C H env log2 envs cfg T s0 (leave_loop (task_callbacks C env envs a) x)"
    if "session_ok C H env log2 envs cfg T s0 x" for x
    using session_sink(1) [OF that] by (simp add: leave_loop_def)
  have data: "session_ok C H env log2 envs cfg T s0 (snd (on_data le (task_callbacks C env envs a) x s))" for x
    using assms(1,2) session_sink(1) [OF assms(1)]
      session_sink(1) [of C H env log2 envs cfg T s0 "s\<lparr>first_message := False\<rparr>" a]
    by (auto simp: on_data_def Let_def split_beta intro!: session_drain)
  show ?thesis
    using assms(1,3) leave leave [OF data] data
    by (auto simp: split_beta split: if_splits read_result.splits)
qed

section \<open>Tickets and disconnects\<close>

lemma ticket_is_address: "try_accept_connection ip now g = (Inr tk, g') \<Longrightarrow> tk = ip"
  by (simp add: try_accept_connection_def Let_def split: if_splits)

lemma accepted_guard:
  assumes "accept_connection ppp show_ip proxy iid now peer peer_port bytes g m = (Accepted_from ip port, g', m')"
  shows "aa_step (g, T) (g', add_mset ip T)"
proof -
  have "\<exists>tk. try_accept_connection ip now g = (Inr tk, g')"
    using assms by (auto simp: accept_connection_def split: sum.splits proxy_v2_source.splits prod.splits)
  then show ?thesis using ticket_is_address aa_step.accept by metis
qed

lemma refused_guard:
  assumes "accept_connection ppp show_ip proxy iid now peer peer_port bytes g m = (out, g', m')"
    and "\<And>ip port. out \<noteq> Accepted_from ip port" and "aa_reachable cfg (g, T)"
  shows "aa_reachable cfg (g', T)"
proof -
  have "g' = g \<or> (\<exists>ip r. try_accept_connection ip now g = (Inl r, g'))"
    using assms(1,2) by (auto simp: accept_connection_def split: sum.splits proxy_v2_source.splits prod.splits)
  then show ?thesis using assms(3) by (auto intro: aa_reachable.step aa_step.reject)
qed

text \<open>
  Every connection that the server has to take its leave of is the business of one task or of one
  entry of the queue; as long as no shutdown is under way there are no others.
\<close>

definition pending :: "'tx service \<Rightarrow> nat list" where
  "pending v = map ct_conn (sv_tasks v) @ map snd (sv_queue v)"

definition tickets :: "'tx service \<Rightarrow> ip_addr multiset" where
  "tickets v = mset (map ct_ticket (sv_tasks v))"

definition service_ok :: "'tx consensus \<Rightarrow> (u8 list \<Rightarrow> hash) \<Rightarrow> (string \<Rightarrow> string option) \<Rightarrow> (f64 \<Rightarrow> f64)
    \<Rightarrow> (nat \<Rightarrow> 'tx call_env) \<Rightarrow> anti_abuse_config \<Rightarrow> nat \<Rightarrow> 'tx service \<Rightarrow> bool" where
  "service_ok C H env log2 envs cfg ports v \<longleftrightarrow>
     reachable C H env log2 envs (sv_server v) \<and> aa_reachable cfg (sv_guard v, tickets v)
     \<and> distinct (pending v) \<and> set (pending v) \<subseteq> served (sv_server v)
     \<and> (\<forall>a\<in>served (sv_server v). a < next_ctx (srv_pool (sv_server v)))
     \<and> sv_accepting v \<subseteq> {..<ports} \<and> ct_listener ` set (sv_tasks v) \<subseteq> {..<ports}
     \<and> (\<not> sv_shutdown v \<longrightarrow> set (pending v) = served (sv_server v) \<and> sv_receiving v = {..<ports}
          \<and> next_ctx (srv_pool (sv_server v)) = length (pending v) + sv_disconnects v)"

lemma hang_up_fields [simp]:
  "served (hang_up_step t corr a s) = served s - {a}"
  "next_ctx (srv_pool (hang_up_step t corr a s)) = next_ctx (srv_pool s)"
  by (simp_all add: hang_up_step_def on_disconnect_def Let_def put_bridge_def split_beta)

lemma connect_fields [simp]:
  "served (connect_step now addr port lport uid sock s) = insert (next_ctx (srv_pool s)) (served s)"
  "next_ctx (srv_pool (connect_step now addr port lport uid sock s)) = Suc (next_ctx (srv_pool s))"
  by (simp_all add: connect_step_def on_connect_def Let_def)

lemma ok_admit:
  assumes "service_ok C H env log2 envs cfg ports v" and "l \<in> sv_accepting v"
    and "accept_connection ppp show_ip proxy iid now peer peer_port bytes (sv_guard v) m0 = (Accepted_from ip port, g, m)"
  shows "service_ok C H env log2 envs cfg ports (admit l now ip addr port lport uid sock (turn_away g m v))"
proof -
  have r: "reachable C H env log2 envs (connect_step now addr port lport uid sock (metric_step (\<lambda>_. m) (sv_server v)))"
    using assms(1) unfolding service_ok_def
    by (intro reachable.step [OF reachable.step [OF _ server_step.metric] server_step.connect]) simp
  have "aa_reachable cfg (g, add_mset ip (tickets v))"
    using assms(1) accepted_guard [OF assms(3)] unfolding service_ok_def by (auto intro: aa_reachable.step)
  moreover have "next_ctx (srv_pool (sv_server v)) \<notin> set (pending v)"
    using assms(1) unfolding service_ok_def by blast
  ultimately show ?thesis
    using assms(1,2) r
    by (auto simp: service_ok_def admit_def turn_away_def pending_def tickets_def less_Suc_eq)
qed

lemma ok_end_task:
  assumes "service_ok C H env log2 envs cfg ports v" and "t \<in> set (sv_tasks v)"
  shows "service_ok C H env log2 envs cfg ports (end_task t v)"
proof -
  obtain xs ys where split: "sv_tasks v = xs @ t # ys" "t \<notin> set xs" using split_list_first [OF assms(2)] by blast
  then have r: "remove1 t (sv_tasks v) = xs @ ys" by (simp add: remove1_append)
  have "ct_ticket t \<in># tickets v" by (simp add: tickets_def split)
  then have g: "aa_reachable cfg (release (ct_ticket t) (sv_guard v), tickets v - {#ct_ticket t#})"
    using assms(1) unfolding service_ok_def by (auto intro: aa_reachable.step aa_step.drop)
  moreover have "tickets v - {#ct_ticket t#} = tickets (end_task t v)" by (simp add: tickets_def end_task_def r split)
  moreover have "pending (end_task t v)
      = map ct_conn (xs @ ys) @ map snd (sv_queue v) @ (if ct_listener t \<in> sv_receiving v then [ct_conn t] else [])"
    by (simp add: pending_def end_task_def r)
  moreover have "pending v = map ct_conn xs @ ct_conn t # map ct_conn ys @ map snd (sv_queue v)"
    by (simp add: pending_def split)
  moreover have "ct_listener ` set (sv_tasks (end_task t v)) \<subseteq> {..<ports}"
  proof (rule subset_trans)
    show "ct_listener ` set (sv_tasks (end_task t v)) \<subseteq> ct_listener ` set (sv_tasks v)"
      by (simp add: end_task_def image_mono set_remove1_subset)
    show "ct_listener ` set (sv_tasks v) \<subseteq> {..<ports}" using assms(1) by (simp add: service_ok_def)
  qed
  moreover have "sv_server (end_task t v) = sv_server v" "sv_guard (end_task t v) = release (ct_ticket t) (sv_guard v)"
    "sv_accepting (end_task t v) = sv_accepting v" "sv_receiving (end_task t v) = sv_receiving v"
    "sv_shutdown (end_task t v) = sv_shutdown v" "sv_disconnects (end_task t v) = sv_disconnects v"
    by (simp_all add: end_task_def)
  moreover have "\<not> sv_shutdown v \<Longrightarrow> ct_listener t \<in> sv_receiving v"
    using assms by (auto simp: service_ok_def)
  ultimately show ?thesis
    using assms(1) unfolding service_ok_def by (cases "sv_shutdown v") auto
qed

lemma map_resume:
  assumes "\<And>u. ct_conn (f u) = ct_conn u" "\<And>u. ct_ticket (f u) = ct_ticket u" "\<And>u. ct_listener (f u) = ct_listener u"
  shows "pending (v\<lparr>sv_tasks := map f (sv_tasks v)\<rparr>) = pending v" "tickets (v\<lparr>sv_tasks := map f (sv_tasks v)\<rparr>) = tickets v"
    "ct_listener ` set (map f us) = ct_listener ` set us"
  using assms by (auto simp: pending_def tickets_def o_def image_iff)

lemma ok_turn:
  assumes "service_ok C H env log2 envs cfg ports v" and "t \<in> set (sv_tasks v)"
    and "spawn_client_listener le (task_callbacks C env envs (ct_conn t)) [r] (session_of t v) = (ended, s)"
  shows "service_ok C H env log2 envs cfg ports (after_turn t ended s v)"
proof -
  have a: "ct_conn t \<in> served (sv_server v)" using assms(1,2) by (auto simp: service_ok_def pending_def)
  have "session_ok C H env log2 envs cfg (tickets v) (sv_server v) (session_of t v)"
    using assms(1) by (simp add: session_ok_def session_of_def service_ok_def)
  then have s: "session_ok C H env log2 envs cfg (tickets v) (sv_server v) s"
    by (rule session_loop [OF _ a assms(3)])
  define v1 where "v1 = v\<lparr>sv_guard := abuse_guard s, sv_server := sink s\<rparr>"
  have same: "pending v1 = pending v" "tickets v1 = tickets v" by (simp_all add: v1_def pending_def tickets_def)
  have v1: "service_ok C H env log2 envs cfg ports v1"
    using assms(1) s unfolding service_ok_def same by (auto simp: v1_def session_ok_def)
  let ?f = "\<lambda>u. if u = t then resume s t else u"
  have "service_ok C H env log2 envs cfg ports (v1\<lparr>sv_tasks := map ?f (sv_tasks v1)\<rparr>)"
    using v1 map_resume(1,2) [of ?f v1] map_resume(3) [of ?f "sv_tasks v1"] unfolding service_ok_def
    by (simp add: resume_def)
  then show ?thesis
    using ok_end_task [OF v1, of t] assms(2) by (simp add: after_turn_def v1_def Let_def)
qed

lemma ok_receive:
  assumes "service_ok C H env log2 envs cfg ports v" and "sv_queue v = q1 @ (l, a) # q2"
  shows "service_ok C H env log2 envs cfg ports (receive tm corr a (q1 @ q2) v)"
proof -
  have "a \<in> served (sv_server v)" using assms by (auto simp: service_ok_def pending_def)
  then have "reachable C H env log2 envs (hang_up_step tm corr a (sv_server v))"
    using assms(1) unfolding service_ok_def by (intro reachable.step [OF _ server_step.hang_up]) simp_all
  then show ?thesis
    using assms by (auto simp: service_ok_def receive_def pending_def tickets_def)
qed

lemma ok_other:
  assumes "service_ok C H env log2 envs cfg ports v" and "reachable C H env log2 envs s"
    and "served s = served (sv_server v)" and "next_ctx (srv_pool s) = next_ctx (srv_pool (sv_server v))"
    and "aa_reachable cfg (g, tickets v)"
  shows "service_ok C H env log2 envs cfg ports (v\<lparr>sv_guard := g, sv_server := s\<rparr>)"
  using assms by (simp add: service_ok_def pending_def tickets_def)

lemma ok_stop:
  assumes "service_ok C H env log2 envs cfg ports v"
  shows "service_ok C H env log2 envs cfg ports (v\<lparr>sv_shutdown := True\<rparr>)"
    and "service_ok C H env log2 envs cfg ports (v\<lparr>sv_accepting := sv_accepting v - {l}\<rparr>)"
    and "sv_shutdown v \<Longrightarrow> service_ok C H env log2 envs cfg ports (stop_receiving l v)"
proof -
  show "service_ok C H env log2 envs cfg ports (v\<lparr>sv_shutdown := True\<rparr>)"
    "service_ok C H env log2 envs cfg ports (v\<lparr>sv_accepting := sv_accepting v - {l}\<rparr>)"
    using assms by (auto simp: service_ok_def pending_def tickets_def)
  show "service_ok C H env log2 envs cfg ports (stop_receiving l v)" if "sv_shutdown v"
    using assms that
    by (auto simp: service_ok_def pending_def tickets_def stop_receiving_def distinct_map_filter image_iff)
qed

lemma service_ok_step:
  assumes "service_step C H env log2 envs v v'" and "service_ok C H env log2 envs cfg ports v"
  shows "service_ok C H env log2 envs cfg ports v'"
  using assms
proof (induction rule: service_step.induct)
  case (accept l v ppp show_ip proxy iid now peer peer_port bytes ip port g m lport uid sock)
  then show ?case by (simp add: ok_admit)
next
  case (refuse l v ppp show_ip proxy iid now peer peer_port bytes out g m)
  have "reachable C H env log2 envs (metric_step (\<lambda>_. m) (sv_server v))"
    using refuse.prems unfolding service_ok_def by (intro reachable.step [OF _ server_step.metric]) simp
  moreover have "aa_reachable cfg (g, tickets v)"
    using refuse.prems refused_guard [OF refuse.hyps(2,3)] by (simp add: service_ok_def)
  ultimately show ?case unfolding turn_away_def by (intro ok_other refuse.prems) simp_all
next
  case (turn t v le r ended s)
  then show ?case by (simp add: ok_turn)
next
  case (received l v q1 a q2 tm corr)
  then show ?case by (simp add: ok_receive)
next
  case (other_task v s)
  then have "service_ok C H env log2 envs cfg ports (v\<lparr>sv_guard := sv_guard v, sv_server := s\<rparr>)"
    by (intro ok_other) (auto simp: service_ok_def intro: reachable.step)
  then show ?case by simp
qed (simp_all add: ok_stop)

lemma new_server_fields:
  "served (server_new log2 scfg bus api m cs now) = {}" "next_ctx (srv_pool (server_new log2 scfg bus api m cs now)) = 0"
  by (simp_all add: server_new_def Let_def)

lemma service_ok_reachable:
  assumes "service_reachable C H env log2 envs cfg ports v"
  shows "service_ok C H env log2 envs cfg ports v"
  using assms
proof induction
  case (start scfg bus api m cs now)
  show ?case
    by (auto simp: service_ok_def service_new_def pending_def tickets_def new_server_fields
        intro: aa_reachable.start reachable.start)
next
  case (step v v')
  then show ?case using service_ok_step by blast
qed

text \<open>
  After the receivers have gone, no disconnect is processed any more, although connection tasks
  still end: the connections that a shutdown closes stay served, without their closing event.
\<close>

lemma disconnects_lost:
  assumes "service_step C H env log2 envs v v'" and "service_ok C H env log2 envs cfg ports v" and "sv_receiving v = {}"
  shows "sv_disconnects v' = sv_disconnects v \<and> sv_receiving v' = {} \<and> served (sv_server v) \<subseteq> served (sv_server v')"
  using assms
proof (induction rule: service_step.induct)
  case (turn t v le r ended s)
  have a: "ct_conn t \<in> served (sv_server v)" using turn by (auto simp: service_ok_def pending_def)
  have "session_ok C H env log2 envs cfg (tickets v) (sv_server v) (session_of t v)"
    using turn.prems(1) by (simp add: session_ok_def session_of_def service_ok_def)
  then have "session_ok C H env log2 envs cfg (tickets v) (sv_server v) s"
    by (rule session_loop [OF _ a turn.hyps(3)])
  then have "served (sink s) = served (sv_server v)" by (simp add: session_ok_def)
  then show ?case using turn.prems by (simp add: after_turn_def end_task_def Let_def)
qed (auto simp: turn_away_def admit_def stop_receiving_def)

section \<open>Properties\<close>

text \<open>
  C13: every connection is accounted for.  Whatever the listeners of a server and their tasks do, the
  server is in a reachable state, every connection task has a connection of its own, and every
  connection that has ended waits at most once in a disconnect channel; until a shutdown the served
  connections are exactly those of the tasks and of the channels, and the connections ever accepted
  are the running, the waiting and the ones whose disconnect has been processed.
\<close>

theorem connections_accounted:
  assumes "service_reachable C H env log2 envs cfg ports v"
  shows "reachable C H env log2 envs (sv_server v) \<and> distinct (map ct_conn (sv_tasks v) @ map snd (sv_queue v))
    \<and> set (map ct_conn (sv_tasks v) @ map snd (sv_queue v)) \<subseteq> served (sv_server v)
    \<and> (\<not> sv_shutdown v \<longrightarrow> served (sv_server v) = set (map ct_conn (sv_tasks v) @ map snd (sv_queue v))
         \<and> next_ctx (srv_pool (sv_server v)) = length (sv_tasks v) + length (sv_queue v) + sv_disconnects v)"
  using service_ok_reachable [OF assms] by (simp add: service_ok_def pending_def)

text \<open>
  C30: the cap on connections holds for what really runs: with a validated configuration the number of connection tasks of
  one address is what the guard counts and never above the cap, and the addresses with a task are
  never more than may be tracked, whatever is read, refused, rate limited or shut down.
\<close>

theorem connection_caps_hold:
  assumes "config_new conns ips rate burst = Inr cfg" and "f64_ok burst"
    and "service_reachable C H env log2 envs cfg ports v"
  shows "length (filter (\<lambda>t. ct_ticket t = ip) (sv_tasks v)) = unat (guard_conn_count (sv_guard v) ip)
    \<and> length (filter (\<lambda>t. ct_ticket t = ip) (sv_tasks v)) \<le> unat conns
    \<and> card (ct_ticket ` set (sv_tasks v)) \<le> ips"
proof -
  have v: "valid_config cfg" by (rule config_new_valid [OF assms(1,2)])
  have c: "max_conn_per_ip cfg = conns" "max_tracked_ips cfg = ips"
    using assms(1) by (auto simp: config_new_def split: if_splits)
  have inv: "aa_inv cfg (sv_guard v, tickets v)"
    using service_ok_reachable [OF assms(3)] aa_inv_reachable v by (auto simp: service_ok_def)
  have "count (mset (map ct_ticket us)) ip = length (filter (\<lambda>t. ct_ticket t = ip) us)" for us :: "conn_task list"
    by (induction us) simp_all
  then have "count (tickets v) ip = length (filter (\<lambda>t. ct_ticket t = ip) (sv_tasks v))" by (simp add: tickets_def)
  moreover have "set_mset (tickets v) = ct_ticket ` set (sv_tasks v)" by (simp add: tickets_def)
  moreover have "tracked_ip_count (sv_guard v) \<le> ips" using inv by (simp add: aa_inv_def tracked_ip_count_def c)
  ultimately show ?thesis using aa_inv_counts [OF inv] c by metis
qed

text \<open>One miner has connected.\<close>

definition demo_guard_after :: anti_abuse_guard where
  "demo_guard_after = snd (try_accept_connection (V4 7) 0 (guard_new production))"

definition demo_service :: "nat service" where
  "demo_service = admit 0 0 (V4 7) ''10.0.0.7'' 4000 5555 7 [] (turn_away demo_guard_after
     (pool_metrics (srv_pool demo_start)) (service_new production 1 demo_start))"

lemma demo_service_reachable:
  "service_reachable demo_consensus (\<lambda>b. []) (\<lambda>_. None) (\<lambda>x. x) (\<lambda>_. demo_call) production 1 demo_service"
proof -
  have g: "try_accept_connection (V4 7) 0 (guard_new production) = (Inr (V4 7), demo_guard_after)"
    by (simp add: demo_guard_after_def try_accept_connection_def guard_new_def production_def ip_entry_new_def Let_def)
  have a: "accept_connection (\<lambda>b. Inl []) (\<lambda>ip. ''10.0.0.7'') False ''i1'' 0 (V4 7) 4000 []
      (sv_guard (service_new production 1 demo_start)) (pool_metrics (srv_pool (sv_server (service_new production 1 demo_start))))
    = (Accepted_from (V4 7) 4000, demo_guard_after, pool_metrics (srv_pool demo_start))"
    by (simp add: accept_connection_def service_new_def g)
  have "service_reachable demo_consensus (\<lambda>b. []) (\<lambda>_. None) (\<lambda>x. x) (\<lambda>_. demo_call) production 1 (service_new production 1 demo_start)"
    unfolding demo_start_def by (rule service_reachable.start)
  then show ?thesis
    unfolding demo_service_def by (rule service_reachable.step) (rule service_step.accept [OF _ a], simp add: service_new_def)
qed

lemma connections_accounted_witness:
  "served (sv_server demo_service) = {0} \<and> next_ctx (srv_pool (sv_server demo_service)) = 1"
  using connections_accounted [OF demo_service_reachable]
  by (simp add: demo_service_def admit_def turn_away_def service_new_def demo_start_def new_server_fields)

lemma connection_caps_hold_witness:
  "unat (guard_conn_count (sv_guard demo_service) (V4 7)) = 1"
proof -
  have c: "config_new 256 65536 (Fin 100) (Fin 200) = Inr production"
    by (simp add: config_new_def production_def is_finite_def)
  have r: "f64_ok (Fin 200)" using repr_of_int [of 200] by simp
  show ?thesis
    using connection_caps_hold [OF c r demo_service_reachable, of "V4 7"]
    by (simp add: demo_service_def admit_def turn_away_def service_new_def)
qed

end
