(* ===== verification/LogFormat.thy ===== *)
theory LogFormat
  imports Console
begin

text \<open>
  The log formatter of \<^verbatim>\<open>tracing_setup.rs\<close> with the palette of \<^verbatim>\<open>log_colors.rs\<close>: the tag of the
  level, the special form of the statistics table, the colour of an instance, the removal of
  colour codes and the choice of a colour by content.  A panic (a slice inside a character, an
  overflow) is \<open>None\<close>.  The main fact is that colours only decorate: without its codes a coloured line is
  the plain one.
\<close>

section \<open>Colour codes\<close>

abbreviation "ESC \<equiv> CHR 0x1B"
abbreviation "NL \<equiv> CHR 0x0A"

definition paint :: "string \<Rightarrow> string \<Rightarrow> string" where
  "paint code s = [ESC, CHR ''[''] @ code @ CHR ''m'' # s @ [ESC, CHR ''['', CHR ''0'', CHR ''m'']"

text \<open>The loop over the characters drops every escape character, and what follows it up to \<open>m\<close> behind a bracket.\<close>

function strip_ansi :: "string \<Rightarrow> string" where
  "strip_ansi [] = []"
| "strip_ansi (c # s) =
     (if c \<noteq> ESC then c # strip_ansi s
      else case s of
        [] \<Rightarrow> []
      | d # rest \<Rightarrow> if d = CHR ''['' then strip_ansi (drop 1 (dropWhile (\<lambda>x. x \<noteq> CHR ''m'') rest)) else strip_ansi s)"
  by pat_completeness auto
termination
  by (relation "measure length") (auto simp: less_Suc_eq_le le_diff_conv intro: le_trans [OF length_dropWhile_le])

declare strip_ansi.simps(2) [simp del]

definition instance_colors :: "string list" where
  "instance_colors = [''94'', ''92'', ''93'', ''95'', ''96'', ''91'', ''33'', ''36'', ''35'', ''32'', ''34'', ''31'']"

text \<open>Overflow checks are on in the release profile, so that instance 0 panics.\<close>

definition instance_color_code :: "nat \<Rightarrow> string option" where
  "instance_color_code n = (if n = 0 then None else Some (instance_colors ! ((n - 1) mod length instance_colors)))"

definition format_instance_id :: "nat \<Rightarrow> string" where
  "format_instance_id n = ''[Instance '' @ show_nat n @ '']''"

definition colors_enabled :: "bool \<Rightarrow> bool \<Rightarrow> bool \<Rightarrow> bool" where
  "colors_enabled no_color is_terminal ansi_support \<longleftrightarrow> \<not> no_color \<and> is_terminal \<and> ansi_support"

section \<open>Instances\<close>

type_synonym instance_registry = "(string, nat) hash_map"

definition register_instance :: "string \<Rightarrow> nat \<Rightarrow> instance_registry \<Rightarrow> instance_registry" where
  "register_instance iid n r = hm_insert iid n r"

text \<open>What stands between \<open>[Instance \<close> and the next bracket.\<close>

definition instance_text :: "string \<Rightarrow> string option" where
  "instance_text msg =
     (case after_first ''[Instance '' msg of
        Some rest \<Rightarrow> if CHR '']'' \<in> set rest then Some (takeWhile (\<lambda>c. c \<noteq> CHR '']'') rest) else None
      | None \<Rightarrow> None)"

definition registered_instance :: "instance_registry \<Rightarrow> string \<Rightarrow> nat option" where
  "registered_instance r msg =
     (case instance_text msg of Some s \<Rightarrow> hm_get r (''[Instance '' @ s @ '']'') | None \<Rightarrow> None)"

definition paint_instance :: "nat \<Rightarrow> string \<Rightarrow> string option" where
  "paint_instance n msg = map_option (\<lambda>code. paint code msg @ [NL]) (instance_color_code n)"

section \<open>Pieces\<close>

datatype log_level = LevelInfo | LevelWarn | LevelError | LevelDebug | LevelTrace

fun level_name :: "log_level \<Rightarrow> string" where
  "level_name LevelInfo = ''INFO''" | "level_name LevelWarn = ''WARN''" | "level_name LevelError = ''ERROR''"
| "level_name LevelDebug = ''DEBUG''" | "level_name LevelTrace = ''TRACE''"

fun level_color :: "log_level \<Rightarrow> string" where
  "level_color LevelInfo = ''92''" | "level_color LevelWarn = ''93''" | "level_color LevelError = ''91''"
| "level_color LevelDebug = ''94''" | "level_color LevelTrace = ''90''"

definition bracketed :: "bool \<Rightarrow> string \<Rightarrow> string \<Rightarrow> string" where
  "bracketed colors code name =
     (if colors then paint ''97'' ''['' @ paint code name @ paint ''97'' '']'' else ''['' @ name @ '']'')"

definition is_table :: "string \<Rightarrow> bool" where
  "is_table msg \<longleftrightarrow> contains ''| Worker'' msg \<and> contains ''| Inst'' msg"

definition is_table_line :: "string \<Rightarrow> bool" where
  "is_table_line line \<longleftrightarrow> starts_with ''+'' (trim_start line) \<or> starts_with ''|'' (trim_start line)"

function replace_all :: "string \<Rightarrow> string \<Rightarrow> string \<Rightarrow> string" where
  "replace_all pat new [] = []"
| "replace_all pat new (c # s) =
     (if pat \<noteq> [] \<and> starts_with pat (c # s) then new @ replace_all pat new (drop (length pat) (c # s))
      else c # replace_all pat new s)"
  by pat_completeness auto
termination
  by (relation "measure (\<lambda>(pat, new, s). length s)") auto

declare replace_all.simps(2) [simp del]

text \<open>A slice panics inside a character.\<close>

definition split_str :: "nat \<Rightarrow> string \<Rightarrow> (string \<times> string) option" where
  "split_str i s =
     (if i = length s \<or> i < length s \<and> \<not> (128 \<le> byte (s ! i) \<and> byte (s ! i) < 192)
      then Some (take i s, drop i s) else None)"

section \<open>The statistics table\<close>

definition table_event :: "bool \<Rightarrow> string \<Rightarrow> string" where
  "table_event colors msg =
     (let parts = split_at (\<lambda>c. c = NL) msg;
          payload = the_default (hd parts) (strip_prefix ''[NODE] '' (hd parts))
      in bracketed colors ''92'' ''NODE'' @ '' KSB : '' @ payload @ [NL]
         @ concat (map (\<lambda>line. (if colors \<and> is_table_line line then paint ''92'' line else line) @ [NL]) (tl parts)))"

text \<open>The same table when only the removal of codes brought it to light.\<close>

definition green_table :: "string \<Rightarrow> string" where
  "green_table msg =
     concat (map (\<lambda>line. (if is_table_line line then paint ''92'' line
                          else if contains ''[NODE]'' line then replace_all ''[NODE]'' (bracketed True ''92'' ''NODE'') line
                          else line) @ [NL])
       (split_at (\<lambda>c. c = NL) msg))"

section \<open>The colour by content\<close>

text \<open>The white space behind the colon is counted in characters and used as a number of bytes.\<close>

definition paint_label :: "string \<Rightarrow> string option" where
  "paint_label msg =
     (let colon_pos = length (takeWhile (\<lambda>c. c \<noteq> CHR '':'') msg);
          label_end = length (takeWhile is_ws (scalars (drop (colon_pos + 1) msg)))
      in map_option (\<lambda>(label, value_text). paint ''94'' label @ value_text) (split_str (colon_pos + 1 + label_end) msg))"

definition paint_content :: "string \<Rightarrow> string option" where
  "paint_content msg =
     (if contains ''[ASIC->BRIDGE]'' msg then Some (paint ''96'' msg)
      else if contains ''[BRIDGE->ASIC]'' msg then Some (paint ''92'' msg)
      else if contains ''[VALIDATION]'' msg then Some (paint ''93'' msg)
      else if contains ''===== BLOCK'' msg \<or> contains ''[BLOCK]'' msg then Some (paint ''95'' msg)
      else if contains ''[API]'' msg then Some (paint ''94'' msg)
      else if contains ''Error'' msg \<or> contains ''ERROR'' msg then Some (paint ''91'' msg)
      else if contains ''----------------------------------'' msg then Some (paint ''96'' msg)
      else if contains ''initializing bridge'' msg then Some (paint ''92'' msg)
      else if contains ''Starting RKStratum'' msg then Some (paint ''92'' msg)
      else if starts_with [CHR 0x09] msg \<and> contains '':'' msg then paint_label msg
      else if contains ''[NODE]'' msg then Some (replace_all ''[NODE]'' (bracketed True ''92'' ''NODE'') msg)
      else Some msg)"

section \<open>One event\<close>

definition payload :: "bool \<Rightarrow> instance_registry \<Rightarrow> string \<Rightarrow> string option" where
  "payload colors r original =
     (let msg = strip_ansi original
      in if contains [ESC, CHR ''[''] original \<and> contains ''[Instance '' original \<and> colors then Some (original @ [NL])
         else if \<not> colors then Some (msg @ [NL])
         else if NL \<in> set original \<and> is_table msg then Some (green_table msg)
         else case registered_instance r original of
           Some n \<Rightarrow> paint_instance n msg
         | None \<Rightarrow>
             if is_table msg \<or> contains ''| TOTAL'' msg then Some (paint ''92'' msg @ [NL])
             else (case (case instance_text msg of Some s \<Rightarrow> parse_uint 10 64 s | None \<Rightarrow> None) of
                     Some n \<Rightarrow> paint_instance n msg
                   | None \<Rightarrow> map_option (\<lambda>s. s @ [NL]) (paint_content msg)))"

definition formatted_target :: "string \<Rightarrow> string" where
  "formatted_target target = (case strip_prefix ''RKStratum'' target of Some rest \<Rightarrow> ''RKStratum'' @ rest | None \<Rightarrow> target)"

definition format_event :: "bool \<Rightarrow> log_level \<Rightarrow> string \<Rightarrow> string \<Rightarrow> instance_registry \<Rightarrow> string \<Rightarrow> string option" where
  "format_event colors level stamp target r msg =
     (let tag = bracketed colors (level_color level) (level_name level)
      in map_option (\<lambda>body. stamp @ '' '' @ body)
           (if NL \<in> set msg \<and> is_table msg then Some (table_event colors msg)
            else if target = ''log'' \<and> NL \<notin> set msg then Some (tag @ '' '' @ msg @ [NL])
            else map_option (\<lambda>s. tag @ ''  '' @ formatted_target target @ '': '' @ s) (payload colors r msg)))"

section \<open>Colours only decorate\<close>

definition plain :: "string \<Rightarrow> bool" where
  "plain s \<longleftrightarrow> ESC \<notin> set s"

lemma plain_simps [simp]:
  "plain []" "plain (c # s) = (c \<noteq> ESC \<and> plain s)" "plain (s @ t) = (plain s \<and> plain t)"
  "plain s \<Longrightarrow> plain (take n s)" "plain s \<Longrightarrow> plain (drop n s)"
  by (auto simp: plain_def dest: in_set_takeD in_set_dropD)

named_theorems unpaint \<open>what the removal of codes leaves\<close>

lemma strip_plain [unpaint]: "plain s \<Longrightarrow> strip_ansi (s @ t) = s @ strip_ansi t"
  by (induction s) (simp_all add: strip_ansi.simps(2))

lemma strip_only [unpaint]: "plain s \<Longrightarrow> strip_ansi s = s"
  using strip_plain [of s "[]"] by simp

lemma strip_char [unpaint]: "c \<noteq> ESC \<Longrightarrow> strip_ansi (c # t) = c # strip_ansi t"
  by (simp add: strip_ansi.simps(2))

lemma strip_code: "CHR ''m'' \<notin> set code \<Longrightarrow> strip_ansi (ESC # CHR ''['' # code @ CHR ''m'' # t) = strip_ansi t"
  by (simp add: strip_ansi.simps(2) [of ESC] dropWhile_append)

lemma strip_paint [unpaint]:
  assumes "plain s" and "CHR ''m'' \<notin> set code"
  shows "strip_ansi (paint code s @ t) = s @ strip_ansi t" "strip_ansi (paint code s) = s"
proof -
  show "strip_ansi (paint code s @ t) = s @ strip_ansi t" for t
    using assms strip_code [of "''0''" t] by (simp add: paint_def strip_code strip_plain)
  from this [of "[]"] show "strip_ansi (paint code s) = s" by simp
qed

lemma strip_bracketed [unpaint]:
  assumes "plain name" and "CHR ''m'' \<notin> set code"
  shows "strip_ansi (bracketed True code name @ t) = bracketed False code name @ strip_ansi t"
  using assms by (simp add: bracketed_def unpaint)

lemma level_tag: "plain (level_name l)" "CHR ''m'' \<notin> set (level_color l)"
  by (cases l; simp)+

lemma replace_hit: "pat \<noteq> [] \<Longrightarrow> replace_all pat new (pat @ v) = new @ replace_all pat new v"
  by (cases pat) (simp_all add: replace_all.simps(2) starts_with_def)

lemma strip_replaced:
  assumes "plain s"
  shows "strip_ansi (replace_all ''[NODE]'' (bracketed True ''92'' ''NODE'') s @ t) = s @ strip_ansi t"
  using assms
proof (induction s rule: length_induct)
  case (1 s)
  show ?case
  proof (cases s)
    case (Cons c u)
    show ?thesis
    proof (cases "starts_with ''[NODE]'' s")
      case True
      then obtain v where v: "s = ''[NODE]'' @ v" by (auto simp: starts_with_iff)
      then have "length v < length s" "plain v" using "1.prems" by simp_all
      then have "strip_ansi (replace_all ''[NODE]'' (bracketed True ''92'' ''NODE'') v @ t) = v @ strip_ansi t"
        using "1.IH" by blast
      then have "strip_ansi (bracketed True ''92'' ''NODE'' @ replace_all ''[NODE]'' (bracketed True ''92'' ''NODE'') v @ t)
          = ''[NODE]'' @ v @ strip_ansi t"
        by (simp add: strip_bracketed) (simp add: bracketed_def)
      then show ?thesis unfolding v by (subst replace_hit) simp_all
    next
      case False
      have "strip_ansi (replace_all ''[NODE]'' (bracketed True ''92'' ''NODE'') u @ t) = u @ strip_ansi t"
        using "1.IH" "1.prems" Cons by simp
      then show ?thesis using False "1.prems" by (simp add: Cons replace_all.simps(2) unpaint)
    qed
  qed simp
qed

text \<open>Lines that are painted one by one.\<close>

lemma strip_lines:
  assumes "\<And>l t. l \<in> set ls \<Longrightarrow> strip_ansi (f l @ t) = l @ strip_ansi t"
  shows "strip_ansi (concat (map (\<lambda>l. f l @ [NL]) ls) @ t) = concat (map (\<lambda>l. l @ [NL]) ls) @ strip_ansi t"
  using assms by (induction ls) (simp_all add: strip_char)

lemma plain_pieces: "plain s \<Longrightarrow> l \<in> set (split_at p s) \<Longrightarrow> plain l"
  by (induction s arbitrary: l) (auto split: list.splits if_splits)

lemma plain_prefix: "plain s \<Longrightarrow> plain (the_default s (strip_prefix pre s))"
  by (simp add: strip_prefix_def the_default_def)

lemma strip_table:
  assumes "plain msg"
  shows "strip_ansi (table_event True msg) = table_event False msg"
proof -
  define parts where "parts = split_at (\<lambda>c. c = NL) msg"
  have ne: "parts \<noteq> []" by (simp add: parts_def)
  have pieces: "plain l" if "l \<in> set parts" for l using plain_pieces [OF assms] that by (simp add: parts_def)
  have "strip_ansi ((if is_table_line l then paint ''92'' l else l) @ t) = l @ strip_ansi t" if "l \<in> set (tl parts)" for l t
    using pieces [OF list.set_sel(2) [OF ne that]] by (simp add: unpaint)
  then have ls: "strip_ansi (concat (map (\<lambda>l. (if is_table_line l then paint ''92'' l else l) @ [NL]) (tl parts)))
      = concat (map (\<lambda>l. l @ [NL]) (tl parts))"
    using strip_lines [of "tl parts" "\<lambda>l. if is_table_line l then paint ''92'' l else l" "[]"] by simp
  have "plain (the_default (hd parts) (strip_prefix ''[NODE] '' (hd parts)))"
    using pieces ne by (intro plain_prefix) simp
  then show ?thesis
    by (simp add: table_event_def parts_def [symmetric] Let_def unpaint ls)
qed

lemma strip_content:
  assumes "plain msg" and "paint_content msg = Some s"
  shows "strip_ansi (s @ [NL]) = msg @ [NL]"
proof -
  have "strip_ansi (s @ [NL]) = msg @ [NL]" if "paint_label msg = Some s"
    using that assms(1) by (auto simp: paint_label_def split_str_def Let_def unpaint split: if_splits)
  then show ?thesis
    using assms by (auto simp: paint_content_def unpaint strip_replaced split: if_splits)
qed

lemma strip_payload:
  assumes "plain msg" and "payload True r msg = Some s" and "\<not> (NL \<in> set msg \<and> is_table msg)"
  shows "strip_ansi s = msg @ [NL]"
proof -
  have e: "\<not> contains [ESC, CHR ''[''] msg" using assms(1) by (auto simp: contains_iff plain_def)
  have "strip_ansi (paint c msg @ [NL]) = msg @ [NL]" if "c \<in> set instance_colors" for c
    using that assms(1) by (auto simp: instance_colors_def unpaint)
  moreover have "instance_colors ! (k mod length instance_colors) \<in> set instance_colors" for k
    by (rule nth_mem) (simp add: instance_colors_def)
  ultimately have p: "strip_ansi s' = msg @ [NL]" if "paint_instance n msg = Some s'" for n s'
    using that by (auto simp: paint_instance_def instance_color_code_def split: if_splits)
  show ?thesis
    using assms by (auto simp: payload_def Let_def unpaint strip_content e p split: if_splits option.splits)
qed

lemma plain_event:
  "format_event False level stamp target r msg = Some (stamp @ '' '' @
     (if NL \<in> set msg \<and> is_table msg then table_event False msg
      else if target = ''log'' \<and> NL \<notin> set msg then bracketed False [] (level_name level) @ '' '' @ msg @ [NL]
      else bracketed False [] (level_name level) @ ''  '' @ formatted_target target @ '': '' @ strip_ansi msg @ [NL]))"
  by (simp add: format_event_def payload_def Let_def bracketed_def)

lemma target_unchanged: "formatted_target target = target"
  by (auto simp: formatted_target_def strip_prefix_def starts_with_iff split: option.splits)

text \<open>The table that the console prints is recognised by its header.\<close>

lemma joined: "l \<in> set ls \<Longrightarrow> \<exists>u v. join sep ls = u @ l @ v"
proof (induction sep ls rule: join.induct)
  case (3 sep s t rest)
  show ?case
  proof (cases "l = s")
    case False
    then obtain u v where "join sep (t # rest) = u @ l @ v" using 3 by auto
    then have "join sep (s # t # rest) = (s @ sep @ u) @ l @ v" by simp
    then show ?thesis by blast
  qed (auto intro: exI [of _ "[]"])
qed (auto intro: exI [of _ "[]"])

lemma contains_mono:
  assumes "contains pat l"
  shows "contains pat (u @ l @ v)"
proof -
  obtain a b where "l = a @ pat @ b" using assms by (auto simp: contains_iff)
  then have "u @ l @ v = (u @ a) @ pat @ (b @ v)" by simp
  then show ?thesis unfolding contains_iff by blast
qed

lemma console_is_table:
  assumes "fst (console_tick now ns handlers internal es sample) = Some lines"
  shows "is_table (join [NL] lines)"
proof -
  have "table_header \<in> set lines" using assms by (auto simp: console_tick_def Let_def split_beta split: if_splits)
  then obtain u v where "join [NL] lines = u @ table_header @ v" using joined by blast
  moreover have "contains ''| Worker'' table_header" "contains ''| Inst'' table_header" by code_simp+
  ultimately show ?thesis by (simp add: is_table_def contains_mono)
qed

text \<open>Colouring panics on a no-break space behind the colon of a label, and on instance 0.\<close>

lemma label_panics:
  "paint_label (CHR 0x09 # ''kaspad:'' @ [CHR 0xC2, CHR 0xA0] @ ''host'') = None" "paint_instance 0 msg = None"
proof -
  show "paint_label (CHR 0x09 # ''kaspad:'' @ [CHR 0xC2, CHR 0xA0] @ ''host'') = None"
    by (simp add: paint_label_def split_str_def Let_def scalar_width_def byte_def is_ws_def ws_scalars_def)
  show "paint_instance 0 msg = None" by (simp add: paint_instance_def instance_color_code_def)
qed

text \<open>
  Colours only decorate.  For a message without escape characters the plain formatter always
  writes a line, and whenever the colouring formatter writes one, it is the plain line once the
  colour codes are taken out, whichever rule chose the colour.
\<close>

lemma colours_only_decorate:
  assumes "plain stamp" and "plain target" and "plain msg"
  shows "\<exists>line. format_event False level stamp target r msg = Some line
    \<and> (\<forall>coloured. format_event True level stamp target r msg = Some coloured \<longrightarrow> strip_ansi coloured = line)"
proof -
  define line where "line = stamp @ '' '' @
     (if NL \<in> set msg \<and> is_table msg then table_event False msg
      else if target = ''log'' \<and> NL \<notin> set msg then bracketed False [] (level_name level) @ '' '' @ msg @ [NL]
      else bracketed False [] (level_name level) @ ''  '' @ formatted_target target @ '': '' @ strip_ansi msg @ [NL])"
  have tag: "strip_ansi (bracketed True (level_color level) (level_name level) @ t)
      = bracketed False [] (level_name level) @ strip_ansi t" for t
    using level_tag [of level] by (simp add: strip_bracketed) (simp add: bracketed_def)
  have "strip_ansi coloured = line" if "format_event True level stamp target r msg = Some coloured" for coloured
  proof (cases "NL \<in> set msg \<and> is_table msg")
    case True
    then show ?thesis
      using that [unfolded format_event_def Let_def] assms strip_table [OF assms(3)]
      by (auto simp: line_def strip_plain strip_char)
  next
    case False
    then show ?thesis
      using that [unfolded format_event_def Let_def] assms strip_payload [OF assms(3)]
      by (auto simp: line_def tag unpaint target_unchanged split: if_splits)
  qed
  then show ?thesis unfolding plain_event line_def by blast
qed

end
