(* ===== verification/Startup.thy ===== *)
theory Startup
  imports Http LogFormat
begin

text \<open>
  The start of the program: \<^verbatim>\<open>main\<close> of \<^verbatim>\<open>main.rs\<close> up to the tasks of the instances, with the
  choice of the log files (\<^verbatim>\<open>init_tracing\<close>), the directories of \<^verbatim>\<open>app_dirs.rs\<close>, the arguments of an
  embedded node and the answer of the health check.  The outside world is a record; what the program does
  to it is the list of its actions in order, up to the point where it runs, ends or hangs.
  The internal CPU miner is not part of it: its feature does not compile.
\<close>

section \<open>Directories and logs\<close>

text \<open>\<open>home\<close> is the home directory, on Windows the local data directory before it.\<close>

definition BRIDGE_APP_FOLDER_NAME :: string where
  "BRIDGE_APP_FOLDER_NAME = ''kaspa-stratum-bridge''"

definition get_home_dir :: "string option \<Rightarrow> string" where
  "get_home_dir home = the_default ''.'' home"

definition get_bridge_app_dir :: "bool \<Rightarrow> string option \<Rightarrow> string" where
  "get_bridge_app_dir windows home =
     path_join (get_home_dir home) (if windows then BRIDGE_APP_FOLDER_NAME else CHR ''.'' # BRIDGE_APP_FOLDER_NAME)"

definition get_bridge_logs_dir :: "bool \<Rightarrow> string option \<Rightarrow> string" where
  "get_bridge_logs_dir windows home = path_join (get_bridge_app_dir windows home) ''logs''"

definition default_inprocess_kaspad_appdir :: "bool \<Rightarrow> string option \<Rightarrow> string" where
  "default_inprocess_kaspad_appdir windows home = path_join (get_bridge_app_dir windows home) ''kaspad''"

definition should_log_to_file :: "app_config \<Rightarrow> bool" where
  "should_log_to_file conf \<longleftrightarrow> gc_log_to_file (ac_global conf)
     \<or> (case ac_instances conf of [] \<Rightarrow> False | i # is \<Rightarrow> the_default False (ic_log_to_file i))"

definition log_filename :: "nat \<Rightarrow> string" where
  "log_filename seconds = ''RKStratum_'' @ show_nat seconds @ ''.log''"

definition default_filter :: "node_mode \<Rightarrow> string" where
  "default_filter mode =
     (if mode = Inprocess then ''warn,kaspa_stratum_bridge=info,kaspa=info,kaspad=info,kaspad_lib=info,log=info''
      else ''warn,kaspa_stratum_bridge=info'')"

definition health_answer :: "bool \<Rightarrow> string option" where
  "health_answer read_ok =
     (if read_ok then Some (''HTTP/1.1 200 OK'' @ [CHR 0x0D, CHR 0x0A, CHR 0x0D, CHR 0x0A]) else None)"

section \<open>What the configuration looks like in the log\<close>

text \<open>The debug form of a duration of whole milliseconds.\<close>

definition show_millis :: "nat \<Rightarrow> string" where
  "show_millis ms =
     (if ms = 0 then ''0ns''
      else if ms < 1000 then show_nat ms @ ''ms''
      else show_nat (ms div 1000)
        @ (if ms mod 1000 = 0 then []
           else CHR ''.'' # rev (dropWhile (\<lambda>c. c = CHR ''0'') (rev (tl (show_nat (1000 + ms mod 1000))))))
        @ ''s'')"

definition show_flag :: "bool \<Rightarrow> string" where
  "show_flag b = (if b then ''true'' else ''false'')"

abbreviation "TAB \<equiv> CHR 0x09"

text \<open>\<open>show_f64\<close> is the shortest decimal form of a float.\<close>

definition instance_lines :: "(f64 \<Rightarrow> string) \<Rightarrow> nat \<times> instance_config \<Rightarrow> string list" where
  "instance_lines show_f64 = (\<lambda>(n, i).
     [TAB # ''--- Instance '' @ show_nat (n + 1) @ '' ---'',
      TAB # ''  stratum:       '' @ ic_stratum_port i,
      TAB # ''  min diff:      '' @ show_f64 (ic_min_share_diff i)]
     @ (case ic_prom_port i of None \<Rightarrow> [] | Some p \<Rightarrow> [TAB # ''  prom:          '' @ p])
     @ (case ic_log_to_file i of None \<Rightarrow> [] | Some b \<Rightarrow> [TAB # ''  log to file:   '' @ show_flag b]))"

definition log_bridge_configuration :: "(f64 \<Rightarrow> string) \<Rightarrow> app_config \<Rightarrow> string list" where
  "log_bridge_configuration show_f64 conf =
     (let g = ac_global conf; is = ac_instances conf; n = length is
      in [''----------------------------------'',
          ''initializing bridge ('' @ show_nat n @ '' instance'' @ (if n > 1 then ''s'' else []) @ '')'',
          TAB # ''kaspad:          '' @ gc_kaspad_address g @ '' (shared)'']
         @ (if gc_merged_kaspa_address g \<noteq> []
            then [TAB # ''Kaspa parent:    '' @ gc_merged_kaspa_address g, TAB # ''Kaspa payout:    configured'']
            else [TAB # ''Kaspa parent:    disabled (ZKas-only)''])
         @ [TAB # ''block wait:      '' @ show_millis (gc_block_wait_time g),
            TAB # ''print stats:     '' @ show_flag (gc_print_stats g),
            TAB # ''var diff:        '' @ show_flag (gc_var_diff g),
            TAB # ''shares per min:  '' @ show_nat (unat (gc_shares_per_min g)),
            TAB # ''var diff stats:  '' @ show_flag (gc_var_diff_stats g),
            TAB # ''pow2 clamp:      '' @ show_flag (gc_pow2_clamp g),
            TAB # ''extranonce:      auto-detected per client'',
            TAB # ''health check:    '' @ gc_health_check_port g]
         @ concat (map (instance_lines show_f64) (enumerate 0 is))
         @ [''----------------------------------''])"

section \<open>Actions\<close>

datatype action =
    Read_config "string list"
  | Set_web_status string nat
  | Set_web_config_path string
  | Open_log string "(string \<times> string) option" bool
  | Create_dir string
  | Start_node "string list"
  | Install_ctrl_handler
  | Log_config "string list"
  | Serve_health string
  | Connect_node string "string option" "string option" "string option"
  | Serve_dashboard string
  | Await_sync
  | Serve_metrics string string
  | Spawn_instance bridge_config bool

datatype start_error =
    No_embedded_node
  | Bad_command_line config_error
  | Node_failed string
  | No_ctrl_handler
  | No_api_client string
  | No_sync string
  | Instance_failed

text \<open>How the process ends: \<^verbatim>\<open>main\<close> returns, \<^verbatim>\<open>exit\<close> is called with a code, or a panic.\<close>

datatype ending = Returns "start_error + unit" | Exit_code nat | Panics

datatype 'a started = Started 'a | Hangs | Ends ending

type_synonym 'a startup = "action list \<times> 'a started"

definition then_start :: "'a startup \<Rightarrow> ('a \<Rightarrow> 'b startup) \<Rightarrow> 'b startup" where
  "then_start m f =
     (case m of
        (as, Started x) \<Rightarrow> (as @ fst (f x), snd (f x))
      | (as, Hangs) \<Rightarrow> (as, Hangs)
      | (as, Ends e) \<Rightarrow> (as, Ends e))"

definition act :: "action list \<Rightarrow> unit startup" where
  "act as = (as, Started ())"

definition settle_result :: "('e \<Rightarrow> start_error) \<Rightarrow> 'e + 'a \<Rightarrow> 'a startup" where
  "settle_result err r = ([], case r of Inl e \<Rightarrow> Ends (Returns (Inl (err e))) | Inr x \<Rightarrow> Started x)"

definition await :: "(string \<Rightarrow> start_error) \<Rightarrow> (string + 'a) waiting \<Rightarrow> 'a startup" where
  "await err w =
     ([], case w of Waiting \<Rightarrow> Hangs | Done (Inl e) \<Rightarrow> Ends (Returns (Inl (err e))) | Done (Inr x) \<Rightarrow> Started x)"

text \<open>
  The world: how the program was built, files and directories, the log set-up of the process, the
  embedded node, and the attempts to reach the node.  A file is absent, unreadable or read.
\<close>

record world =
  w_embedded_node :: bool
  w_windows :: bool
  w_parse_yaml :: "string \<Rightarrow> string + config_raw"
  w_file :: "string \<Rightarrow> string option option"
  w_is_relative :: "string \<Rightarrow> bool"
  w_exe_base :: "string option"
  w_exe_root :: "string option"
  w_home :: "string option"
  w_rust_log :: "string option"
  w_seconds :: nat
  w_show_f64 :: "f64 \<Rightarrow> string"
  w_start_node :: "string list \<Rightarrow> string + unit"
  w_handler_installs :: bool
  w_env :: "string \<Rightarrow> string option"
  w_parent_answers :: "string \<Rightarrow> bool"
  w_dials :: "unit attempt list"
  w_subscriptions :: "unit attempt list"
  w_sync :: "sync_event list"

section \<open>The steps of main\<close>

definition requested_config :: "cli \<Rightarrow> string" where
  "requested_config c = the_default ''config.yaml'' (cli_config c)"

definition config_paths :: "world \<Rightarrow> cli \<Rightarrow> string list" where
  "config_paths w c = candidates path_join (w_is_relative w) (w_exe_base w) (w_exe_root w) (requested_config c)"

definition loaded_from :: "world \<Rightarrow> cli \<Rightarrow> string option" where
  "loaded_from w c = find (\<lambda>p. w_file w p \<noteq> None) (config_paths w c)"

definition check_mode :: "world \<Rightarrow> node_mode \<Rightarrow> unit startup" where
  "check_mode w mode =
     ([], if mode = Inprocess \<and> \<not> w_embedded_node w then Ends (Returns (Inl No_embedded_node)) else Started ())"

definition read_config :: "world \<Rightarrow> cli \<Rightarrow> app_config startup" where
  "read_config w c =
     ([Read_config (config_paths w c)],
      case initialize_config (w_parse_yaml w) (w_file w) (config_paths w c) of
        Exits \<Rightarrow> Ends (Exit_code 1)
      | Loaded conf \<Rightarrow> Started conf)"

text \<open>\<open>RUST_LOG\<close> replaces the default filter; the \<open>log\<close> crate is left to an embedded node.\<close>

definition init_tracing :: "world \<Rightarrow> app_config \<Rightarrow> node_mode \<Rightarrow> action list" where
  "init_tracing w conf mode =
     (let filter = the_default (default_filter mode) (w_rust_log w); bridged = (mode \<noteq> Inprocess);
          dir = get_bridge_logs_dir (w_windows w) (w_home w)
      in if should_log_to_file conf
         then [Create_dir dir, Open_log filter (Some (dir, log_filename (w_seconds w))) bridged]
         else [Open_log filter None bridged])"

definition announce :: "world \<Rightarrow> cli \<Rightarrow> node_mode \<Rightarrow> app_config \<Rightarrow> action list" where
  "announce w c mode conf =
     [Set_web_status (gc_kaspad_address (ac_global conf)) (length (ac_instances conf)),
      Set_web_config_path (the_default (requested_config c) (loaded_from w c))]
     @ init_tracing w conf mode"

text \<open>An application directory in both places is an assertion that fails.\<close>

definition node_arguments :: "world \<Rightarrow> cli \<Rightarrow> (action list \<times> string list) option" where
  "node_arguments w c =
     (let given = cli_kaspad_args c;
          node_args = given @ (if cli_testnet c \<and> ''--testnet'' \<notin> set given then [''--testnet''] else [])
      in if list_ex (starts_with ''--appdir'') node_args
         then (if cli_appdir c = None then Some ([], ''kaspad'' # node_args) else None)
         else let appdir = the_default (default_inprocess_kaspad_appdir (w_windows w) (w_home w)) (cli_appdir c)
              in Some ([Create_dir appdir], ''kaspad'' # node_args @ [''--appdir'', appdir]))"

definition embedded_node :: "world \<Rightarrow> cli \<Rightarrow> node_mode \<Rightarrow> unit startup" where
  "embedded_node w c mode =
     (if mode \<noteq> Inprocess then act []
      else case node_arguments w c of
        None \<Rightarrow> ([], Ends Panics)
      | Some (as, argv) \<Rightarrow> then_start (act (as @ [Start_node argv])) (\<lambda>_. settle_result Node_failed (w_start_node w argv)))"

definition ctrl_handler_step :: "world \<Rightarrow> unit startup" where
  "ctrl_handler_step w =
     (if \<not> w_windows w then act []
      else ([Install_ctrl_handler], if w_handler_installs w then Started () else Ends (Returns (Inl No_ctrl_handler))))"

definition report_config :: "world \<Rightarrow> app_config \<Rightarrow> action list" where
  "report_config w conf =
     Log_config (log_bridge_configuration (w_show_f64 w) conf)
     # (if gc_health_check_port (ac_global conf) = [] then [] else [Serve_health (gc_health_check_port (ac_global conf))])"

definition connect_node :: "'tx consensus \<Rightarrow> world \<Rightarrow> global_config \<Rightarrow> 'tx kaspa_api startup" where
  "connect_node C w g =
     then_start (act [Connect_node (gc_kaspad_address g) (gc_coinbase_tag_suffix g) (merged_node g) (merged_pay g)])
       (\<lambda>_. await No_api_client (start_api (w_dials w) (w_subscriptions w)
          (new_with_merged C (w_env w) (w_parent_answers w) (gc_coinbase_tag_suffix g) None (merged_node g) (merged_pay g))))"

definition dashboard_step :: "global_config \<Rightarrow> action list" where
  "dashboard_step g = (if gc_web_dashboard_port g = [] then [] else [Serve_dashboard (gc_web_dashboard_port g)])"

definition await_sync :: "world \<Rightarrow> unit startup" where
  "await_sync w =
     then_start (act [Await_sync]) (\<lambda>_. await No_sync (wait_for_sync_with_shutdown (w_env w) (w_sync w)))"

text \<open>Only the first instance gets the concrete client, with which it listens for templates.\<close>

definition spawn_instances :: "app_config \<Rightarrow> action list" where
  "spawn_instances conf =
     concat (map (\<lambda>(n, i, s).
         (case ic_prom_port i of None \<Rightarrow> [] | Some p \<Rightarrow> [Serve_metrics p (format_instance_id (n + 1))])
         @ [Spawn_instance s (n = 0)])
       (enumerate 0 (zip (ac_instances conf) (server_configs format_instance_id conf))))"

definition start_main :: "'tx consensus \<Rightarrow> world \<Rightarrow> cli \<Rightarrow> (app_config \<times> 'tx kaspa_api) startup" where
  "start_main C w c =
     (let mode = the_default External (cli_node_mode c)
      in then_start (check_mode w mode) (\<lambda>_.
         then_start (read_config w c) (\<lambda>file.
         then_start (settle_result Bad_command_line (apply_cli_overrides file c)) (\<lambda>conf.
         then_start (act (announce w c mode conf)) (\<lambda>_.
         then_start (embedded_node w c mode) (\<lambda>_.
         then_start (ctrl_handler_step w) (\<lambda>_.
         then_start (act (report_config w conf)) (\<lambda>_.
         then_start (connect_node C w (ac_global conf)) (\<lambda>api.
         then_start (act (dashboard_step (ac_global conf))) (\<lambda>_.
         then_start (await_sync w) (\<lambda>_.
         then_start (act (spawn_instances conf)) (\<lambda>_. ([], Started (conf, api))))))))))))))"

section \<open>What a start does\<close>

lemma then_start_Started:
  "then_start m f = (acts, Started y) \<longleftrightarrow>
     (\<exists>as x bs. m = (as, Started x) \<and> f x = (bs, Started y) \<and> acts = as @ bs)"
proof (cases m)
  case (Pair as r)
  then show ?thesis
  proof (cases r)
    case (Started x)
    then show ?thesis using Pair by (cases "f x") (auto simp: then_start_def)
  qed (simp_all add: then_start_def)
qed

lemma snd_then_start:
  "snd (then_start m f) = (case snd m of Started x \<Rightarrow> snd (f x) | Hangs \<Rightarrow> Hangs | Ends e \<Rightarrow> Ends e)"
  by (simp add: then_start_def split: prod.split started.split)

lemma snd_step [simp]:
  "snd (act as) = Started ()"
  "snd (settle_result err r) = (case r of Inl e \<Rightarrow> Ends (Returns (Inl (err e))) | Inr x \<Rightarrow> Started x)"
  by (simp_all add: act_def settle_result_def)

text \<open>The servers among the actions, each with whether it got the concrete client.\<close>

definition served :: "action list \<Rightarrow> (bridge_config \<times> bool) list" where
  "served as = List.map_filter (\<lambda>a. case a of Spawn_instance s first \<Rightarrow> Some (s, first) | _ \<Rightarrow> None) as"

lemma served_simps [simp]:
  "served [] = []" "served (as @ bs) = served as @ served bs"
  "served (a # as) = (case a of Spawn_instance s first \<Rightarrow> (s, first) # served as | _ \<Rightarrow> served as)"
  by (simp_all add: served_def List.map_filter_def split: action.splits)

text \<open>A start that serves exactly what \<open>g\<close> says of its result, and nothing when it has none.\<close>

definition serves :: "('a \<Rightarrow> (bridge_config \<times> bool) list) \<Rightarrow> 'a startup \<Rightarrow> bool" where
  "serves g m \<longleftrightarrow> served (fst m) = (case snd m of Started x \<Rightarrow> g x | _ \<Rightarrow> [])"

abbreviation "serves_nothing \<equiv> serves (\<lambda>_. [])"

lemma serves_nothing_iff: "serves_nothing m \<longleftrightarrow> served (fst m) = []"
  by (simp add: serves_def split: started.splits)

lemma serves_then:
  "serves_nothing m \<Longrightarrow> (\<And>x. serves g (f x)) \<Longrightarrow> serves g (then_start m f)"
  by (cases m) (auto simp: serves_def then_start_def split: started.splits)

lemma nothing_before:
  "serves_nothing (check_mode w mode)" "serves_nothing (read_config w c)" "serves_nothing (settle_result err r)"
  "serves_nothing (act (announce w c mode conf))" "serves_nothing (embedded_node w c mode)"
  "serves_nothing (ctrl_handler_step w)" "serves_nothing (act (report_config w conf))"
  "serves_nothing (connect_node C w g)" "serves_nothing (act (dashboard_step g))" "serves_nothing (await_sync w)"
  by (auto simp: serves_nothing_iff check_mode_def read_config_def settle_result_def act_def announce_def
      init_tracing_def embedded_node_def node_arguments_def ctrl_handler_step_def report_config_def connect_node_def
      dashboard_step_def await_sync_def await_def then_start_def Let_def
      split: option.splits if_splits started.splits sum.splits waiting.splits)

lemma length_server_configs [simp]: "length (server_configs fmt conf) = length (ac_instances conf)"
  by (simp add: server_configs_def)

lemma served_concat: "served (concat ass) = concat (map served ass)"
  by (induction ass) simp_all

lemma served_spawned:
  "served (spawn_instances conf)
     = map (\<lambda>(n, s). (s, n = 0)) (enumerate 0 (server_configs format_instance_id conf))"
proof -
  have z: "concat (map (served \<circ> (\<lambda>(n, i, s).
        (case ic_prom_port i of None \<Rightarrow> [] | Some p \<Rightarrow> [Serve_metrics p (format_instance_id (n + 1))])
        @ [Spawn_instance s (n = 0)])) (enumerate k (zip cs ss)))
      = map (\<lambda>(n, s). (s, n = 0)) (enumerate k ss)" if "length cs = length ss" for k cs ss
    using that by (induction cs ss arbitrary: k rule: list_induct2) (auto split: option.splits)
  show ?thesis unfolding spawn_instances_def served_concat map_map
    by (rule z) simp
qed

definition to_serve :: "app_config \<times> 'tx kaspa_api \<Rightarrow> (bridge_config \<times> bool) list" where
  "to_serve = (\<lambda>(conf, api). map (\<lambda>(n, s). (s, n = 0)) (enumerate 0 (server_configs format_instance_id conf)))"

lemma serves_spawned:
  "serves to_serve (then_start (act (spawn_instances conf)) (\<lambda>_. ([], Started (conf, api))))"
  by (simp add: serves_def to_serve_def served_spawned act_def then_start_def)

lemma serves_start: "serves to_serve (start_main C w c)"
  unfolding start_main_def Let_def by (rule serves_spawned | rule serves_then, rule nothing_before)+

lemma step_Started:
  "act as = (bs, Started u) \<longleftrightarrow> bs = as"
  "await err r = (bs, Started x) \<longleftrightarrow> bs = [] \<and> r = Done (Inr x)"
  "settle_result err' r' = (bs, Started y) \<longleftrightarrow> bs = [] \<and> r' = Inr y"
  "read_config w c = (bs, Started conf) \<longleftrightarrow> bs = [Read_config (config_paths w c)]
     \<and> initialize_config (w_parse_yaml w) (w_file w) (config_paths w c) = Loaded conf"
  by (auto simp: act_def await_def settle_result_def read_config_def
      split: waiting.splits sum.splits loaded.splits)

lemma start_main_Started:
  assumes "start_main C w c = (acts, Started (conf, api))"
  obtains conf0 before where
    "initialize_config (w_parse_yaml w) (w_file w) (config_paths w c) = Loaded conf0"
    "apply_cli_overrides conf0 c = Inr conf"
    "start_api (w_dials w) (w_subscriptions w) (new_with_merged C (w_env w) (w_parent_answers w)
       (gc_coinbase_tag_suffix (ac_global conf)) None (merged_node (ac_global conf)) (merged_pay (ac_global conf)))
       = Done (Inr api)"
    "wait_for_sync_with_shutdown (w_env w) (w_sync w) = Done (Inr ())"
    "acts = before @ Await_sync # spawn_instances conf"
proof -
  from assms show thesis
    unfolding start_main_def Let_def connect_node_def await_sync_def then_start_Started step_Started
    by clarsimp (rule that [of _ "take (length acts - Suc (length (spawn_instances conf))) acts"], simp_all)
qed

text \<open>
  C14: the program opens a mining port only after the configuration was found good, the node was
  reached and is in step (or \<open>BRIDGE_ALLOW_UNSYNCED\<close> asks not to wait): a start that ends or hangs
  before has spawned no server, and a completed one has as its last actions, after the wait for the
  node, one server for every instance, with the configuration of that instance on a port of its own;
  only the first gets the concrete client.
\<close>

theorem listeners_after_sync:
  assumes "start_main C w c = (acts, r)"
  shows "case r of
      Started (conf, api) \<Rightarrow>
        start_api (w_dials w) (w_subscriptions w) (new_with_merged C (w_env w) (w_parent_answers w)
          (gc_coinbase_tag_suffix (ac_global conf)) None (merged_node (ac_global conf)) (merged_pay (ac_global conf)))
          = Done (Inr api)
        \<and> wait_for_sync_with_shutdown (w_env w) (w_sync w) = Done (Inr ())
        \<and> (\<exists>before. acts = before @ Await_sync # spawn_instances conf \<and> served before = [])
        \<and> served acts = map (\<lambda>(n, s). (s, n = 0)) (enumerate 0 (server_configs format_instance_id conf))
        \<and> ac_instances conf \<noteq> [] \<and> distinct (map ic_stratum_port (ac_instances conf))
    | _ \<Rightarrow> served acts = []"
proof -
  have s: "served acts = (case r of Started x \<Rightarrow> to_serve x | _ \<Rightarrow> [])"
    using serves_start [of C w c] by (simp add: assms serves_def)
  show ?thesis
  proof (cases r)
    case (Started x)
    obtain conf api where x: "x = (conf, api)" by (cases x)
    have "start_main C w c = (acts, Started (conf, api))" by (simp add: assms Started x)
    then obtain conf0 before where f:
      "initialize_config (w_parse_yaml w) (w_file w) (config_paths w c) = Loaded conf0"
      "apply_cli_overrides conf0 c = Inr conf" "acts = before @ Await_sync # spawn_instances conf"
      and up: "start_api (w_dials w) (w_subscriptions w) (new_with_merged C (w_env w) (w_parent_answers w)
          (gc_coinbase_tag_suffix (ac_global conf)) None (merged_node (ac_global conf)) (merged_pay (ac_global conf)))
          = Done (Inr api)" "wait_for_sync_with_shutdown (w_env w) (w_sync w) = Done (Inr ())"
      by (rule start_main_Started)
    have ports: "ac_instances conf \<noteq> [] \<and> distinct (map ic_stratum_port (ac_instances conf))"
      using f(2) initialize_config_ports [OF f(1)] listed_ports [of c] overridden_ports [of c]
      by (auto simp: apply_cli_overrides_def split: sum.splits if_splits)
    have acts: "served acts = to_serve (conf, api)" by (simp add: s Started x)
    then have "served before = []" by (simp add: f(3) to_serve_def served_spawned)
    with acts f(3) up ports show ?thesis by (simp add: Started x to_serve_def)
  qed (simp_all add: s)
qed

text \<open>A start without a file, with a node that refuses once and is out of step at first.\<close>

definition demo_world :: world where
  "demo_world =
     \<lparr>w_embedded_node = False, w_windows = True, w_parse_yaml = (\<lambda>_. Inl ''no file''), w_file = (\<lambda>_. None),
      w_is_relative = (\<lambda>_. True), w_exe_base = Some ''/opt/bridge'', w_exe_root = None, w_home = Some ''/home/pool'',
      w_rust_log = None, w_seconds = 1700000000, w_show_f64 = (\<lambda>_. ''8192''), w_start_node = (\<lambda>_. Inr ()),
      w_handler_installs = True, w_env = (\<lambda>_. None), w_parent_answers = (\<lambda>_. False),
      w_dials = [Refused_by_node, Established ()], w_subscriptions = [Established ()],
      w_sync = [Sync_status False, Sync_failed ''timeout'', Sync_status True]\<rparr>"

definition demo_started :: "(app_config \<times> nat kaspa_api) started" where
  "demo_started = snd (start_main demo_consensus demo_world demo_flags)"

lemma demo_conf_started: "initialize_config (w_parse_yaml demo_world) (w_file demo_world) ps = Loaded default_config"
  by (induction ps) (simp_all add: demo_world_def)

lemma demo_steps:
  "the_default External (cli_node_mode demo_flags) = External"
  "snd (check_mode demo_world External) = Started ()"
  "snd (read_config demo_world demo_flags) = Started default_config"
  "snd (embedded_node demo_world demo_flags External) = Started ()"
  "snd (ctrl_handler_step demo_world) = Started ()"
  "snd (await_sync demo_world) = Started ()"
  "\<exists>api. snd (connect_node demo_consensus demo_world g) = Started api"
  by (simp_all add: check_mode_def read_config_def demo_conf_started embedded_node_def ctrl_handler_step_def
      await_sync_def connect_node_def snd_then_start await_def start_api_def wait_for_sync_with_shutdown_def Let_def)
    (simp_all add: demo_world_def demo_flags_def Let_def)

lemma demo_started_ports:
  "\<exists>conf api. demo_started = Started (conf, api) \<and> map ic_stratum_port (ac_instances conf) = ['':5555'']"
proof -
  obtain conf where o: "apply_cli_overrides default_config demo_flags = Inr conf"
    and p: "map ic_stratum_port (ac_instances conf) = ['':5555'']"
    by (simp add: apply_cli_overrides_def overridden_instances_def single_flags_def override_instance_def
        demo_flags_def default_config_def default_instance_def)
  have "\<exists>api. demo_started = Started (conf, api)"
    using demo_steps(7) [of "ac_global conf"]
    by (auto simp: demo_started_def start_main_def snd_then_start demo_steps(1-6) o)
  then show ?thesis using p by (elim exE) (intro exI conjI)
qed

lemma listeners_after_sync_witness:
  "map (\<lambda>(s, first). (cfg_stratum_port s, first)) (served (fst (start_main demo_consensus demo_world demo_flags)))
     = [('':5555'', True)]"
proof -
  obtain conf api where d: "demo_started = Started (conf, api)" "map ic_stratum_port (ac_instances conf) = ['':5555'']"
    using demo_started_ports by (elim exE conjE)
  then obtain i where i: "ac_instances conf = [i]" "ic_stratum_port i = '':5555''" by (auto simp: map_eq_Cons_conv)
  have "start_main demo_consensus demo_world demo_flags
      = (fst (start_main demo_consensus demo_world demo_flags), Started (conf, api))"
    using d by (simp add: demo_started_def prod_eq_iff)
  from listeners_after_sync [OF this] i show ?thesis
    by (simp add: server_configs_def stratum_config_def)
qed

end
