(* ===== verification/Shutdown.thy ===== *)
theory Shutdown
  imports Startup
begin

text \<open>
  The end of the program: the second half of \<^verbatim>\<open>main\<close> in \<^verbatim>\<open>main.rs\<close>, which waits for
  the tasks of the instances and for Ctrl+C, and the console handler of Windows.  The handler is given
  twice: as a function, and as the atomic steps of the thread that Windows starts for every call.
\<close>

section \<open>The console handler\<close>

record ctrl_state =
  presses :: u64
  last_event_ms :: u64
  shutdown_told :: bool

definition ctrl_state_new :: ctrl_state where
  "ctrl_state_new = \<lparr>presses = 0, last_event_ms = 0, shutdown_told = False\<rparr>"

definition CTRL_C_EVENT :: u32 where
  "CTRL_C_EVENT = 0"

definition DEBOUNCE_MS :: u64 where
  "DEBOUNCE_MS = 500"

datatype ctrl_reply = Not_handled | Press_handled | Force_exit

definition saturating_sub :: "u64 \<Rightarrow> u64 \<Rightarrow> u64" where
  "saturating_sub x y = (if x < y then 0 else x - y)"

definition same_press :: "u64 \<Rightarrow> ctrl_state \<Rightarrow> bool" where
  "same_press now_ms st \<longleftrightarrow> last_event_ms st \<noteq> 0 \<and> saturating_sub now_ms (last_event_ms st) < DEBOUNCE_MS"

definition count_press :: "ctrl_state \<Rightarrow> ctrl_reply \<times> ctrl_state" where
  "count_press st =
     (let st' = st\<lparr>presses := presses st + 1\<rparr>
      in if presses st = 0 then (Press_handled, st'\<lparr>shutdown_told := True\<rparr>) else (Force_exit, st'))"

text \<open>The state is absent until the handler is installed.\<close>

definition console_ctrl_handler :: "u32 \<Rightarrow> u64 \<Rightarrow> ctrl_state option \<Rightarrow> ctrl_reply \<times> ctrl_state option" where
  "console_ctrl_handler ctrl_type now_ms state =
     (case state of
        None \<Rightarrow> (Not_handled, None)
      | Some st \<Rightarrow>
          if ctrl_type \<noteq> CTRL_C_EVENT then (Not_handled, Some st)
          else if same_press now_ms st then (Press_handled, Some st)
          else (let (r, st') = count_press (st\<lparr>last_event_ms := now_ms\<rparr>) in (r, Some st')))"

text \<open>The same for a Ctrl+C, as the three atomic accesses of one call.\<close>

datatype handler_pc = Load_last u64 | Store_last u64 | Add_press | Handler_done ctrl_reply

fun handler_step :: "handler_pc \<Rightarrow> ctrl_state \<Rightarrow> handler_pc \<times> ctrl_state" where
  "handler_step (Load_last now_ms) st = (if same_press now_ms st then Handler_done Press_handled else Store_last now_ms, st)"
| "handler_step (Store_last now_ms) st = (Add_press, st\<lparr>last_event_ms := now_ms\<rparr>)"
| "handler_step Add_press st = map_prod Handler_done id (count_press st)"
| "handler_step (Handler_done r) st = (Handler_done r, st)"

text \<open>A schedule names the call that makes the next step.\<close>

fun interleave :: "nat list \<Rightarrow> handler_pc list \<times> ctrl_state \<Rightarrow> handler_pc list \<times> ctrl_state" where
  "interleave [] c = c"
| "interleave (i # sched) (pcs, st) = (let (t, st') = handler_step (pcs ! i) st in interleave sched (pcs[i := t], st'))"

lemma handler_alone:
  "interleave [0, 0, 0] ([Load_last now_ms], st)
     = (let (r, st') = console_ctrl_handler CTRL_C_EVENT now_ms (Some st) in ([Handler_done r], the st'))"
  by (simp add: console_ctrl_handler_def split_beta Let_def)

text \<open>Calls within half a second of a counted press are that press; a later one ends the process.\<close>

lemma press_debounced:
  assumes "last_event_ms st \<noteq> 0" and "\<forall>now_ms\<in>set later. unat now_ms < unat (last_event_ms st) + 500"
  shows "fold (\<lambda>now_ms s. snd (console_ctrl_handler CTRL_C_EVENT now_ms s)) later (Some st) = Some st"
  using assms(2)
proof (induction later)
  case (Cons now_ms later)
  have "saturating_sub now_ms (last_event_ms st) < DEBOUNCE_MS"
    using Cons.prems by (auto simp: saturating_sub_def DEBOUNCE_MS_def word_less_nat_alt unat_sub_if' not_less)
  then have "console_ctrl_handler CTRL_C_EVENT now_ms (Some st) = (Press_handled, Some st)"
    using assms(1) by (simp add: console_ctrl_handler_def same_press_def)
  with Cons show ?case by simp
qed simp

lemma second_press_exits:
  assumes "presses st \<noteq> 0" and "unat (last_event_ms st) + 500 \<le> unat now_ms"
  shows "fst (console_ctrl_handler CTRL_C_EVENT now_ms (Some st)) = Force_exit"
proof -
  have "\<not> saturating_sub now_ms (last_event_ms st) < DEBOUNCE_MS"
    using assms(2) by (auto simp: saturating_sub_def DEBOUNCE_MS_def word_less_nat_alt unat_sub_if')
  then show ?thesis
    using assms(1) by (simp add: console_ctrl_handler_def same_press_def count_press_def Let_def)
qed

text \<open>
  Two calls for one press that both read the time of the last press before either stores it are two
  presses: the second ends the process at once.
\<close>

lemma debounce_race:
  "fst (interleave [0, 1, 0, 1, 0, 1] ([Load_last now_ms, Load_last now_ms], ctrl_state_new))
     = [Handler_done Press_handled, Handler_done Force_exit]"
  by (simp add: ctrl_state_new_def same_press_def count_press_def Let_def)

section \<open>Waiting for the instances\<close>

text \<open>A task yields what its server returned, or it panicked.\<close>

datatype task_end = Server_returned "string + unit" | Task_panicked

datatype run_event = Instance_ends nat task_end | Interrupt | Console_event u32 u64 | Drain_elapsed

text \<open>
  \<open>rn_node\<close> is present with an embedded node, and says whether that node stops within its ten
  seconds.  Draining is the wait after Ctrl+C.
\<close>

record run =
  rn_tasks :: "task_end option list"
  rn_draining :: bool
  rn_told :: bool
  rn_handler :: "ctrl_state option"
  rn_node :: "bool option"

definition run_new :: "bool \<Rightarrow> nat \<Rightarrow> bool option \<Rightarrow> run" where
  "run_new windows n embedded =
     \<lparr>rn_tasks = replicate n None, rn_draining = False, rn_told = False,
      rn_handler = (if windows then Some ctrl_state_new else None), rn_node = embedded\<rparr>"

text \<open>\<^verbatim>\<open>try_join_all\<close> on the handles fails on a panic only: the result of a server is inside the \<open>Ok\<close>.\<close>

definition joined :: "task_end option list \<Rightarrow> (start_error + unit) option" where
  "joined ends =
     (if Some Task_panicked \<in> set ends then Some (Inl Instance_failed)
      else if None \<notin> set ends then Some (Inr ())
      else None)"

definition finish :: "bool option \<Rightarrow> start_error + unit \<Rightarrow> ending" where
  "finish embedded r = (if embedded = Some False then Exit_code 0 else Returns r)"

text \<open>A task that has ended does not end again; during the drain an error is only logged.\<close>

definition task_ends :: "nat \<Rightarrow> task_end \<Rightarrow> run \<Rightarrow> run + ending" where
  "task_ends i e r =
     (if i < length (rn_tasks r) \<and> rn_tasks r ! i = None
      then (let ends = (rn_tasks r)[i := Some e]
            in case joined ends of
                 None \<Rightarrow> Inl (r\<lparr>rn_tasks := ends\<rparr>)
               | Some res \<Rightarrow> Inr (finish (rn_node r) (if rn_draining r then Inr () else res)))
      else Inl r)"

text \<open>On Unix \<^verbatim>\<open>ctrl_c\<close> yields the presses, on Windows the handler does and tells the others.\<close>

fun run_step :: "bool \<Rightarrow> run_event \<Rightarrow> run \<Rightarrow> run + ending" where
  "run_step windows (Instance_ends i e) r = task_ends i e r"
| "run_step windows Interrupt r =
     (if windows then Inl r
      else if rn_draining r then Inr (Exit_code 130)
      else Inl (r\<lparr>rn_draining := True, rn_told := True\<rparr>))"
| "run_step windows (Console_event ctrl_type now_ms) r =
     (let (reply, state) = console_ctrl_handler ctrl_type now_ms (rn_handler r);
          told = (rn_told r \<or> (case state of Some st \<Rightarrow> shutdown_told st | None \<Rightarrow> False))
      in if reply = Force_exit then Inr (Exit_code 130)
         else Inl (r\<lparr>rn_handler := state, rn_told := told, rn_draining := told\<rparr>))"
| "run_step windows Drain_elapsed r = (if rn_draining r then Inr (finish (rn_node r) (Inr ())) else Inl r)"

fun run_main :: "bool \<Rightarrow> run_event list \<Rightarrow> run \<Rightarrow> run + ending" where
  "run_main windows [] r = Inl r"
| "run_main windows (e # es) r =
     (case run_step windows e r of Inl r' \<Rightarrow> run_main windows es r' | Inr x \<Rightarrow> Inr x)"

definition exit_of :: "run + ending \<Rightarrow> ending option" where
  "exit_of r = (case r of Inl _ \<Rightarrow> None | Inr e \<Rightarrow> Some e)"

section \<open>What the exit says\<close>

fun forget_end :: "task_end \<Rightarrow> task_end" where
  "forget_end (Server_returned r) = Server_returned (Inr ())"
| "forget_end Task_panicked = Task_panicked"

fun forget :: "run_event \<Rightarrow> run_event" where
  "forget (Instance_ends i e) = Instance_ends i (forget_end e)"
| "forget Interrupt = Interrupt"
| "forget (Console_event t now_ms) = Console_event t now_ms"
| "forget Drain_elapsed = Drain_elapsed"

definition forgotten :: "run \<Rightarrow> run" where
  "forgotten r = r\<lparr>rn_tasks := map (map_option forget_end) (rn_tasks r)\<rparr>"

lemma forget_end_panicked [simp]: "forget_end e = Task_panicked \<longleftrightarrow> e = Task_panicked"
  by (cases e) simp_all

lemma map_forget_end:
  "Some Task_panicked \<in> map_option forget_end ` A \<longleftrightarrow> Some Task_panicked \<in> A"
  "(map (map_option forget_end) ends)[i := Some (forget_end e)] = map (map_option forget_end) (ends[i := Some e])"
proof -
  have "Some Task_panicked = map_option forget_end x \<longleftrightarrow> x = Some Task_panicked" for x
    by (cases x) (simp_all add: eq_commute [of Task_panicked])
  then show "Some Task_panicked \<in> map_option forget_end ` A \<longleftrightarrow> Some Task_panicked \<in> A"
    by (auto simp: image_iff)
qed (simp add: map_update)

lemma joined_forgotten [simp]: "joined (map (map_option forget_end) ends) = joined ends"
proof -
  have "None \<in> map_option forget_end ` A \<longleftrightarrow> None \<in> A" for A by (auto simp: image_iff)
  then show ?thesis by (simp add: joined_def map_forget_end)
qed

lemma forgotten_new: "forgotten (run_new windows n embedded) = run_new windows n embedded"
  by (simp add: forgotten_def run_new_def)

lemma step_forgotten:
  "run_step windows (forget e) (forgotten r) = map_sum forgotten id (run_step windows e r)"
proof (cases e)
  case (Instance_ends i x)
  then show ?thesis
    by (cases "i < length (rn_tasks r)") (simp_all add: task_ends_def forgotten_def Let_def map_forget_end split: option.split)
qed (simp_all add: forgotten_def Let_def split_beta split: option.split)

lemma exit_forgotten: "exit_of (run_main windows (map forget es) (forgotten r)) = exit_of (run_main windows es r)"
proof (induction es arbitrary: r)
  case (Cons e es)
  then show ?case by (cases "run_step windows e r") (simp_all add: step_forgotten)
qed (simp add: exit_of_def)

lemma all_servers_fail:
  assumes "rn_tasks r = replicate k (Some (Server_returned (Inl e))) @ replicate (Suc m) None" and "\<not> rn_draining r"
  shows "run_main windows (map (\<lambda>i. Instance_ends i (Server_returned (Inl e))) [k..<Suc (k + m)]) r
    = Inr (finish (rn_node r) (Inr ()))"
  using assms
proof (induction m arbitrary: k r)
  case 0
  then show ?case by (simp add: task_ends_def joined_def nth_append list_update_append Let_def)
next
  case (Suc m)
  let ?x = "Some (Server_returned (Inl e))"
  let ?r = "r\<lparr>rn_tasks := replicate (Suc k) ?x @ replicate (Suc m) None\<rparr>"
  have "(replicate k ?x @ replicate (Suc (Suc m)) None)[k := ?x] = replicate (Suc k) ?x @ replicate (Suc m) None"
    by (simp add: list_update_append replicate_app_Cons_same)
  then have "run_step windows (Instance_ends k (Server_returned (Inl e))) r = Inl ?r"
    using Suc.prems by (simp add: task_ends_def joined_def nth_append Let_def)
  moreover have "[k..<Suc (k + Suc m)] = k # [Suc k..<Suc (Suc k + m)]" by (simp add: upt_rec)
  ultimately show ?case using Suc.IH [of ?r "Suc k"] Suc.prems by (simp del: upt_Suc replicate_Suc)
qed

text \<open>
  C25: how the process ends does not depend on what the servers of the instances returned: the same
  run with every error of a server made a success ends in the same way.  In particular a program whose
  servers have all failed, on a taken port or a lost node, returns success.
\<close>

theorem exit_ignores_server_errors:
  "exit_of (run_main windows (map forget es) (run_new windows n embedded)) = exit_of (run_main windows es (run_new windows n embedded))
   \<and> run_main windows (map (\<lambda>i. Instance_ends i (Server_returned (Inl err))) [0..<Suc m]) (run_new windows (Suc m) None)
       = Inr (Returns (Inr ()))"
  using exit_forgotten [of windows es "run_new windows n embedded"]
    all_servers_fail [of "run_new windows (Suc m) None" 0 err m windows]
  by (simp add: forgotten_new) (simp add: run_new_def finish_def)

text \<open>After the first Ctrl+C the window of ten seconds ends the program, whatever happens in between.\<close>

lemma draining_step: "rn_draining r \<Longrightarrow> rn_told r \<Longrightarrow> run_step windows e r = Inl r' \<Longrightarrow> rn_draining r' \<and> rn_told r'"
  by (cases e) (auto simp: task_ends_def Let_def split_beta split: if_splits option.splits)

lemma shutdown_ends:
  assumes "rn_draining r" and "rn_told r"
  shows "\<exists>x. run_main windows (es @ [Drain_elapsed]) r = Inr x"
  using assms
proof (induction es arbitrary: r)
  case (Cons e es)
  then show ?case by (auto dest: draining_step split: sum.split)
qed simp

lemma interrupt_drains:
  "\<not> rn_draining r \<Longrightarrow> run_step False Interrupt r = Inl (r\<lparr>rn_draining := True, rn_told := True\<rparr>)"
  by simp

text \<open>Without a panic and a second Ctrl+C the code is zero.\<close>

lemma failure_needs_panic:
  assumes "run_main windows es r = Inr (Returns (Inl e))" and "Some Task_panicked \<notin> set (rn_tasks r)"
  shows "\<exists>i. Instance_ends i Task_panicked \<in> set es"
  using assms
proof (induction es arbitrary: r)
  case (Cons x es)
  show ?case
  proof (cases "\<exists>i. x = Instance_ends i Task_panicked")
    case False
    have t: "Some Task_panicked \<notin> set (rn_tasks r')" if "run_step windows x r = Inl r'" for r'
      using that False Cons.prems(2)
      by (cases x) (auto simp: task_ends_def Let_def split_beta split: if_splits option.splits
          dest!: set_update_subset_insert [THEN subsetD])
    moreover have "run_step windows x r \<noteq> Inr (Returns (Inl e))"
      using False Cons.prems(2)
      by (cases x) (auto simp: task_ends_def finish_def joined_def Let_def split_beta split: if_splits option.splits
          dest!: set_update_subset_insert [THEN subsetD])
    ultimately show ?thesis using Cons by (auto split: sum.splits)
  qed auto
qed simp

end
