(* ===== verification/Spec2Isabelle.thy ===== *)
theory Spec2Isabelle
  imports Domain JsonRpc SubmitGuards AntiAbuse Merged Vardiff ShareSafety Serving Http Console Service Shutdown
begin

text \<open>
  \<^bold>\<open>The solo merge-mining Stratum bridge.\<close>

  The program stands between miners (ASICs that speak Stratum over TCP) and two nodes: a ZKAS node,
  whose blocks are the goal, and a Kaspa node, whose blocks are the parents that the miners really
  hash.  One server per configured port accepts connections, hands out jobs made from parents that
  commit to ZKAS blocks, judges the shares that come back, submits solved parents to Kaspa and the
  ZKAS blocks they prove to ZKAS, keeps statistics for every worker and steers its difficulty.
  Paths below are relative to \<^verbatim>\<open>src/bridge-src/bridge/src/\<close>, those of the domain crate to
  \<^verbatim>\<open>src/bridge-src/crates/katpool-domain/src/\<close>.

  \<^bold>\<open>How the parts interact.\<close>  \<^verbatim>\<open>main.rs\<close> reads the configuration (\<open>Config\<close>), connects to the nodes
  (\<open>NodeLink\<close>) and starts one server for each instance (\<open>Server\<close>) and the web servers (\<open>Http\<close>), in the
  order of \<open>Startup\<close>, and waits for their end or for Ctrl+C (\<open>Shutdown\<close>).  A server
  accepts a connection unless the guard against abuse refuses it (\<open>AntiAbuse\<close>), reads frames
  (\<open>Listener\<close>, \<open>JsonRpc\<close>) and calls the handler of the method: subscribe and authorize
  (\<open>DefaultClient\<close>) or submit (\<open>ShareHandler\<close>).  Template notifications of the nodes (\<open>NodeLink\<close>) make the client
  handler (\<open>ClientHandler\<close>) fetch templates (\<open>KaspaApi\<close>, \<open>Merged\<close>), store them in the job ring of each
  connection (\<open>MiningState\<close>) and send them (\<open>StratumContext\<close>).  Every event is counted (\<open>WorkStats\<close>,
  \<open>Prom\<close>) and read back by the dashboard (\<open>Dashboard\<close>).

  \<^bold>\<open>Theories and sources.\<close>

  \<^item> \<open>Prelude\<close>: strings as UTF-8 bytes, their scalars, trimming, splitting, prefixes, decimal and
    hexadecimal text, results, words.  \<open>HashMaps\<close>: \<^verbatim>\<open>HashMap\<close> as an association list with distinct keys.
  \<^item> \<open>Float64\<close>: \<^verbatim>\<open>f64\<close> as an executable binary64 with rounding to nearest even, its monotony and exactness.
  \<^item> \<open>Domain\<close>: the crate \<^verbatim>\<open>katpool-domain\<close>: addresses, workers, hashes, difficulties, scores, events, the redactor.
  \<^item> \<open>JsonRpc\<close>: \<^verbatim>\<open>jsonrpc_event.rs\<close>, \<^verbatim>\<open>errors.rs\<close>.
  \<^item> \<open>SubmitGuards\<close>: \<^verbatim>\<open>DuplicateSubmitGuard\<close> (\<^verbatim>\<open>share_handler.rs\<close>) and \<^verbatim>\<open>BlockSubmitGuard\<close> (\<^verbatim>\<open>kaspaapi.rs\<close>) as instances of
    one record; the locale \<open>guard_ops\<close> states what both promise.
  \<^item> \<open>AntiAbuse\<close>: \<^verbatim>\<open>anti_abuse.rs\<close>: configuration, token bucket, connection tickets.
  \<^item> \<open>Hasher\<close>: \<^verbatim>\<open>hasher.rs\<close>: difficulty and target, the header pre-image, the three job formats.
  \<^item> \<open>MiningState\<close>: \<^verbatim>\<open>mining_state.rs\<close>: the ring of jobs; the locale \<open>job_store\<close> is its contract.
  \<^item> \<open>Merged\<close>: \<^verbatim>\<open>merged.rs\<close>: Merkle branch, parent and proof, the store of pending blocks, the fee minute.
  \<^item> \<open>Vardiff\<close>: the difficulty controller of \<^verbatim>\<open>share_handler.rs\<close>.
  \<^item> \<open>StratumContext\<close>: \<^verbatim>\<open>stratum_context.rs\<close>: one connection, its identity and its write path; the locale
    \<open>frame_sender\<close> covers the four ways to send.
  \<^item> \<open>KaspaApi\<close>, \<open>NodeLink\<close>: \<^verbatim>\<open>kaspaapi.rs\<close>: templates, parents, claims and block submission; connecting,
    polls and the notification listeners, with the locale \<open>feed_client\<close>.
  \<^item> \<open>Prom\<close>, \<open>Dashboard\<close>, \<open>Http\<close>: \<^verbatim>\<open>prom.rs\<close>: recording, reading back, serving.  The locale
    \<open>scan_invariant\<close> lifts a property of one sample to the pass over all families.
  \<^item> \<open>WorkStats\<close>, \<open>ShareHandler\<close>, \<open>ShareSafety\<close>: the rest of \<^verbatim>\<open>share_handler.rs\<close>: worker statistics, vardiff
    bookkeeping and the periodic tasks; \<^verbatim>\<open>handle_submit\<close> from the parameters to the reply; and what
    miners and accounting rely on.
  \<^item> \<open>ClientHandler\<close>, \<open>ClientJobs\<close>: \<^verbatim>\<open>client_handler.rs\<close>: the client table, the three job-building tasks, and what they achieve.
  \<^item> \<open>DefaultClient\<close>, \<open>Handshake\<close>: \<^verbatim>\<open>default_client.rs\<close>: subscribe and authorize, and what they achieve.
  \<^item> \<open>Listener\<close>: \<^verbatim>\<open>stratum_listener.rs\<close> and \<^verbatim>\<open>net_utils.rs\<close>: the read loop over a list of reads; the locale
    \<open>connection\<close> is what it needs of its callbacks.
  \<^item> \<open>Server\<close>, \<open>LiveCounts\<close>, \<open>Serving\<close>: \<^verbatim>\<open>stratum_server.rs\<close>: the step relation of a whole server, its
    invariants, and the listener on top of it.
  \<^item> \<open>Ledger\<close>: the books of the share handler: the locale \<open>handler_invariant\<close> lifts an invariant of the
    statistics to all operations and steps; its instances are the balance of the counters and their sign.
  \<^item> \<open>Service\<close>: \<^verbatim>\<open>listen_impl\<close> of \<^verbatim>\<open>stratum_listener.rs\<close>: accept loops, connection tasks with their tickets,
    disconnect channels and the shutdown, as steps over the server and the guard.
  \<^item> \<open>Console\<close>, \<open>LogFormat\<close>: the statistics table of \<^verbatim>\<open>share_handler.rs\<close>, and the log formatter of
    \<^verbatim>\<open>tracing_setup.rs\<close> and \<^verbatim>\<open>log_colors.rs\<close>.
  \<^item> \<open>Config\<close>: \<^verbatim>\<open>app_config.rs\<close>, \<^verbatim>\<open>cli.rs\<close> and the configuration part of \<^verbatim>\<open>main.rs\<close>.
  \<^item> \<open>Startup\<close>, \<open>Shutdown\<close>: the rest of \<^verbatim>\<open>main.rs\<close>, with \<^verbatim>\<open>app_dirs.rs\<close>, \<^verbatim>\<open>health_check.rs\<close> and
    \<^verbatim>\<open>init_tracing\<close>: the actions of a start in order, as far as it gets; then the events that end the program.

  \<^bold>\<open>State.\<close>  A struct is a record whose fields bear the source's names, where these are free; a mutex
  or an atomic is its value, because an operation of the model is one critical section or a sequence of them
  within one task.  Statistics cells that the code shares by reference are addresses in an explicit
  heap (\<open>WorkStats\<close>), so that the aliasing of a worker's cell under two keys is visible.  \<open>bridge\<close> is
  what one connection's handler can touch: the connection, the share handler, the node API and the
  metrics; \<open>pool\<close> and \<open>server\<close> hold those of all connections.  Frames are answered and jobs are sent by
  functions on \<open>bridge\<close>; the interleaving of all tasks is \<open>server_step\<close>, an inductive relation whose rules are the
  tasks that \<^verbatim>\<open>stratum_server.rs\<close> spawns, and \<open>reachable\<close> starts from \<open>server_new\<close>.  What is sent to a
  node or to the metrics library is logged in the state.

  \<^bold>\<open>Results.\<close>  For shares: an accepted share has the work it claims for a job of its own connection, is counted once,
  answered at most once and reported in order; a resubmission is not judged again; the judging ends.
  For blocks: the auxiliary proof folds to the parent's Merkle root, a solution is claimed once, and
  the parent goes to Kaspa whether or not the claim succeeds.  For jobs: an announced job is stored
  under its id, and the ring is a log of the last 300.  For the server: the live counts of all workers are
  right in every reachable state, the overall counters are the sums over all workers, and the console prints
  them; every connection accepted is running, waiting for its disconnect or done with, and the caps on
  connections hold for the tasks that run; the read loop refines the server, reads may be cut anywhere, no
  template notification is lost.  For the controller: bounds and convergence to the floor in float arithmetic.  For
  the guards: caps, retention, tickets.  For configuration and web server: distinct ports,
  guarded writes, which files are served.  For the whole program: no mining port is open before the
  node was waited for.  Some properties record behaviour that its authors will not want: absolute paths served as static files, miners dropped for a mistyped address, a parent
  refresh that ignores the fee minute, an update that the next start refuses, an exit with success after every server has failed.

  \<^bold>\<open>Bounds and fuel.\<close>  The proof-of-work loop makes at most eight attempts and recurs on the attempts
  left; a write makes at most three, the block confirmation thirty, a template request three: these recur
  structurally on the number left, the source's own bound, so that no fuel is added.  The line loop, the lossy
  decoder, \<open>trim_start_matches\<close> and \<open>clean_wallet\<close> recur with a measure on what is left of the text.  Loops that wait for
  the outside (connecting, waiting for the node to be in step) recur on the list of answers, and the
  result tells when the answers have run out.

  \<^bold>\<open>Parameters.\<close>  The node's consensus types and functions (\<open>consensus\<close>: header hash, proof of work,
  addresses, transactions, the auxiliary proof), every answer of a node, clocks, the JSON, YAML and PROXY
  parsers, the metrics registry, \<^verbatim>\<open>log2\<close>, the environment variables, and the file system.
  Unspecified orders of hash maps are the order of the list.

  \<^bold>\<open>Not modelled.\<close>  The runtime under the tasks (its scheduler and its timers) and
  sockets; \<^verbatim>\<open>inprocess_node.rs\<close>, which starts and stops a vendored node;
  the texts of log messages other than the console table and the lines on the configuration, the log subscriber, and
  \<^verbatim>\<open>pow_diagnostic.rs\<close>, which prints; the metrics registry itself; the accessors and delegating
  trait implementations at the ends of \<^verbatim>\<open>share_handler.rs\<close> and \<^verbatim>\<open>kaspaapi.rs\<close>; and the optional CPU miner of
  \<^verbatim>\<open>rkstratum_cpu_miner.rs\<close>, which no longer compiles against \<^verbatim>\<open>submit_block\<close>.
\<close>

end
